theory Spec2Isabelle
  imports Main "HOL-Library.Sublist" "HOL-Library.AList" "HOL-Library.Word"
begin

unbundle bit_operations_syntax

section \<open>Strings as the scanner uses them\<close>

text \<open>
  A JavaScript string is modelled as a \<^typ>\<open>string\<close>: the list of its code units, each
  in the 8-bit range of \<^typ>\<open>char\<close>. \<open>startsWith\<close>, \<open>endsWith\<close> and \<open>includes\<close> are
  \<^const>\<open>prefix\<close>, \<^const>\<open>suffix\<close> and \<^const>\<open>sublist\<close> with the arguments swapped.
\<close>

abbreviation LF :: char where "LF \<equiv> CHR 0x0A"
abbreviation CR :: char where "CR \<equiv> CHR 0x0D"
abbreviation SLASH :: char where "SLASH \<equiv> CHR ''/''"
abbreviation DOT :: char where "DOT \<equiv> CHR ''.''"

definition startsWith :: "string \<Rightarrow> string \<Rightarrow> bool" where
  "startsWith s p = prefix p s"

definition endsWith :: "string \<Rightarrow> string \<Rightarrow> bool" where
  "endsWith s p = suffix p s"

definition str_includes :: "string \<Rightarrow> string \<Rightarrow> bool" where
  "str_includes s p = sublist p s"

text \<open>\<open>s.slice(a, b)\<close> for non-negative \<open>a\<close> and \<open>b\<close>.\<close>

definition slice :: "string \<Rightarrow> nat \<Rightarrow> nat \<Rightarrow> string" where
  "slice s a b = take (b - a) (drop a s)"

fun cons_hd :: "char \<Rightarrow> string list \<Rightarrow> string list" where
  "cons_hd x [] = [[x]]"
| "cons_hd x (p # ps) = (x # p) # ps"

text \<open>\<open>s.split(c)\<close> for a one-character separator.\<close>

fun split_chr :: "char \<Rightarrow> string \<Rightarrow> string list" where
  "split_chr c [] = [[]]"
| "split_chr c (x # xs) = (if x = c then [] # split_chr c xs else cons_hd x (split_chr c xs))"

text \<open>\<open>s.split(c)[0]\<close>: the part before the first occurrence of \<open>c\<close>.\<close>

definition split_first :: "char \<Rightarrow> string \<Rightarrow> string" where
  "split_first c s = takeWhile (\<lambda>x. x \<noteq> c) s"

text \<open>\<open>parts.join(sep)\<close>.\<close>

fun join :: "string \<Rightarrow> string list \<Rightarrow> string" where
  "join sep [] = []"
| "join sep [p] = p"
| "join sep (p # q # ps) = p @ sep @ join sep (q # ps)"

text \<open>\<open>s.split(/\r?\n/)\<close>.\<close>

fun split_lines :: "string \<Rightarrow> string list" where
  "split_lines [] = [[]]"
| "split_lines [x] = (if x = LF then [[], []] else [[x]])"
| "split_lines (x # y # xs) =
     (if x = LF then [] # split_lines (y # xs)
      else if x = CR \<and> y = LF then [] # split_lines xs
      else cons_hd x (split_lines (y # xs)))"

text \<open>White space and line terminators of \<open>String.prototype.trim\<close> and of the regular
  expression class \<open>\s\<close>, among the code units below 256.\<close>

definition is_space :: "char \<Rightarrow> bool" where
  "is_space c = (c \<in> set [CHR 0x09, LF, CHR 0x0B, CHR 0x0C, CR, CHR '' '', CHR 0xA0])"

definition trim :: "string \<Rightarrow> string" where
  "trim s = rev (dropWhile is_space (rev (dropWhile is_space s)))"

text \<open>\<open>s.lastIndexOf(c)\<close>, \<open>None\<close> for \<open>-1\<close>.\<close>

definition lastIndexOf :: "string \<Rightarrow> char \<Rightarrow> nat option" where
  "lastIndexOf s c =
     (if c \<in> set s then Some (length s - 1 - length (takeWhile (\<lambda>x. x \<noteq> c) (rev s))) else None)"

text \<open>The regular expression atom \<open>.\<close> matches every code unit but a line terminator.\<close>

definition no_line_terminator :: "string \<Rightarrow> bool" where
  "no_line_terminator s = (LF \<notin> set s \<and> CR \<notin> set s)"

section \<open>Constants of the scanner\<close>

definition ALWAYS_IGNORE :: "string list" where
  "ALWAYS_IGNORE = [''.git/'', ''node_modules/'', ''.next/'', ''dist/'', ''build/'', ''out/'',
     ''coverage/'', ''.turbo/'', ''.cache/'', ''.DS_Store'']"

definition SCRIPT_EXTENSIONS :: "string list" where
  "SCRIPT_EXTENSIONS = [''.js'', ''.jsx'', ''.ts'', ''.tsx'', ''.mjs'', ''.cjs'']"

definition STYLE_EXTENSIONS :: "string list" where
  "STYLE_EXTENSIONS = [''.css'', ''.scss'', ''.sass'']"

definition SUPPORTED_EXTENSIONS :: "string list" where
  "SUPPORTED_EXTENSIONS = SCRIPT_EXTENSIONS @ STYLE_EXTENSIONS"

definition IMPORT_EXTENSIONS :: "string list" where
  "IMPORT_EXTENSIONS = [''.ts'', ''.tsx'', ''.js'', ''.jsx'', ''.mjs'', ''.cjs'', ''.css'',
     ''.scss'', ''.sass'']"

section \<open>Path helpers of the in-browser scanner\<close>

text \<open>\<open>value.replace(/\/+/g, '/')\<close>.\<close>

fun collapse_slashes :: "string \<Rightarrow> string" where
  "collapse_slashes (x # y # xs) =
     (if x = SLASH \<and> y = SLASH then collapse_slashes (y # xs) else x # collapse_slashes (y # xs))"
| "collapse_slashes xs = xs"

definition posixJoin :: "string list \<Rightarrow> string" where
  "posixJoin parts = collapse_slashes (join ''/'' (filter (\<lambda>p. p \<noteq> []) parts))"

definition posixDirname :: "string \<Rightarrow> string" where
  "posixDirname v = (case lastIndexOf v SLASH of None \<Rightarrow> [] | Some idx \<Rightarrow> take idx v)"

definition posixBasename :: "string \<Rightarrow> string" where
  "posixBasename v = (case lastIndexOf v SLASH of None \<Rightarrow> v | Some idx \<Rightarrow> drop (idx + 1) v)"

definition posixExtname :: "string \<Rightarrow> string" where
  "posixExtname v =
     (let base = posixBasename v
      in case lastIndexOf base DOT of None \<Rightarrow> [] | Some idx \<Rightarrow> drop idx base)"

text \<open>The loop of \<open>normalizePosixPath\<close>: the stack of kept parts and the flag
  \<open>escapedRoot\<close>.\<close>

fun normalize_parts :: "string list \<Rightarrow> string list \<times> bool \<Rightarrow> string list \<times> bool" where
  "normalize_parts [] acc = acc"
| "normalize_parts (part # parts) (stack, escapedRoot) =
     (if part = [] \<or> part = ''.'' then normalize_parts parts (stack, escapedRoot)
      else if part = ''..'' then
        (if stack \<noteq> [] then normalize_parts parts (butlast stack, escapedRoot)
         else normalize_parts parts (stack, True))
      else normalize_parts parts (stack @ [part], escapedRoot))"

definition normalizePosixPath :: "string \<Rightarrow> string \<times> bool" where
  "normalizePosixPath v =
     (let (stack, escapedRoot) = normalize_parts (split_chr SLASH v) ([], False)
      in (join ''/'' stack, escapedRoot))"

section \<open>Path functions of the platform (POSIX flavour of the \<open>path\<close> module)\<close>

text \<open>
  The server-side scanner calls the platform's \<open>path\<close> module. Its POSIX functions are
  modelled on the parts of a path between separators: \<open>normalizeString\<close> drops empty
  and \<open>.\<close> parts and lets \<open>..\<close> remove the part before it; above the start of a
  relative path a \<open>..\<close> is kept when \<open>allowAboveRoot\<close> holds and dropped otherwise.
\<close>

fun normalize_segments :: "bool \<Rightarrow> string list \<Rightarrow> string list \<Rightarrow> string list" where
  "normalize_segments allowAboveRoot res [] = res"
| "normalize_segments allowAboveRoot res (part # parts) =
     (if part = [] \<or> part = ''.'' then normalize_segments allowAboveRoot res parts
      else if part = ''..'' then
        (if res \<noteq> [] \<and> last res \<noteq> ''..'' then normalize_segments allowAboveRoot (butlast res) parts
         else if allowAboveRoot then normalize_segments allowAboveRoot (res @ [''..'']) parts
         else normalize_segments allowAboveRoot res parts)
      else normalize_segments allowAboveRoot (res @ [part]) parts)"

definition normalizeString :: "string \<Rightarrow> bool \<Rightarrow> string" where
  "normalizeString p allowAboveRoot =
     join ''/'' (normalize_segments allowAboveRoot [] (split_chr SLASH p))"

definition isAbsolute :: "string \<Rightarrow> bool" where
  "isAbsolute p = (case p of [] \<Rightarrow> False | c # _ \<Rightarrow> c = SLASH)"

definition path_normalize :: "string \<Rightarrow> string" where
  "path_normalize p =
     (if p = [] then ''.''
      else let trailingSeparator = (last p = SLASH);
               q = normalizeString p (\<not> isAbsolute p)
           in if q = [] then (if isAbsolute p then ''/'' else if trailingSeparator then ''./'' else ''.'')
              else (if isAbsolute p then ''/'' else []) @ q @ (if trailingSeparator then ''/'' else []))"

definition path_join :: "string list \<Rightarrow> string" where
  "path_join args =
     (case filter (\<lambda>a. a \<noteq> []) args of [] \<Rightarrow> ''.'' | ps \<Rightarrow> path_normalize (join ''/'' ps))"

text \<open>\<open>path.resolve(...args)\<close>: the arguments are taken from the right until an absolute
  one is met; the working directory \<open>cwd\<close> of the process comes last.\<close>

fun resolve_chain :: "string list \<Rightarrow> string \<Rightarrow> string" where
  "resolve_chain [] resolvedPath = resolvedPath"
| "resolve_chain (p # ps) resolvedPath =
     (if p = [] then resolve_chain ps resolvedPath
      else if isAbsolute p then p @ ''/'' @ resolvedPath
      else resolve_chain ps (p @ ''/'' @ resolvedPath))"

definition path_resolve :: "string \<Rightarrow> string list \<Rightarrow> string" where
  "path_resolve cwd args =
     (let resolvedPath = resolve_chain (rev (cwd # args)) []
      in if isAbsolute resolvedPath then ''/'' @ normalizeString resolvedPath False
         else (case normalizeString resolvedPath True of [] \<Rightarrow> ''.'' | q \<Rightarrow> q))"

text \<open>The parts of an absolute, normalised path.\<close>

definition path_parts :: "string \<Rightarrow> string list" where
  "path_parts p = filter (\<lambda>s. s \<noteq> []) (split_chr SLASH p)"

fun strip_common :: "string list \<Rightarrow> string list \<Rightarrow> string list \<times> string list" where
  "strip_common (x # xs) (y # ys) = (if x = y then strip_common xs ys else (x # xs, y # ys))"
| "strip_common xs ys = (xs, ys)"

text \<open>\<open>path.relative(from, to)\<close>: one \<open>..\<close> for every part of \<open>from\<close> below the common
  directory, then the parts of \<open>to\<close> below it.\<close>

definition path_relative :: "string \<Rightarrow> string \<Rightarrow> string \<Rightarrow> string" where
  "path_relative cwd from to =
     (if from = to then []
      else let (fs, ts) = strip_common (path_parts (path_resolve cwd [from]))
                                       (path_parts (path_resolve cwd [to]))
           in join ''/'' (map (\<lambda>_. ''..'') fs @ ts))"

text \<open>The last part of a path, trailing separators ignored.\<close>

definition path_basename :: "string \<Rightarrow> string" where
  "path_basename p =
     rev (takeWhile (\<lambda>c. c \<noteq> SLASH) (dropWhile (\<lambda>c. c = SLASH) (rev p)))"

definition path_extname :: "string \<Rightarrow> string" where
  "path_extname p =
     (let base = path_basename p
      in case lastIndexOf base DOT of
           None \<Rightarrow> []
         | Some idx \<Rightarrow> if idx = 0 \<or> base = ''..'' then [] else drop idx base)"

definition path_dirname :: "string \<Rightarrow> string" where
  "path_dirname p =
     (if p = [] then ''.''
      else let body = rev (dropWhile (\<lambda>c. c = SLASH) (rev (tl p)))
           in case lastIndexOf body SLASH of
                None \<Rightarrow> (if isAbsolute p then ''/'' else ''.'')
              | Some idx \<Rightarrow> if isAbsolute p \<and> idx = 0 then ''//'' else take (idx + 1) p)"

section \<open>The two scanners and their path functions\<close>

text \<open>
  The repository holds the scanner twice: \<open>scanProject\<close> runs on the server over the file
  system, \<open>scanDirectoryHandle\<close> runs in the browser over a directory handle. The code shared
  by both differs only in the path functions it calls, which are passed as a record.
\<close>

record pathfns =
  p_extname :: "string \<Rightarrow> string"
  p_basename :: "string \<Rightarrow> string"
  p_join :: "string list \<Rightarrow> string"

definition server_paths :: pathfns where
  "server_paths = \<lparr>p_extname = path_extname, p_basename = path_basename, p_join = path_join\<rparr>"

definition browser_paths :: pathfns where
  "browser_paths = \<lparr>p_extname = posixExtname, p_basename = posixBasename, p_join = posixJoin\<rparr>"

section \<open>Ignore patterns\<close>

definition normalizeGitignorePattern :: "'a pathfns_scheme \<Rightarrow> string \<Rightarrow> string \<Rightarrow> string option" where
  "normalizeGitignorePattern P dirRel rawPattern =
     (let pattern0 = trim rawPattern
      in if pattern0 = [] \<or> startsWith pattern0 ''#'' then None
         else
           let negated = startsWith pattern0 ''!'';
               pattern1 = (if negated then drop 1 pattern0 else pattern0)
           in if pattern1 = [] then None
              else
                let anchored = startsWith pattern1 ''/'';
                    pattern = (if anchored then drop 1 pattern1 else pattern1);
                    hasSlash = str_includes pattern ''/'';
                    endsWithSlash = endsWith pattern ''/'';
                    base = dirRel;
                    prefixed0 =
                      (if base \<noteq> [] then
                         (if anchored \<or> hasSlash then p_join P [base, pattern]
                          else p_join P [base, ''**'', pattern])
                       else if \<not> anchored \<and> \<not> hasSlash then p_join P [''**'', pattern]
                       else pattern);
                    prefixed =
                      (if endsWithSlash \<and> \<not> endsWith prefixed0 ''/'' then prefixed0 @ ''/''
                       else prefixed0)
                in Some (if negated then ''!'' @ prefixed else prefixed))"

definition isSupportedFile :: "'a pathfns_scheme \<Rightarrow> string \<Rightarrow> bool" where
  "isSupportedFile P filePath = (p_extname P filePath \<in> set SUPPORTED_EXTENSIONS)"

section \<open>Node typing\<close>

datatype NodeType = RouteNode | ModuleNode | StyleNode | ExternalNode | SymbolNode

datatype EdgeType = StaticEdge | DynamicEdge | StyleEdge | ExternalEdge | ContainsEdge

text \<open>The extensions \<open>\.(t|j)sx?\<close> that end both route expressions.\<close>

definition route_exts :: "string list" where
  "route_exts = [''.ts'', ''.tsx'', ''.js'', ''.jsx'']"

text \<open>The positions where \<open>(^|\/)\<close> matches: the start of the path and the positions
  after a separator.\<close>

definition segment_starts :: "string \<Rightarrow> nat list" where
  "segment_starts p = filter (\<lambda>i. i = 0 \<or> p ! (i - 1) = SLASH) [0..<Suc (length p)]"

text \<open>\<open>ROUTE_REGEX.app.test\<close>, for \<open>/(^|\/)app\/(.*\/)?(page|route)\.(t|j)sx?$/\<close>.\<close>

definition ROUTE_REGEX_app :: "string \<Rightarrow> bool" where
  "ROUTE_REGEX_app p =
     (\<exists>i \<in> set (segment_starts p). startsWith (drop i p) ''app/'' \<and>
        (\<exists>name \<in> set [''page'', ''route'']. \<exists>ext \<in> set route_exts.
           let r = drop (i + 4) p; m = take (length r - length (name @ ext)) r
           in endsWith r (name @ ext) \<and> (m = [] \<or> (last m = SLASH \<and> no_line_terminator m))))"

text \<open>\<open>ROUTE_REGEX.pages.test\<close>, for \<open>/(^|\/)pages\/.+\.(t|j)sx?$/\<close>.\<close>

definition ROUTE_REGEX_pages :: "string \<Rightarrow> bool" where
  "ROUTE_REGEX_pages p =
     (\<exists>i \<in> set (segment_starts p). startsWith (drop i p) ''pages/'' \<and>
        (\<exists>ext \<in> set route_exts.
           let r = drop (i + 6) p; m = take (length r - length ext) r
           in endsWith r ext \<and> m \<noteq> [] \<and> no_line_terminator m))"

definition nodeTypeFromPath :: "'a pathfns_scheme \<Rightarrow> string \<Rightarrow> NodeType" where
  "nodeTypeFromPath P relPath =
     (if relPath = ''__external__'' then ExternalNode
      else if ROUTE_REGEX_app relPath \<or> ROUTE_REGEX_pages relPath then
        (if (str_includes relPath ''/pages/'' \<or> startsWith relPath ''pages/'')
            \<and> startsWith (p_basename P relPath) ''_''
         then ModuleNode else RouteNode)
      else if p_extname P relPath \<in> set STYLE_EXTENSIONS then StyleNode
      else ModuleNode)"

section \<open>Path shapes of route entries, stated on the parts of the path\<close>

definition app_route_shape :: "string \<Rightarrow> bool" where
  "app_route_shape p =
     (\<exists>d sub name ext. p = d @ ''app/'' @ sub @ name @ ext \<and> (d = [] \<or> last d = SLASH) \<and>
        (sub = [] \<or> (last sub = SLASH \<and> no_line_terminator sub)) \<and>
        name \<in> {''page'', ''route''} \<and> ext \<in> set route_exts)"

definition pages_file_shape :: "string \<Rightarrow> bool" where
  "pages_file_shape p =
     (\<exists>d m ext. p = d @ ''pages/'' @ m @ ext \<and> (d = [] \<or> last d = SLASH) \<and>
        m \<noteq> [] \<and> no_line_terminator m \<and> ext \<in> set route_exts)"

section \<open>Graph data\<close>

record GraphNode =
  n_id :: string
  n_path :: string
  n_label :: string
  n_type :: NodeType
  n_ignored :: "bool option"
  n_symbolKind :: "string option"
  n_parent :: "string option"
  n_displayName :: "string option"

record GraphEdge =
  e_id :: string
  e_source :: string
  e_target :: string
  e_type :: EdgeType
  e_statement :: "string option"
  e_loc :: "(nat \<times> nat) option"

record GraphData =
  g_root :: string
  g_nodes :: "GraphNode list"
  g_edges :: "GraphEdge list"
  g_totalFiles :: nat
  g_ignoredCount :: nat
  g_externalCount :: nat

text \<open>An edge type as it is written into an edge key by a template string.\<close>

fun edge_type_name :: "EdgeType \<Rightarrow> string" where
  "edge_type_name StaticEdge = ''static''"
| "edge_type_name DynamicEdge = ''dynamic''"
| "edge_type_name StyleEdge = ''style''"
| "edge_type_name ExternalEdge = ''external''"
| "edge_type_name ContainsEdge = ''contains''"

section \<open>Syntax trees, as far as the extractors read them\<close>

text \<open>
  The parser is a library. Of its syntax tree the extractors read only the nodes below, which
  \<open>traverse\<close> hands to the visitors in its visiting order; the tree is modelled as the list of
  these nodes in that order. A declaration node carries whether its parent is the program,
  the one fact about the tree's shape that a visitor tests.
\<close>

record span =
  s_start :: "nat option"
  s_end :: "nat option"
  s_loc :: "(nat \<times> nat) option"

datatype import_specifier =
    ImportDefaultSpecifier string
  | ImportSpecifier string string
  | ImportNamespaceSpecifier string

datatype expression = StringLiteral string | OtherExpression

datatype callee = Import | Identifier string | OtherCallee

datatype declarator = IdentifierPattern string | OtherPattern

datatype decl =
    FunctionDeclaration "string option"
  | ClassDeclaration "string option"
  | VariableDeclaration string "declarator list"
  | TSInterfaceDeclaration string
  | TSTypeAliasDeclaration string
  | TSEnumDeclaration string
  | OtherDeclaration

datatype export_specifier = ExportSpecifier string string | OtherExportSpecifier

datatype default_declaration =
    DefaultFunction "string option"
  | DefaultClass "string option"
  | DefaultIdentifier string
  | DefaultExpression

datatype ast_node =
    ImportDeclaration string "import_specifier list" span
  | ExportAllDeclaration "string option" span
  | ExportNamedDeclaration "decl option" "export_specifier list" "string option" span
  | ExportDefaultDeclaration default_declaration
  | CallExpression callee "expression list" span
  | Declaration decl bool
  | OtherNode

text \<open>
  What a scanner is built from: its path functions, the parser (\<open>None\<close> when it throws), the
  matcher of the \<open>ignore\<close> library (\<open>s_ignores patterns relPath\<close> stands for
  \<open>ignore().add(patterns).ignores(relPath)\<close>) and the hash that names edges.
\<close>

record scanner = pathfns +
  s_parse :: "string \<Rightarrow> ast_node list option"
  s_ignores :: "string list \<Rightarrow> string \<Rightarrow> bool"
  s_hashId :: "string \<Rightarrow> string"

section \<open>Dependency extraction\<close>

datatype binding_kind = DefaultBinding | NamedBinding | NamespaceBinding

record ImportBinding =
  b_kind :: binding_kind
  b_imported :: string
  b_local :: string

record Dependency =
  d_specifier :: string
  d_type :: EdgeType
  d_statement :: "string option"
  d_loc :: "(nat \<times> nat) option"
  d_imports :: "ImportBinding list option"

fun import_binding :: "import_specifier \<Rightarrow> ImportBinding" where
  "import_binding (ImportDefaultSpecifier l) =
     \<lparr>b_kind = DefaultBinding, b_imported = ''default'', b_local = l\<rparr>"
| "import_binding (ImportSpecifier importedName l) =
     \<lparr>b_kind = NamedBinding, b_imported = importedName, b_local = l\<rparr>"
| "import_binding (ImportNamespaceSpecifier l) =
     \<lparr>b_kind = NamespaceBinding, b_imported = ''*'', b_local = l\<rparr>"

text \<open>\<open>code.slice(node.start ?? 0, node.end ?? 0)\<close>.\<close>

definition node_text :: "string \<Rightarrow> span \<Rightarrow> string" where
  "node_text code sp =
     slice code (case s_start sp of None \<Rightarrow> 0 | Some a \<Rightarrow> a) (case s_end sp of None \<Rightarrow> 0 | Some b \<Rightarrow> b)"

definition script_dependency ::
  "string \<Rightarrow> string \<Rightarrow> EdgeType \<Rightarrow> span \<Rightarrow> ImportBinding list option \<Rightarrow> Dependency" where
  "script_dependency code v t sp imps =
     \<lparr>d_specifier = v, d_type = t, d_statement = Some (node_text code sp), d_loc = s_loc sp,
      d_imports = imps\<rparr>"

text \<open>The dependencies one visited node adds, in the order the visitor pushes them.\<close>

fun visit_dependencies :: "string \<Rightarrow> ast_node \<Rightarrow> Dependency list" where
  "visit_dependencies code (ImportDeclaration v specifiers sp) =
     [script_dependency code v StaticEdge sp
        (if specifiers \<noteq> [] then Some (map import_binding specifiers) else None)]"
| "visit_dependencies code (ExportAllDeclaration src sp) =
     (case src of None \<Rightarrow> [] | Some v \<Rightarrow> [script_dependency code v StaticEdge sp None])"
| "visit_dependencies code (ExportNamedDeclaration decl specifiers src sp) =
     (case src of None \<Rightarrow> [] | Some v \<Rightarrow> [script_dependency code v StaticEdge sp None])"
| "visit_dependencies code (CallExpression c arguments sp) =
     (if c = Import then
        (case arguments of
           StringLiteral v # _ \<Rightarrow> [script_dependency code v DynamicEdge sp None]
         | _ \<Rightarrow> [])
      else [])
     @ (if c = Identifier ''require'' then
          (case arguments of
             StringLiteral v # _ \<Rightarrow> [script_dependency code v StaticEdge sp None]
           | _ \<Rightarrow> [])
        else [])"
| "visit_dependencies code _ = []"

text \<open>
  One attempt of \<open>/@import\s+(?:url\()?['"]([^'"]+)['"]/\<close> at the start of \<open>s\<close>: the
  capture and the whole match. The greedy choices are the only ones that can succeed: after
  the white space comes no white space, and after the captured characters comes a quote.
\<close>

definition is_quote :: "char \<Rightarrow> bool" where
  "is_quote c = (c = CHR 0x27 \<or> c = CHR 0x22)"

definition style_quoted :: "string \<Rightarrow> (string \<times> string) option" where
  "style_quoted s =
     (case s of
        [] \<Rightarrow> None
      | q # rest \<Rightarrow>
          if is_quote q then
            (let body = takeWhile (\<lambda>c. \<not> is_quote c) rest
             in case dropWhile (\<lambda>c. \<not> is_quote c) rest of
                  [] \<Rightarrow> None
                | q' # _ \<Rightarrow> if body = [] then None else Some (body, q # body @ [q']))
          else None)"

definition style_match_at :: "string \<Rightarrow> (string \<times> string) option" where
  "style_match_at s =
     (if startsWith s ''@import'' then
        (let spaces = takeWhile is_space (drop 7 s);
             rest = dropWhile is_space (drop 7 s)
         in if spaces = [] then None
            else if startsWith rest ''url('' then
              (case style_quoted (drop 4 rest) of
                 None \<Rightarrow> None
               | Some (v, quoted) \<Rightarrow> Some (v, ''@import'' @ spaces @ ''url('' @ quoted))
            else
              (case style_quoted rest of
                 None \<Rightarrow> None
               | Some (v, quoted) \<Rightarrow> Some (v, ''@import'' @ spaces @ quoted)))
      else None)"

text \<open>The \<open>exec\<close> loop of the global expression: after a match the search goes on behind it
  (a match is never empty), otherwise one character further.\<close>

fun style_dependencies :: "string \<Rightarrow> Dependency list" where
  "style_dependencies [] = []"
| "style_dependencies (c # cs) =
     (case style_match_at (c # cs) of
        None \<Rightarrow> style_dependencies cs
      | Some (v, matched) \<Rightarrow>
          \<lparr>d_specifier = v, d_type = StyleEdge, d_statement = Some matched, d_loc = None,
           d_imports = None\<rparr>
          # style_dependencies (drop (length matched - 1) cs))"

definition extractDependencies :: "'a scanner_scheme \<Rightarrow> string \<Rightarrow> string \<Rightarrow> Dependency list" where
  "extractDependencies S filePath code =
     (if p_extname S filePath \<in> set SCRIPT_EXTENSIONS then
        (case s_parse S code of
           None \<Rightarrow> []
         | Some ast \<Rightarrow>
             concat (map (visit_dependencies code) ast)
             @ (if p_extname S filePath \<in> set STYLE_EXTENSIONS then style_dependencies code else []))
      else if p_extname S filePath \<in> set STYLE_EXTENSIONS then style_dependencies code
      else [])"

section \<open>Symbol extraction\<close>

record SymbolInfo =
  y_name :: string
  y_kind :: string
  y_displayName :: "string option"

fun declarator_kinds :: "string \<Rightarrow> declarator list \<Rightarrow> (string \<rightharpoonup> string) \<Rightarrow> (string \<rightharpoonup> string)" where
  "declarator_kinds kind [] m = m"
| "declarator_kinds kind (IdentifierPattern n # ds) m = declarator_kinds kind ds (m(n \<mapsto> kind))"
| "declarator_kinds kind (OtherPattern # ds) m = declarator_kinds kind ds m"

text \<open>The first traversal: the kind of every declaration whose parent is the program.\<close>

fun local_kind :: "ast_node \<Rightarrow> (string \<rightharpoonup> string) \<Rightarrow> (string \<rightharpoonup> string)" where
  "local_kind (Declaration (FunctionDeclaration (Some n)) True) m = m(n \<mapsto> ''function'')"
| "local_kind (Declaration (ClassDeclaration (Some n)) True) m = m(n \<mapsto> ''class'')"
| "local_kind (Declaration (VariableDeclaration kind ds) True) m = declarator_kinds kind ds m"
| "local_kind (Declaration (TSInterfaceDeclaration n) True) m = m(n \<mapsto> ''interface'')"
| "local_kind (Declaration (TSTypeAliasDeclaration n) True) m = m(n \<mapsto> ''type'')"
| "local_kind (Declaration (TSEnumDeclaration n) True) m = m(n \<mapsto> ''enum'')"
| "local_kind _ m = m"

text \<open>\<open>addSymbol\<close>: the set \<open>seen\<close> holds the names of the symbols pushed so far.\<close>

definition addSymbol :: "SymbolInfo \<Rightarrow> SymbolInfo list \<Rightarrow> SymbolInfo list" where
  "addSymbol info symbols =
     (if y_name info \<in> set (map y_name symbols) then symbols else symbols @ [info])"

definition symbol_of :: "string \<Rightarrow> string \<Rightarrow> SymbolInfo" where
  "symbol_of n k = \<lparr>y_name = n, y_kind = k, y_displayName = None\<rparr>"

definition kind_or_export :: "(string \<rightharpoonup> string) \<Rightarrow> string \<Rightarrow> string" where
  "kind_or_export localKinds n = (case localKinds n of None \<Rightarrow> ''export'' | Some k \<Rightarrow> k)"

fun exported_declarators :: "string \<Rightarrow> declarator list \<Rightarrow> SymbolInfo list \<Rightarrow> SymbolInfo list" where
  "exported_declarators kind [] symbols = symbols"
| "exported_declarators kind (IdentifierPattern n # ds) symbols =
     exported_declarators kind ds (addSymbol (symbol_of n kind) symbols)"
| "exported_declarators kind (OtherPattern # ds) symbols = exported_declarators kind ds symbols"

fun exported_specifiers ::
  "(string \<rightharpoonup> string) \<Rightarrow> export_specifier list \<Rightarrow> SymbolInfo list \<Rightarrow> SymbolInfo list" where
  "exported_specifiers localKinds [] symbols = symbols"
| "exported_specifiers localKinds (ExportSpecifier exportedName localName # ss) symbols =
     exported_specifiers localKinds ss
       (addSymbol (symbol_of exportedName (kind_or_export localKinds localName)) symbols)"
| "exported_specifiers localKinds (OtherExportSpecifier # ss) symbols =
     exported_specifiers localKinds ss symbols"

text \<open>The second traversal: the exported symbols.\<close>

fun visit_export :: "(string \<rightharpoonup> string) \<Rightarrow> ast_node \<Rightarrow> SymbolInfo list \<Rightarrow> SymbolInfo list" where
  "visit_export localKinds (ExportNamedDeclaration (Some decl) specifiers src sp) symbols =
     (case decl of
        FunctionDeclaration (Some n) \<Rightarrow> addSymbol (symbol_of n ''function'') symbols
      | ClassDeclaration (Some n) \<Rightarrow> addSymbol (symbol_of n ''class'') symbols
      | VariableDeclaration kind ds \<Rightarrow> exported_declarators kind ds symbols
      | TSInterfaceDeclaration n \<Rightarrow> addSymbol (symbol_of n ''interface'') symbols
      | TSTypeAliasDeclaration n \<Rightarrow> addSymbol (symbol_of n ''type'') symbols
      | TSEnumDeclaration n \<Rightarrow> addSymbol (symbol_of n ''enum'') symbols
      | _ \<Rightarrow> symbols)"
| "visit_export localKinds (ExportNamedDeclaration None specifiers src sp) symbols =
     exported_specifiers localKinds specifiers symbols"
| "visit_export localKinds (ExportDefaultDeclaration decl) symbols =
     (case decl of
        DefaultFunction name \<Rightarrow>
          addSymbol \<lparr>y_name = ''default'', y_kind = ''function'', y_displayName = name\<rparr> symbols
      | DefaultClass name \<Rightarrow>
          addSymbol \<lparr>y_name = ''default'', y_kind = ''class'', y_displayName = name\<rparr> symbols
      | DefaultIdentifier n \<Rightarrow>
          addSymbol \<lparr>y_name = ''default'', y_kind = kind_or_export localKinds n,
                     y_displayName = Some n\<rparr> symbols
      | DefaultExpression \<Rightarrow> addSymbol (symbol_of ''default'' ''export'') symbols)"
| "visit_export localKinds _ symbols = symbols"

definition extractSymbols :: "'a scanner_scheme \<Rightarrow> string \<Rightarrow> string \<Rightarrow> SymbolInfo list" where
  "extractSymbols S filePath code =
     (if p_extname S filePath \<notin> set SCRIPT_EXTENSIONS then []
      else case s_parse S code of
             None \<Rightarrow> []
           | Some ast \<Rightarrow>
               (let localKinds = fold local_kind ast Map.empty
                in fold (visit_export localKinds) ast []))"

section \<open>The hash of the in-browser scanner\<close>

text \<open>Lower-case digits of \<open>toString(16)\<close>, and of a decimal number in a template string.\<close>

definition digit_char :: "nat \<Rightarrow> char" where
  "digit_char d = (''0123456789abcdef'' ! d)"

function to_radix :: "nat \<Rightarrow> nat \<Rightarrow> string" where
  "to_radix b n =
     (if b < 2 \<or> n < b then [digit_char n] else to_radix b (n div b) @ [digit_char (n mod b)])"
  by pat_completeness auto
termination
  by (relation "measure (\<lambda>(b, n). n)") auto

text \<open>The loop of \<open>hashId\<close>: \<open>Math.imul\<close> is the product of 32-bit words.\<close>

fun hash_loop :: "string \<Rightarrow> 32 word \<times> 32 word \<Rightarrow> 32 word \<times> 32 word" where
  "hash_loop [] h = h"
| "hash_loop (ch # rest) (h1, h2) =
     hash_loop rest ((h1 XOR of_char ch) * 2654435761, (h2 XOR of_char ch) * 1597334677)"

definition hashId :: "string \<Rightarrow> string" where
  "hashId v =
     (let (h1, h2) = hash_loop v (0xdeadbeef XOR of_nat (length v), 0x41c6ce57 XOR of_nat (length v));
          h1' = (h1 XOR drop_bit 16 h1) * 2246822507;
          h2' = (h2 XOR drop_bit 16 h2) * 2246822507
      in to_radix 16 (unat h1') @ to_radix 16 (unat h2'))"

section \<open>The scanners\<close>

text \<open>
  The server-side scanner names edges by the SHA-1 digest of the platform's \<open>crypto\<close>
  module, passed as \<open>sha1\<close>; the in-browser scanner by its own \<open>hashId\<close>.
\<close>

definition server_scanner ::
  "(string \<Rightarrow> ast_node list option) \<Rightarrow> (string list \<Rightarrow> string \<Rightarrow> bool) \<Rightarrow> (string \<Rightarrow> string) \<Rightarrow> scanner" where
  "server_scanner parse ignores sha1 =
     \<lparr>p_extname = path_extname, p_basename = path_basename, p_join = path_join,
      s_parse = parse, s_ignores = ignores, s_hashId = sha1\<rparr>"

definition browser_scanner ::
  "(string \<Rightarrow> ast_node list option) \<Rightarrow> (string list \<Rightarrow> string \<Rightarrow> bool) \<Rightarrow> scanner" where
  "browser_scanner parse ignores =
     \<lparr>p_extname = posixExtname, p_basename = posixBasename, p_join = posixJoin,
      s_parse = parse, s_ignores = ignores, s_hashId = hashId\<rparr>"

section \<open>Directory trees\<close>

text \<open>
  A directory tree: a file with its text (\<open>None\<close> when it cannot be read), or a directory
  with its entries in listing order. The server reads such a tree through absolute paths,
  the browser through a directory handle, whose entries are handles of the same shape.
\<close>

datatype fsnode = File "string option" | Dir "(string \<times> fsnode) list"

fun isDirectory :: "fsnode \<Rightarrow> bool" where
  "isDirectory (Dir es) = True"
| "isDirectory (File c) = False"

text \<open>Reading the file called \<open>name\<close> among the entries of a directory; \<open>None\<close> when there
  is none, when it is a directory or when it cannot be read.\<close>

definition read_entry :: "(string \<times> fsnode) list \<Rightarrow> string \<Rightarrow> string option" where
  "read_entry entries name = (case map_of entries name of Some (File (Some c)) \<Rightarrow> Some c | _ \<Rightarrow> None)"

section \<open>Errors and options\<close>

datatype js_error = Error string

definition show_int :: "int \<Rightarrow> string" where
  "show_int i = (if i < 0 then ''-'' @ to_radix 10 (nat (- i)) else to_radix 10 (nat i))"

definition not_readable_message :: string where
  "not_readable_message = ''Selected path is not a readable directory.''"

definition file_limit_message :: "int \<Rightarrow> string" where
  "file_limit_message maxFiles =
     ''File limit exceeded ('' @ show_int maxFiles @ ''). Adjust the max files setting to continue.''"

datatype ScanGranularity = FileGranularity | SymbolGranularity

record ScanOptions =
  o_root :: string
  o_maxFiles :: int
  o_includeExternal :: bool
  o_granularity :: "ScanGranularity option"

record BrowserScanOptions =
  o_rootName :: string
  o_rootHandle :: "(string \<times> fsnode) list"
  o_browserMaxFiles :: int
  o_browserIncludeExternal :: bool
  o_browserGranularity :: "ScanGranularity option"

definition granularity_or_file :: "ScanGranularity option \<Rightarrow> ScanGranularity" where
  "granularity_or_file g = (case g of None \<Rightarrow> FileGranularity | Some v \<Rightarrow> v)"

section \<open>The tree walk\<close>

record walk_state =
  w_nodes :: "(string \<times> GraphNode) list"
  w_ignoredNodes :: "GraphNode list"
  w_filesToParse :: "string list"
  w_fileHandles :: "(string \<times> fsnode) list"
  w_dirSet :: "string list"
  w_totalFiles :: nat
  w_ignoredCount :: nat

text \<open>The map \<open>nodes\<close> keeps insertion order and replaces the value of a key in place:
  \<^const>\<open>AList.update\<close>.\<close>

definition file_node :: "'a pathfns_scheme \<Rightarrow> string \<Rightarrow> GraphNode" where
  "file_node S relPath =
     \<lparr>n_id = relPath, n_path = relPath, n_label = p_basename S relPath,
      n_type = nodeTypeFromPath S relPath, n_ignored = None, n_symbolKind = None,
      n_parent = None, n_displayName = None\<rparr>"

definition ignored_node :: "'a pathfns_scheme \<Rightarrow> string \<Rightarrow> GraphNode" where
  "ignored_node S relPath = (file_node S relPath)\<lparr>n_ignored := Some True\<rparr>"

text \<open>The patterns in force inside a directory: those inherited, then the lines of its own
  \<open>.gitignore\<close>, each normalised, the empty results dropped.\<close>

definition combined_patterns ::
  "'a pathfns_scheme \<Rightarrow> string \<Rightarrow> string list \<Rightarrow> (string \<times> fsnode) list \<Rightarrow> string list" where
  "combined_patterns S relDir patterns entries =
     (case read_entry entries ''.gitignore'' of
        None \<Rightarrow> patterns
      | Some gitignoreContent \<Rightarrow>
          if gitignoreContent = [] then patterns
          else patterns @
            filter (\<lambda>v. v \<noteq> [])
              (List.map_filter (normalizeGitignorePattern S relDir) (split_lines gitignoreContent)))"

definition start_walk :: walk_state where
  "start_walk =
     \<lparr>w_nodes = [], w_ignoredNodes = [], w_filesToParse = [], w_fileHandles = [], w_dirSet = [],
      w_totalFiles = 0, w_ignoredCount = 0\<rparr>"

subsection \<open>On the server\<close>

text \<open>
  The loop over the entries of \<open>dir\<close> in \<open>walk\<close> of \<open>scanProject\<close>. A subdirectory is walked with
  the entries its node holds, which is what \<open>readdir\<close> of its path lists.
\<close>

function server_walk_entries ::
  "'a scanner_scheme \<Rightarrow> string \<Rightarrow> string \<Rightarrow> int \<Rightarrow> string \<Rightarrow> string list \<Rightarrow>
   (string \<times> fsnode) list \<Rightarrow> walk_state \<Rightarrow> js_error + walk_state" where
  "server_walk_entries S cwd root maxFiles dir combinedPatterns [] st = Inr st"
| "server_walk_entries S cwd root maxFiles dir combinedPatterns ((name, entry) # rest) st =
     (let fullPath = path_join [dir, name];
          relPath = path_relative cwd root fullPath
      in if relPath = [] then server_walk_entries S cwd root maxFiles dir combinedPatterns rest st
         else if s_ignores S combinedPatterns relPath then
           server_walk_entries S cwd root maxFiles dir combinedPatterns rest
             (st\<lparr>w_ignoredCount := w_ignoredCount st + 1,
                 w_ignoredNodes :=
                   (if \<not> isDirectory entry \<and> isSupportedFile S fullPath
                    then w_ignoredNodes st @ [ignored_node S relPath] else w_ignoredNodes st)\<rparr>)
         else
           (case entry of
              Dir es \<Rightarrow>
                (case server_walk_entries S cwd root maxFiles fullPath
                        (combined_patterns S (path_relative cwd root fullPath) combinedPatterns es)
                        es st of
                   Inl e \<Rightarrow> Inl e
                 | Inr st' \<Rightarrow>
                     server_walk_entries S cwd root maxFiles dir combinedPatterns rest st')
            | File c \<Rightarrow>
                if int (w_totalFiles st + 1) > maxFiles then Inl (Error (file_limit_message maxFiles))
                else if \<not> isSupportedFile S fullPath then
                  server_walk_entries S cwd root maxFiles dir combinedPatterns rest
                    (st\<lparr>w_totalFiles := w_totalFiles st + 1\<rparr>)
                else
                  server_walk_entries S cwd root maxFiles dir combinedPatterns rest
                    (st\<lparr>w_totalFiles := w_totalFiles st + 1,
                        w_nodes := AList.update relPath (file_node S relPath) (w_nodes st),
                        w_filesToParse := w_filesToParse st @ [fullPath]\<rparr>)))"
  by pat_completeness auto
termination
  by (relation "measure (\<lambda>(S, cwd, root, maxFiles, dir, pats, entries, st).
        size_list (size_prod (\<lambda>name. 0) size) entries)") auto

definition server_walk ::
  "'a scanner_scheme \<Rightarrow> string \<Rightarrow> string \<Rightarrow> int \<Rightarrow> string \<Rightarrow> string list \<Rightarrow>
   (string \<times> fsnode) list \<Rightarrow> walk_state \<Rightarrow> js_error + walk_state" where
  "server_walk S cwd root maxFiles dir patterns entries st =
     server_walk_entries S cwd root maxFiles dir
       (combined_patterns S (path_relative cwd root dir) patterns entries) entries st"

subsection \<open>In the browser\<close>

function browser_walk_entries ::
  "'a scanner_scheme \<Rightarrow> int \<Rightarrow> string \<Rightarrow> string list \<Rightarrow>
   (string \<times> fsnode) list \<Rightarrow> walk_state \<Rightarrow> js_error + walk_state" where
  "browser_walk_entries S maxFiles relDir combinedPatterns [] st = Inr st"
| "browser_walk_entries S maxFiles relDir combinedPatterns ((name, handle) # rest) st =
     (let relPath = (if relDir \<noteq> [] then relDir @ ''/'' @ name else name)
      in if relPath = [] then browser_walk_entries S maxFiles relDir combinedPatterns rest st
         else if s_ignores S combinedPatterns relPath then
           browser_walk_entries S maxFiles relDir combinedPatterns rest
             (st\<lparr>w_ignoredCount := w_ignoredCount st + 1,
                 w_ignoredNodes :=
                   (if \<not> isDirectory handle \<and> p_extname S relPath \<in> set SUPPORTED_EXTENSIONS
                    then w_ignoredNodes st @ [ignored_node S relPath] else w_ignoredNodes st)\<rparr>)
         else
           (case handle of
              Dir es \<Rightarrow>
                (case browser_walk_entries S maxFiles relPath
                        (combined_patterns S relPath combinedPatterns es) es
                        (st\<lparr>w_dirSet := List.insert relPath (w_dirSet st)\<rparr>) of
                   Inl e \<Rightarrow> Inl e
                 | Inr st' \<Rightarrow> browser_walk_entries S maxFiles relDir combinedPatterns rest st')
            | File c \<Rightarrow>
                if int (w_totalFiles st + 1) > maxFiles then Inl (Error (file_limit_message maxFiles))
                else if p_extname S relPath \<notin> set SUPPORTED_EXTENSIONS then
                  browser_walk_entries S maxFiles relDir combinedPatterns rest
                    (st\<lparr>w_totalFiles := w_totalFiles st + 1\<rparr>)
                else
                  browser_walk_entries S maxFiles relDir combinedPatterns rest
                    (st\<lparr>w_totalFiles := w_totalFiles st + 1,
                        w_nodes := AList.update relPath (file_node S relPath) (w_nodes st),
                        w_fileHandles := AList.update relPath handle (w_fileHandles st)\<rparr>)))"
  by pat_completeness auto
termination
  by (relation "measure (\<lambda>(S, maxFiles, relDir, pats, entries, st).
        size_list (size_prod (\<lambda>name. 0) size) entries)") auto

definition browser_walk ::
  "'a scanner_scheme \<Rightarrow> int \<Rightarrow> string \<Rightarrow> string list \<Rightarrow>
   (string \<times> fsnode) list \<Rightarrow> walk_state \<Rightarrow> js_error + walk_state" where
  "browser_walk S maxFiles relDir patterns entries st =
     browser_walk_entries S maxFiles relDir (combined_patterns S relDir patterns entries) entries
       (st\<lparr>w_dirSet := List.insert relDir (w_dirSet st)\<rparr>)"

section \<open>Module resolution\<close>

datatype resolution = External | Resolved string

subsection \<open>On the server\<close>

text \<open>The process environment of the server: the file system below \<open>/\<close> and the working
  directory.\<close>

record server_env =
  v_fs :: fsnode
  v_cwd :: string

fun fs_lookup :: "fsnode \<Rightarrow> string list \<Rightarrow> fsnode option" where
  "fs_lookup n [] = Some n"
| "fs_lookup (File c) (part # parts) = None"
| "fs_lookup (Dir es) (part # parts) =
     (case map_of es part of None \<Rightarrow> None | Some n \<Rightarrow> fs_lookup n parts)"

text \<open>\<open>fs.stat(p)\<close>, \<open>None\<close> when it fails: nothing is at the path, or the path ends in a
  separator and a file is there.\<close>

definition fs_stat :: "server_env \<Rightarrow> string \<Rightarrow> fsnode option" where
  "fs_stat E p =
     (case fs_lookup (v_fs E) (path_parts (path_resolve (v_cwd E) [p])) of
        Some (File c) \<Rightarrow> if endsWith p ''/'' then None else Some (File c)
      | r \<Rightarrow> r)"

definition stat_isFile :: "server_env \<Rightarrow> string \<Rightarrow> bool" where
  "stat_isFile E p = (case fs_stat E p of Some (File c) \<Rightarrow> True | _ \<Rightarrow> False)"

definition stat_isDirectory :: "server_env \<Rightarrow> string \<Rightarrow> bool" where
  "stat_isDirectory E p = (case fs_stat E p of Some (Dir es) \<Rightarrow> True | _ \<Rightarrow> False)"

definition fs_readFile :: "server_env \<Rightarrow> string \<Rightarrow> string option" where
  "fs_readFile E p = (case fs_stat E p of Some (File (Some c)) \<Rightarrow> Some c | _ \<Rightarrow> None)"

definition resolveWithExtensions :: "server_env \<Rightarrow> string \<Rightarrow> string option" where
  "resolveWithExtensions E basePath =
     (if basePath = [] then None
      else if stat_isFile E basePath then Some basePath
      else
        (case (if stat_isDirectory E basePath
               then find (stat_isFile E) (map (\<lambda>ext. path_join [basePath, ''index'' @ ext]) IMPORT_EXTENSIONS)
               else None) of
           Some indexPath \<Rightarrow> Some indexPath
         | None \<Rightarrow>
             if path_extname basePath = []
             then find (stat_isFile E) (map (\<lambda>ext. basePath @ ext) IMPORT_EXTENSIONS)
             else None))"

text \<open>\<open>resolveImport\<close>: \<open>None\<close> stands for the result \<open>null\<close>.\<close>

definition resolveImport :: "server_env \<Rightarrow> string \<Rightarrow> string \<Rightarrow> string \<Rightarrow> resolution option" where
  "resolveImport E root fromFile specifier =
     (if specifier = [] \<or> startsWith specifier ''http'' then None
      else
        let cleanSpecifier = split_first (CHR ''#'') (split_first (CHR ''?'') specifier)
        in if \<not> (startsWith cleanSpecifier ''@/'' \<or> startsWith cleanSpecifier ''/''
                  \<or> startsWith cleanSpecifier ''.'')
           then Some External
           else
             let targetPath =
                   (if startsWith cleanSpecifier ''@/'' then path_join [root, drop 2 cleanSpecifier]
                    else if startsWith cleanSpecifier ''/'' then path_join [root, drop 1 cleanSpecifier]
                    else path_resolve (v_cwd E) [path_dirname fromFile, cleanSpecifier])
             in case resolveWithExtensions E targetPath of
                  None \<Rightarrow> Some External
                | Some resolved \<Rightarrow>
                    if \<not> startsWith resolved root then Some External else Some (Resolved resolved))"

subsection \<open>In the browser\<close>

definition browser_resolveWithExtensions :: "string \<Rightarrow> string list \<Rightarrow> string list \<Rightarrow> string option" where
  "browser_resolveWithExtensions basePath fileSet dirSet =
     (if basePath = [] then None
      else if basePath \<in> set fileSet then Some basePath
      else
        (case (if basePath \<in> set dirSet
               then find (\<lambda>q. q \<in> set fileSet)
                      (map (\<lambda>ext. posixJoin [basePath, ''index'' @ ext]) IMPORT_EXTENSIONS)
               else None) of
           Some indexPath \<Rightarrow> Some indexPath
         | None \<Rightarrow>
             if posixExtname basePath = []
             then find (\<lambda>q. q \<in> set fileSet) (map (\<lambda>ext. basePath @ ext) IMPORT_EXTENSIONS)
             else None))"

definition browser_resolveImport ::
  "string \<Rightarrow> string \<Rightarrow> string list \<Rightarrow> string list \<Rightarrow> resolution option" where
  "browser_resolveImport fromFile specifier fileSet dirSet =
     (if specifier = [] \<or> startsWith specifier ''http'' then None
      else
        let cleanSpecifier = split_first (CHR ''#'') (split_first (CHR ''?'') specifier)
        in if \<not> (startsWith cleanSpecifier ''@/'' \<or> startsWith cleanSpecifier ''/''
                  \<or> startsWith cleanSpecifier ''.'')
           then Some External
           else
             let (targetPath, escapedRoot) =
                   (if startsWith cleanSpecifier ''@/'' then normalizePosixPath (drop 2 cleanSpecifier)
                    else if startsWith cleanSpecifier ''/'' then normalizePosixPath (drop 1 cleanSpecifier)
                    else normalizePosixPath (posixJoin [posixDirname fromFile, cleanSpecifier]))
             in if targetPath = [] \<or> escapedRoot then Some External
                else case browser_resolveWithExtensions targetPath fileSet dirSet of
                       None \<Rightarrow> Some External
                     | Some resolved \<Rightarrow> Some (Resolved resolved))"

section \<open>Graph assembly\<close>

text \<open>
  The state of the passes over the scanned files: the map \<open>nodes\<close> in insertion order, the
  edges, the keys in \<open>edgeKeys\<close> in the order they were added, the symbol tables and the
  count of external references.
\<close>

record scan_state =
  nodes :: "(string \<times> GraphNode) list"
  edges :: "GraphEdge list"
  edgeKeys :: "string list"
  symbolMap :: "string \<rightharpoonup> (string \<rightharpoonup> SymbolInfo)"
  externalCount :: nat

text \<open>A scanned file: its root-relative path, the path the scanner hands to the extractors
  and to the resolver, and its text (\<open>None\<close> when it cannot be read).\<close>

record source_file =
  f_relPath :: string
  f_path :: string
  f_code :: "string option"

definition has_node :: "string \<Rightarrow> scan_state \<Rightarrow> bool" where
  "has_node k st = (map_of (nodes st) k \<noteq> None)"

definition set_node :: "string \<Rightarrow> GraphNode \<Rightarrow> scan_state \<Rightarrow> scan_state" where
  "set_node k n st = st\<lparr>nodes := AList.update k n (nodes st)\<rparr>"

text \<open>\<open>edgeKeys.add(key); edges.push({id: hashId(key), ...})\<close>.\<close>

definition push_edge ::
  "'a scanner_scheme \<Rightarrow> string \<Rightarrow> string \<Rightarrow> string \<Rightarrow> EdgeType \<Rightarrow> string option \<Rightarrow>
   (nat \<times> nat) option \<Rightarrow> scan_state \<Rightarrow> scan_state" where
  "push_edge S key src tgt t stmt l st =
     st\<lparr>edgeKeys := edgeKeys st @ [key],
        edges := edges st @
          [\<lparr>e_id = s_hashId S key, e_source = src, e_target = tgt, e_type = t, e_statement = stmt,
            e_loc = l\<rparr>]\<rparr>"

definition external_node :: GraphNode where
  "external_node =
     \<lparr>n_id = ''__external__'', n_path = ''__external__'', n_label = ''External'',
      n_type = ExternalNode, n_ignored = None, n_symbolKind = None, n_parent = None,
      n_displayName = None\<rparr>"

definition symbol_node :: "string \<Rightarrow> SymbolInfo \<Rightarrow> GraphNode" where
  "symbol_node relPath info =
     \<lparr>n_id = relPath @ ''::'' @ y_name info, n_path = relPath @ ''#'' @ y_name info,
      n_label = y_name info, n_type = SymbolNode, n_ignored = None,
      n_symbolKind = Some (y_kind info), n_parent = Some relPath,
      n_displayName = y_displayName info\<rparr>"

subsection \<open>The symbol pass\<close>

definition add_symbol ::
  "'a scanner_scheme \<Rightarrow> string \<Rightarrow> SymbolInfo \<Rightarrow> (string \<rightharpoonup> SymbolInfo) \<times> scan_state \<Rightarrow>
   (string \<rightharpoonup> SymbolInfo) \<times> scan_state" where
  "add_symbol S relPath info acc =
     (case acc of (entry, st) \<Rightarrow>
        let symbolId = relPath @ ''::'' @ y_name info;
            st1 = (if \<not> has_node symbolId st then set_node symbolId (symbol_node relPath info) st
                   else st);
            containsKey = relPath @ ''|'' @ symbolId @ ''|contains''
        in (entry(y_name info \<mapsto> info),
            if containsKey \<notin> set (edgeKeys st1)
            then push_edge S containsKey relPath symbolId ContainsEdge None None st1
            else st1))"

definition collect_symbols :: "'a scanner_scheme \<Rightarrow> source_file \<Rightarrow> scan_state \<Rightarrow> scan_state" where
  "collect_symbols S file st =
     (case f_code file of
        None \<Rightarrow> st
      | Some code \<Rightarrow>
          if code = [] then st
          else
            let symbols = extractSymbols S (f_path file) code
            in if symbols = [] then st
               else case fold (add_symbol S (f_relPath file)) symbols (Map.empty, st) of
                      (entry, st') \<Rightarrow> st'\<lparr>symbolMap := (symbolMap st')(f_relPath file \<mapsto> entry)\<rparr>)"

subsection \<open>The dependency pass\<close>

definition statement_text :: "Dependency \<Rightarrow> string" where
  "statement_text dep = (case d_statement dep of None \<Rightarrow> [] | Some s \<Rightarrow> s)"

definition truncated_statement :: "Dependency \<Rightarrow> string option" where
  "truncated_statement dep = map_option (\<lambda>s. slice s 0 200) (d_statement dep)"

definition edge_key :: "string \<Rightarrow> string \<Rightarrow> EdgeType \<Rightarrow> string \<Rightarrow> string" where
  "edge_key src tgt t text = src @ ''|'' @ tgt @ ''|'' @ edge_type_name t @ ''|'' @ text"

text \<open>One import binding of a dependency that resolved to \<open>targetRel\<close>: the state and the
  flag \<open>createdSymbolEdge\<close>.\<close>

definition symbol_edge ::
  "'a scanner_scheme \<Rightarrow> string \<Rightarrow> string \<Rightarrow> (string \<rightharpoonup> SymbolInfo) \<Rightarrow> Dependency \<Rightarrow>
   ImportBinding \<Rightarrow> scan_state \<times> bool \<Rightarrow> scan_state \<times> bool" where
  "symbol_edge S relPath targetRel targetSymbols dep binding acc =
     (case acc of (st, createdSymbolEdge) \<Rightarrow>
        if b_kind binding = NamespaceBinding then (st, createdSymbolEdge)
        else
          let importName = (if b_kind binding = DefaultBinding then ''default'' else b_imported binding)
          in case targetSymbols importName of
               None \<Rightarrow> (st, createdSymbolEdge)
             | Some info \<Rightarrow>
                 let symbolId = targetRel @ ''::'' @ importName;
                     edgeKey = edge_key relPath symbolId (d_type dep) (statement_text dep)
                 in if edgeKey \<in> set (edgeKeys st) then (st, createdSymbolEdge)
                    else (push_edge S edgeKey relPath symbolId (d_type dep) (truncated_statement dep)
                            (d_loc dep) st, True))"

definition file_edge :: "'a scanner_scheme \<Rightarrow> string \<Rightarrow> string \<Rightarrow> Dependency \<Rightarrow> scan_state \<Rightarrow> scan_state" where
  "file_edge S relPath targetRel dep st =
     (let edgeType = (if p_extname S targetRel \<in> set STYLE_EXTENSIONS then StyleEdge else d_type dep);
          edgeKey = edge_key relPath targetRel edgeType (statement_text dep)
      in if edgeKey \<in> set (edgeKeys st) then st
         else push_edge S edgeKey relPath targetRel edgeType (truncated_statement dep) (d_loc dep) st)"

definition external_edge :: "'a scanner_scheme \<Rightarrow> string \<Rightarrow> Dependency \<Rightarrow> scan_state \<Rightarrow> scan_state" where
  "external_edge S relPath dep st =
     (let st1 = (if \<not> has_node ''__external__'' st then set_node ''__external__'' external_node st
                 else st);
          edgeKey = edge_key relPath ''__external__'' ExternalEdge (d_specifier dep)
      in if edgeKey \<in> set (edgeKeys st1) then st1
         else push_edge S edgeKey relPath ''__external__'' ExternalEdge (d_statement dep) (d_loc dep) st1)"

text \<open>The body of the loop over the dependencies of one file. \<open>resolved\<close> is \<open>None\<close> where
  the loop goes on to the next dependency before anything is counted (\<open>resolveImport\<close> gave
  \<open>null\<close>, or a result that is not external and holds no path), \<open>External\<close> for an external
  result and otherwise the root-relative path \<open>targetRel\<close>.\<close>

definition process_dep ::
  "'a scanner_scheme \<Rightarrow> bool \<Rightarrow> ScanGranularity \<Rightarrow> string \<Rightarrow> resolution option \<Rightarrow> Dependency \<Rightarrow>
   scan_state \<Rightarrow> scan_state" where
  "process_dep S includeExternal granularity relPath resolved dep st =
     (case resolved of
        None \<Rightarrow> st
      | Some External \<Rightarrow>
          (let st1 = st\<lparr>externalCount := externalCount st + 1\<rparr>
           in if \<not> includeExternal then st1 else external_edge S relPath dep st1)
      | Some (Resolved targetRel) \<Rightarrow>
          (let st1 = (if \<not> has_node targetRel st then set_node targetRel (file_node S targetRel) st
                      else st)
           in case (if granularity = SymbolGranularity then d_imports dep else None) of
                Some (b # bs) \<Rightarrow>
                  (case (case symbolMap st1 targetRel of
                           None \<Rightarrow> (st1, False)
                         | Some targetSymbols \<Rightarrow>
                             fold (symbol_edge S relPath targetRel targetSymbols dep) (b # bs)
                               (st1, False)) of
                     (st2, createdSymbolEdge) \<Rightarrow>
                       if createdSymbolEdge then st2 else file_edge S relPath targetRel dep st2)
              | _ \<Rightarrow> file_edge S relPath targetRel dep st1))"

definition process_file ::
  "'a scanner_scheme \<Rightarrow> (string \<Rightarrow> string \<Rightarrow> resolution option) \<Rightarrow> bool \<Rightarrow> ScanGranularity \<Rightarrow>
   source_file \<Rightarrow> scan_state \<Rightarrow> scan_state" where
  "process_file S resolve includeExternal granularity file st =
     (case f_code file of
        None \<Rightarrow> st
      | Some code \<Rightarrow>
          if code = [] then st
          else fold (\<lambda>dep. process_dep S includeExternal granularity (f_relPath file)
                       (resolve (f_path file) (d_specifier dep)) dep)
                 (extractDependencies S (f_path file) code) st)"


definition scanned_dependencies :: "'a scanner_scheme \<Rightarrow> source_file \<Rightarrow> Dependency list" where
  "scanned_dependencies S file =
     (case f_code file of
        None \<Rightarrow> []
      | Some code \<Rightarrow> if code = [] then [] else extractDependencies S (f_path file) code)"

text \<open>The passes after the walk: the ignored nodes are entered, then, in symbol mode, the
  symbols of every file, then the dependencies of every file.\<close>

definition assemble ::
  "'a scanner_scheme \<Rightarrow> (string \<Rightarrow> string \<Rightarrow> resolution option) \<Rightarrow> bool \<Rightarrow> ScanGranularity \<Rightarrow>
   source_file list \<Rightarrow> walk_state \<Rightarrow> scan_state" where
  "assemble S resolve includeExternal granularity files w =
     (let st0 = \<lparr>nodes = fold (\<lambda>ignoredNode. AList.update (n_id ignoredNode) ignoredNode)
                            (w_ignoredNodes w) (w_nodes w),
                 edges = [], edgeKeys = [], symbolMap = Map.empty, externalCount = 0\<rparr>;
          st1 = (if granularity = SymbolGranularity then fold (collect_symbols S) files st0 else st0)
      in fold (process_file S resolve includeExternal granularity) files st1)"

definition graph_of :: "string \<Rightarrow> walk_state \<Rightarrow> scan_state \<Rightarrow> GraphData" where
  "graph_of root w st =
     \<lparr>g_root = root, g_nodes = map snd (nodes st), g_edges = edges st,
      g_totalFiles = w_totalFiles w, g_ignoredCount = w_ignoredCount w,
      g_externalCount = externalCount st\<rparr>"

section \<open>The entry points\<close>

text \<open>What the server's dependency loop makes of \<open>resolveImport\<close>: a resolved path becomes
  the path relative to the root.\<close>

definition server_resolve :: "server_env \<Rightarrow> string \<Rightarrow> string \<Rightarrow> string \<Rightarrow> resolution option" where
  "server_resolve E root fromFile specifier =
     (case resolveImport E root fromFile specifier of
        Some (Resolved resolved) \<Rightarrow>
          if resolved = [] then None else Some (Resolved (path_relative (v_cwd E) root resolved))
      | r \<Rightarrow> r)"

definition server_files :: "server_env \<Rightarrow> string \<Rightarrow> string list \<Rightarrow> source_file list" where
  "server_files E root filesToParse =
     map (\<lambda>fullPath. \<lparr>f_relPath = path_relative (v_cwd E) root fullPath, f_path = fullPath,
                      f_code = fs_readFile E fullPath\<rparr>) filesToParse"

definition scanProject :: "scanner \<Rightarrow> server_env \<Rightarrow> ScanOptions \<Rightarrow> js_error + GraphData" where
  "scanProject S E options =
     (let root = path_resolve (v_cwd E) [o_root options]
      in case fs_stat E root of
           Some (Dir entries) \<Rightarrow>
             (case server_walk S (v_cwd E) root (o_maxFiles options) root ALWAYS_IGNORE entries
                     start_walk of
                Inl e \<Rightarrow> Inl e
              | Inr w \<Rightarrow>
                  Inr (graph_of root w
                         (assemble S (server_resolve E root) (o_includeExternal options)
                            (granularity_or_file (o_granularity options))
                            (server_files E root (w_filesToParse w)) w)))
         | _ \<Rightarrow> Inl (Error not_readable_message))"

text \<open>The walk that \<open>scanProject\<close> makes before it assembles the graph, on its own.\<close>

definition project_walk :: "scanner \<Rightarrow> server_env \<Rightarrow> ScanOptions \<Rightarrow> js_error + walk_state" where
  "project_walk S E options =
     (let root = path_resolve (v_cwd E) [o_root options]
      in case fs_stat E root of
           Some (Dir entries) \<Rightarrow>
             server_walk S (v_cwd E) root (o_maxFiles options) root ALWAYS_IGNORE entries start_walk
         | _ \<Rightarrow> Inl (Error not_readable_message))"

text \<open>The files that \<open>scanProject\<close> hands to the two passes: none where the walk fails.\<close>

definition project_files :: "scanner \<Rightarrow> server_env \<Rightarrow> ScanOptions \<Rightarrow> source_file list" where
  "project_files S E options =
     (case project_walk S E options of
        Inl e \<Rightarrow> []
      | Inr w \<Rightarrow> server_files E (path_resolve (v_cwd E) [o_root options]) (w_filesToParse w))"

definition handle_text :: "fsnode \<Rightarrow> string option" where
  "handle_text h = (case h of File c \<Rightarrow> c | Dir es \<Rightarrow> None)"

definition browser_files :: "(string \<times> fsnode) list \<Rightarrow> source_file list" where
  "browser_files fileHandles =
     map (\<lambda>(relPath, handle). \<lparr>f_relPath = relPath, f_path = relPath, f_code = handle_text handle\<rparr>)
       fileHandles"

definition browser_resolve :: "string list \<Rightarrow> string list \<Rightarrow> string \<Rightarrow> string \<Rightarrow> resolution option" where
  "browser_resolve fileSet dirSet fromFile specifier =
     (case browser_resolveImport fromFile specifier fileSet dirSet of
        Some (Resolved resolved) \<Rightarrow> if resolved = [] then None else Some (Resolved resolved)
      | r \<Rightarrow> r)"

definition scanDirectoryHandle :: "scanner \<Rightarrow> BrowserScanOptions \<Rightarrow> js_error + GraphData" where
  "scanDirectoryHandle S options =
     (let rootLabel = (if o_rootName options \<noteq> [] then o_rootName options else ''Selected folder'')
      in case browser_walk S (o_browserMaxFiles options) [] ALWAYS_IGNORE (o_rootHandle options)
                (start_walk\<lparr>w_dirSet := [[]]\<rparr>) of
           Inl e \<Rightarrow> Inl e
         | Inr w \<Rightarrow>
             Inr (graph_of rootLabel w
                    (assemble S (browser_resolve (map fst (w_fileHandles w)) (w_dirSet w))
                       (o_browserIncludeExternal options)
                       (granularity_or_file (o_browserGranularity options))
                       (browser_files (w_fileHandles w)) w)))"

section \<open>The scan at one dependency\<close>

text \<open>
  The state in which \<open>assemble\<close> starts, the state after the symbol pass, and the body of the
  loop over the dependencies of a file, as \<open>process_file\<close> calls it.
\<close>

definition start_state :: "walk_state \<Rightarrow> scan_state" where
  "start_state w =
     \<lparr>nodes = fold (\<lambda>ignoredNode. AList.update (n_id ignoredNode) ignoredNode)
                (w_ignoredNodes w) (w_nodes w),
      edges = [], edgeKeys = [], symbolMap = Map.empty, externalCount = 0\<rparr>"

definition symbol_pass ::
  "'a scanner_scheme \<Rightarrow> ScanGranularity \<Rightarrow> source_file list \<Rightarrow> walk_state \<Rightarrow> scan_state" where
  "symbol_pass S granularity files w =
     (if granularity = SymbolGranularity then fold (collect_symbols S) files (start_state w)
      else start_state w)"

definition dependency_step ::
  "'a scanner_scheme \<Rightarrow> (string \<Rightarrow> string \<Rightarrow> resolution option) \<Rightarrow> bool \<Rightarrow> ScanGranularity \<Rightarrow>
   source_file \<Rightarrow> Dependency \<Rightarrow> scan_state \<Rightarrow> scan_state" where
  "dependency_step S resolve includeExternal granularity file dep st =
     process_dep S includeExternal granularity (f_relPath file)
       (resolve (f_path file) (d_specifier dep)) dep st"

text \<open>
  The state of the scan when the dependency pass reaches dependency number \<open>j\<close> of file number
  \<open>i\<close> (both counted from 0): the symbol pass is over, the files before \<open>i\<close> are done, and so
  are the dependencies of file \<open>i\<close> before \<open>j\<close>.
\<close>

definition pass_state ::
  "'a scanner_scheme \<Rightarrow> (string \<Rightarrow> string \<Rightarrow> resolution option) \<Rightarrow> bool \<Rightarrow> ScanGranularity \<Rightarrow>
   source_file list \<Rightarrow> walk_state \<Rightarrow> nat \<Rightarrow> nat \<Rightarrow> scan_state" where
  "pass_state S resolve includeExternal granularity files w i j =
     fold (dependency_step S resolve includeExternal granularity (files ! i))
       (take j (scanned_dependencies S (files ! i)))
       (fold (process_file S resolve includeExternal granularity) (take i files)
          (symbol_pass S granularity files w))"






definition file_edge_type :: "'a scanner_scheme \<Rightarrow> string \<Rightarrow> Dependency \<Rightarrow> EdgeType" where
  "file_edge_type S targetRel dep =
     (if p_extname S targetRel \<in> set STYLE_EXTENSIONS then StyleEdge else d_type dep)"

definition file_edge_key :: "'a scanner_scheme \<Rightarrow> string \<Rightarrow> string \<Rightarrow> Dependency \<Rightarrow> string" where
  "file_edge_key S relPath targetRel dep =
     edge_key relPath targetRel (file_edge_type S targetRel dep) (statement_text dep)"

definition file_level_edge ::
  "'a scanner_scheme \<Rightarrow> string \<Rightarrow> string \<Rightarrow> Dependency \<Rightarrow> GraphEdge" where
  "file_level_edge S relPath targetRel dep =
     \<lparr>e_id = s_hashId S (file_edge_key S relPath targetRel dep), e_source = relPath,
      e_target = targetRel, e_type = file_edge_type S targetRel dep,
      e_statement = truncated_statement dep, e_loc = d_loc dep\<rparr>"

text \<open>The same for \<open>scanProject\<close>: the state when its dependency pass reaches dependency
  number \<open>j\<close> of file number \<open>i\<close>, and the body of its loop over the dependencies of a file.\<close>

definition project_pass_state ::
  "scanner \<Rightarrow> server_env \<Rightarrow> ScanOptions \<Rightarrow> nat \<Rightarrow> nat \<Rightarrow> scan_state" where
  "project_pass_state S E options i j =
     (let root = path_resolve (v_cwd E) [o_root options]
      in case project_walk S E options of
           Inl e \<Rightarrow> start_state start_walk
         | Inr w \<Rightarrow>
             pass_state S (server_resolve E root) (o_includeExternal options)
               (granularity_or_file (o_granularity options))
               (server_files E root (w_filesToParse w)) w i j)"

definition project_step ::
  "scanner \<Rightarrow> server_env \<Rightarrow> ScanOptions \<Rightarrow> source_file \<Rightarrow> Dependency \<Rightarrow> scan_state \<Rightarrow> scan_state" where
  "project_step S E options file dep st =
     dependency_step S (server_resolve E (path_resolve (v_cwd E) [o_root options]))
       (o_includeExternal options) (granularity_or_file (o_granularity options)) file dep st"

section \<open>The number of files a traversal meets, stated apart from the walk\<close>

text \<open>
  The count of the entries that are not ignored and are not directories, over the root and
  every directory below it that is not ignored itself: what the counter \<open>totalFiles\<close> of a
  traversal without a limit ends at.
\<close>

function server_count_files ::
  "'a scanner_scheme \<Rightarrow> string \<Rightarrow> string \<Rightarrow> string \<Rightarrow> string list \<Rightarrow> (string \<times> fsnode) list \<Rightarrow> nat" where
  "server_count_files S cwd root dir combinedPatterns [] = 0"
| "server_count_files S cwd root dir combinedPatterns ((name, entry) # rest) =
     (let fullPath = path_join [dir, name];
          relPath = path_relative cwd root fullPath
      in if relPath = [] \<or> s_ignores S combinedPatterns relPath
         then server_count_files S cwd root dir combinedPatterns rest
         else
           (case entry of
              Dir es \<Rightarrow>
                server_count_files S cwd root fullPath
                  (combined_patterns S (path_relative cwd root fullPath) combinedPatterns es) es
                + server_count_files S cwd root dir combinedPatterns rest
            | File c \<Rightarrow> 1 + server_count_files S cwd root dir combinedPatterns rest))"
  by pat_completeness auto
termination
  by (relation "measure (\<lambda>(S, cwd, root, dir, pats, entries).
        size_list (size_prod (\<lambda>name. 0) size) entries)") auto

definition scan_file_count :: "scanner \<Rightarrow> server_env \<Rightarrow> string \<Rightarrow> nat" where
  "scan_file_count S E rootOption =
     (let root = path_resolve (v_cwd E) [rootOption]
      in case fs_stat E root of
           Some (Dir entries) \<Rightarrow>
             server_count_files S (v_cwd E) root root
               (combined_patterns S (path_relative (v_cwd E) root root) ALWAYS_IGNORE entries) entries
         | _ \<Rightarrow> 0)"

section \<open>Well-formed node maps\<close>

text \<open>The keys of the map \<open>nodes\<close> are pairwise distinct, and every node is stored under its
  own id.\<close>

definition nodes_ok :: "(string \<times> GraphNode) list \<Rightarrow> bool" where
  "nodes_ok ns = (distinct (map fst ns) \<and> list_all (\<lambda>(k, n). n_id n = k) ns)"

text \<open>The external sentinel: the node with id \<open>__external__\<close> and type \<open>external\<close>.\<close>

definition is_sentinel :: "GraphNode \<Rightarrow> bool" where
  "is_sentinel n = (n_type n = ExternalNode \<and> n_id n = ''__external__'')"

section \<open>Edges and their recorded keys\<close>

text \<open>The dependencies of a scan, each with the root-relative path of the file that holds it.\<close>

definition scan_dependencies ::
  "'a scanner_scheme \<Rightarrow> source_file list \<Rightarrow> (string \<times> Dependency) list" where
  "scan_dependencies S files =
     concat (map (\<lambda>file. map (Pair (f_relPath file)) (scanned_dependencies S file)) files)"

text \<open>
  What ties an edge to the key that was recorded for it: the id is the hash of the key. The key
  of a contains edge is \<open>source|target|contains\<close>. Every other edge comes from a dependency
  \<open>dep\<close> of its source file, whose position it stores: an external edge has the key
  \<open>source|__external__|external|specifier\<close> with the specifier of \<open>dep\<close> and stores the
  statement of \<open>dep\<close>; an edge to a file or a symbol has the key \<open>source|target|type|statement\<close>
  with the whole statement of \<open>dep\<close>, of which it stores the first 200 characters, and its type
  is the type of \<open>dep\<close> or \<open>style\<close>.
\<close>

definition edge_keyed ::
  "'a scanner_scheme \<Rightarrow> (string \<times> Dependency) list \<Rightarrow> GraphEdge \<Rightarrow> string \<Rightarrow> bool" where
  "edge_keyed S deps e k =
     (e_id e = s_hashId S k \<and>
      (e_type e = ContainsEdge \<and> e_statement e = None \<and> e_loc e = None \<and>
       k = e_source e @ ''|'' @ e_target e @ ''|contains'' \<or>
       (\<exists>dep. (e_source e, dep) \<in> set deps \<and> e_loc e = d_loc dep \<and>
          (e_type e = ExternalEdge \<and> e_target e = ''__external__'' \<and>
           e_statement e = d_statement dep \<and>
           k = edge_key (e_source e) ''__external__'' ExternalEdge (d_specifier dep) \<or>
           (e_type e = d_type dep \<or> e_type e = StyleEdge) \<and>
           e_statement e = truncated_statement dep \<and>
           k = edge_key (e_source e) (e_target e) (e_type e) (statement_text dep)))))"

definition edges_keyed :: "'a scanner_scheme \<Rightarrow> (string \<times> Dependency) list \<Rightarrow> scan_state \<Rightarrow> bool" where
  "edges_keyed S deps st =
     (distinct (edgeKeys st) \<and> list_all2 (edge_keyed S deps) (edges st) (edgeKeys st))"

section \<open>Two runs that differ in \<open>includeExternal\<close>\<close>

abbreviation BAR :: char where "BAR \<equiv> CHR ''|''"

text \<open>The keys of the external edges that the files with the root-relative paths \<open>rels\<close> can
  record.\<close>

definition external_keys :: "string set \<Rightarrow> string set" where
  "external_keys rels =
     {k. \<exists>rel \<in> rels. \<exists>spec. k = edge_key rel ''__external__'' ExternalEdge spec}"

text \<open>
  How the state of the run that shows external references (\<open>shown\<close>) relates to the state of
  the run that hides them (\<open>hidden\<close>) at the same point of the pass: the hidden run lacks the
  sentinel node, the external edges and their keys, and nothing else.
\<close>

definition shown_hidden :: "string set \<Rightarrow> scan_state \<Rightarrow> scan_state \<Rightarrow> bool" where
  "shown_hidden rels shown hidden =
     (nodes hidden = filter (\<lambda>(k, n). k \<noteq> ''__external__'') (nodes shown) \<and>
      edges hidden = filter (\<lambda>e. e_type e \<noteq> ExternalEdge) (edges shown) \<and>
      edgeKeys hidden = filter (\<lambda>k. k \<notin> external_keys rels) (edgeKeys shown) \<and>
      symbolMap hidden = symbolMap shown \<and> externalCount hidden = externalCount shown)"

text \<open>What keeps the names of a scan apart: no root-relative path of a scanned file holds the
  separator \<open>|\<close> of the keys, and no dependency of a file resolves to a path that holds it or
  that is the sentinel's id.\<close>

definition names_apart ::
  "'a scanner_scheme \<Rightarrow> (string \<Rightarrow> string \<Rightarrow> resolution option) \<Rightarrow> source_file list \<Rightarrow> bool" where
  "names_apart S resolve files =
     (\<forall>file \<in> set files. BAR \<notin> set (f_relPath file) \<and>
        (\<forall>dep \<in> set (scanned_dependencies S file).
           case resolve (f_path file) (d_specifier dep) of
             Some (Resolved targetRel) \<Rightarrow> targetRel \<noteq> ''__external__'' \<and> BAR \<notin> set targetRel
           | _ \<Rightarrow> True))"

text \<open>A project whose scan keeps the names apart: the walk succeeds, it enters no node under
  the sentinel's id, and the files it hands to the parser satisfy \<open>names_apart\<close>.\<close>

definition kept_apart :: "scanner \<Rightarrow> server_env \<Rightarrow> ScanOptions \<Rightarrow> bool" where
  "kept_apart S E options =
     (let root = path_resolve (v_cwd E) [o_root options]
      in case project_walk S E options of
           Inl e \<Rightarrow> False
         | Inr w \<Rightarrow>
             ''__external__'' \<notin> set (map fst (w_nodes w)) \<and>
             ''__external__'' \<notin> set (map n_id (w_ignoredNodes w)) \<and>
             names_apart S (server_resolve E root) (server_files E root (w_filesToParse w)))"

section \<open>Example inputs\<close>

text \<open>A parser given by a table from source text to the visited nodes.\<close>

definition table_parser :: "(string \<times> ast_node list) list \<Rightarrow> string \<Rightarrow> ast_node list option" where
  "table_parser table = map_of table"

text \<open>The text \<open>require('a', b)\<close> and the nodes visited in its tree: the program, the
  expression statement, the call, its callee and its two arguments.\<close>

definition call_code :: string where
  "call_code = ''require('' @ [CHR 0x27, CHR ''a'', CHR 0x27] @ '', b)''"

definition call_ast :: "ast_node list" where
  "call_ast =
     [OtherNode, OtherNode,
      CallExpression (Identifier ''require'') [StringLiteral ''a'', OtherExpression]
        \<lparr>s_start = Some 0, s_end = Some 15, s_loc = Some (1, 0)\<rparr>,
      OtherNode, OtherNode, OtherNode]"

definition call_scanner :: scanner where
  "call_scanner = server_scanner (table_parser [(call_code, call_ast)]) (\<lambda>patterns relPath. False) id"

text \<open>
  A matcher for ignore patterns of three shapes, without wild cards inside a name and without
  negation: \<open>**/name\<close> and \<open>name\<close> match a path that has a part called \<open>name\<close>, and \<open>name/\<close>
  matches a path below a directory called \<open>name\<close>.
\<close>

definition simple_ignores :: "string list \<Rightarrow> string \<Rightarrow> bool" where
  "simple_ignores patterns relPath =
     (\<exists>pat \<in> set patterns.
        if startsWith pat ''**/'' then drop 3 pat \<in> set (split_chr SLASH relPath)
        else if endsWith pat ''/'' then butlast pat \<in> set (butlast (split_chr SLASH relPath))
        else pat \<in> set (split_chr SLASH relPath))"

text \<open>
  The scenario of a root \<open>/repo\<close> with \<open>a.ts\<close> holding \<open>import './b'\<close>, \<open>b.ts\<close> holding
  \<open>export const x = 1\<close> and a \<open>.gitignore\<close> holding \<open>b.ts\<close>.
\<close>

definition import_b_code :: string where
  "import_b_code = ''import '' @ [CHR 0x27] @ ''./b'' @ [CHR 0x27]"

definition import_b_ast :: "ast_node list" where
  "import_b_ast =
     [OtherNode,
      ImportDeclaration ''./b'' [] \<lparr>s_start = Some 0, s_end = Some 12, s_loc = Some (1, 0)\<rparr>,
      OtherNode]"

definition export_x_code :: string where
  "export_x_code = ''export const x = 1''"

definition export_x_ast :: "ast_node list" where
  "export_x_ast =
     [OtherNode,
      ExportNamedDeclaration (Some (VariableDeclaration ''const'' [IdentifierPattern ''x''])) [] None
        \<lparr>s_start = Some 0, s_end = Some 18, s_loc = Some (1, 0)\<rparr>,
      Declaration (VariableDeclaration ''const'' [IdentifierPattern ''x'']) False,
      OtherNode, OtherNode, OtherNode]"

definition scenario_parser :: "string \<Rightarrow> ast_node list option" where
  "scenario_parser = table_parser [(import_b_code, import_b_ast), (export_x_code, export_x_ast)]"

definition scenario_entries :: "(string \<times> fsnode) list" where
  "scenario_entries =
     [(''.gitignore'', File (Some ''b.ts'')), (''a.ts'', File (Some import_b_code)),
      (''b.ts'', File (Some export_x_code))]"

definition scenario_env :: server_env where
  "scenario_env = \<lparr>v_fs = Dir [(''repo'', Dir scenario_entries)], v_cwd = ''/''\<rparr>"

definition default_options :: "string \<Rightarrow> ScanOptions" where
  "default_options root =
     \<lparr>o_root = root, o_maxFiles = 5000, o_includeExternal = False, o_granularity = Some FileGranularity\<rparr>"

definition default_browser_options :: "string \<Rightarrow> (string \<times> fsnode) list \<Rightarrow> BrowserScanOptions" where
  "default_browser_options name entries =
     \<lparr>o_rootName = name, o_rootHandle = entries, o_browserMaxFiles = 5000,
      o_browserIncludeExternal = False, o_browserGranularity = None\<rparr>"

text \<open>A root with four script files, and a root with no entry at all.\<close>

definition four_files_env :: server_env where
  "four_files_env =
     \<lparr>v_fs = Dir [(''repo'', Dir [(''a.ts'', File (Some [])), (''b.ts'', File (Some [])),
                                  (''c.ts'', File (Some [])), (''d.ts'', File (Some []))])],
      v_cwd = ''/''\<rparr>"

definition empty_root_env :: server_env where
  "empty_root_env = \<lparr>v_fs = Dir [(''repo'', Dir [])], v_cwd = ''/''\<rparr>"

text \<open>The server-side scanner of the examples. No example depends on the digest, so the
  in-browser \<open>hashId\<close> stands for SHA-1.\<close>

definition example_scanner :: scanner where
  "example_scanner = server_scanner scenario_parser simple_ignores hashId"

text \<open>
  A root \<open>/work/app\<close> beside a directory \<open>/work/app2\<close>: the file \<open>a.ts\<close> of the root holds
  \<open>import '../app2/x'\<close>, and \<open>/work/app2/x.ts\<close> exists.
\<close>

definition sibling_code :: string where
  "sibling_code = ''import '' @ [CHR 0x27] @ ''../app2/x'' @ [CHR 0x27]"

definition sibling_ast :: "ast_node list" where
  "sibling_ast =
     [OtherNode,
      ImportDeclaration ''../app2/x'' [] \<lparr>s_start = Some 0, s_end = Some 18, s_loc = Some (1, 0)\<rparr>,
      OtherNode]"

definition sibling_env :: server_env where
  "sibling_env =
     \<lparr>v_fs = Dir [(''work'', Dir [(''app'', Dir [(''a.ts'', File (Some sibling_code))]),
                                  (''app2'', Dir [(''x.ts'', File (Some export_x_code))])])],
      v_cwd = ''/''\<rparr>"

definition sibling_scanner :: scanner where
  "sibling_scanner =
     server_scanner (table_parser [(sibling_code, sibling_ast), (export_x_code, export_x_ast)])
       simple_ignores hashId"

text \<open>A root \<open>/repo\<close> whose directory \<open>a\<close> holds \<open>b.ts\<close>, the file \<open>x.ts\<close> and the directory \<open>x\<close>
  with an \<open>index.ts\<close>.\<close>

definition index_env :: server_env where
  "index_env =
     \<lparr>v_fs = Dir [(''repo'', Dir [(''a'', Dir [(''b.ts'', File (Some [])), (''x.ts'', File (Some [])),
                                               (''x'', Dir [(''index.ts'', File (Some []))])])])],
      v_cwd = ''/''\<rparr>"

text \<open>
  The symbol scenario: \<open>a.ts\<close> holds \<open>import { foo } from './b'\<close> and \<open>b.ts\<close> holds
  \<open>export function foo(){}\<close>.
\<close>

definition import_foo_code :: string where
  "import_foo_code = ''import { foo } from '' @ [CHR 0x27] @ ''./b'' @ [CHR 0x27]"

definition import_foo_ast :: "ast_node list" where
  "import_foo_ast =
     [OtherNode,
      ImportDeclaration ''./b'' [ImportSpecifier ''foo'' ''foo'']
        \<lparr>s_start = Some 0, s_end = Some 25, s_loc = Some (1, 0)\<rparr>,
      OtherNode, OtherNode, OtherNode, OtherNode]"

definition export_foo_code :: string where
  "export_foo_code = ''export function foo(){}''"

definition export_foo_ast :: "ast_node list" where
  "export_foo_ast =
     [OtherNode,
      ExportNamedDeclaration (Some (FunctionDeclaration (Some ''foo''))) [] None
        \<lparr>s_start = Some 0, s_end = Some 23, s_loc = Some (1, 0)\<rparr>,
      Declaration (FunctionDeclaration (Some ''foo'')) False,
      OtherNode, OtherNode]"

definition symbol_parser :: "string \<Rightarrow> ast_node list option" where
  "symbol_parser = table_parser [(import_foo_code, import_foo_ast), (export_foo_code, export_foo_ast)]"

definition symbol_env :: server_env where
  "symbol_env =
     \<lparr>v_fs = Dir [(''repo'', Dir [(''a.ts'', File (Some import_foo_code)),
                                  (''b.ts'', File (Some export_foo_code))])],
      v_cwd = ''/''\<rparr>"


definition foo_info :: SymbolInfo where
  "foo_info = symbol_of ''foo'' ''function''"

definition symbol_options :: ScanOptions where
  "symbol_options =
     \<lparr>o_root = ''/repo'', o_maxFiles = 5000, o_includeExternal = False,
      o_granularity = Some SymbolGranularity\<rparr>"













text \<open>
  Two imports of \<open>./b\<close> in one file that differ only in the white space behind the first 200
  characters: \<open>import\<close>, 200 or 201 blanks, and the specifier.
\<close>

definition long_import :: "nat \<Rightarrow> string" where
  "long_import n = ''import'' @ replicate n (CHR '' '') @ [CHR 0x27] @ ''./b'' @ [CHR 0x27]"

definition long_code :: string where
  "long_code = long_import 200 @ '';'' @ long_import 201"

definition long_ast :: "ast_node list" where
  "long_ast =
     [OtherNode,
      ImportDeclaration ''./b'' [] \<lparr>s_start = Some 0, s_end = Some 212, s_loc = Some (1, 0)\<rparr>,
      OtherNode,
      ImportDeclaration ''./b'' [] \<lparr>s_start = Some 212, s_end = Some 424, s_loc = Some (1, 212)\<rparr>,
      OtherNode]"

definition long_env :: server_env where
  "long_env =
     \<lparr>v_fs = Dir [(''repo'', Dir [(''a.ts'', File (Some long_code)),
                                  (''b.ts'', File (Some export_x_code))])],
      v_cwd = ''/''\<rparr>"

definition long_scanner :: scanner where
  "long_scanner =
     server_scanner (table_parser [(long_code, long_ast), (export_x_code, export_x_ast)])
       simple_ignores hashId"

text \<open>
  A root that holds a file called \<open>__external__\<close>, beside \<open>a.ts\<close> with the text
  \<open>import 'react';import './__external__'\<close>.
\<close>

definition sentinel_code :: string where
  "sentinel_code =
     ''import '' @ [CHR 0x27] @ ''react'' @ [CHR 0x27] @ '';import '' @ [CHR 0x27]
     @ ''./__external__'' @ [CHR 0x27]"

definition sentinel_ast :: "ast_node list" where
  "sentinel_ast =
     [OtherNode,
      ImportDeclaration ''react'' [] \<lparr>s_start = Some 0, s_end = Some 15, s_loc = Some (1, 0)\<rparr>,
      OtherNode,
      ImportDeclaration ''./__external__'' []
        \<lparr>s_start = Some 15, s_end = Some 38, s_loc = Some (1, 15)\<rparr>,
      OtherNode]"

definition sentinel_env :: server_env where
  "sentinel_env =
     \<lparr>v_fs = Dir [(''repo'', Dir [(''__external__'', File (Some ''data'')),
                                  (''a.ts'', File (Some sentinel_code))])],
      v_cwd = ''/''\<rparr>"

definition sentinel_scanner :: scanner where
  "sentinel_scanner = server_scanner (table_parser [(sentinel_code, sentinel_ast)]) simple_ignores hashId"

text \<open>
  A root that keeps the names apart: \<open>a.ts\<close> with the text \<open>import 'react';import './b'\<close>
  beside \<open>b.ts\<close> holding \<open>export const x = 1\<close>.
\<close>

definition mixed_code :: string where
  "mixed_code =
     ''import '' @ [CHR 0x27] @ ''react'' @ [CHR 0x27] @ '';import '' @ [CHR 0x27]
     @ ''./b'' @ [CHR 0x27]"

definition mixed_ast :: "ast_node list" where
  "mixed_ast =
     [OtherNode,
      ImportDeclaration ''react'' [] \<lparr>s_start = Some 0, s_end = Some 15, s_loc = Some (1, 0)\<rparr>,
      OtherNode,
      ImportDeclaration ''./b'' [] \<lparr>s_start = Some 15, s_end = Some 27, s_loc = Some (1, 15)\<rparr>,
      OtherNode]"

definition mixed_env :: server_env where
  "mixed_env =
     \<lparr>v_fs = Dir [(''repo'', Dir [(''a.ts'', File (Some mixed_code)),
                                  (''b.ts'', File (Some export_x_code))])],
      v_cwd = ''/''\<rparr>"

definition mixed_parser :: "string \<Rightarrow> ast_node list option" where
  "mixed_parser = table_parser [(mixed_code, mixed_ast), (export_x_code, export_x_ast)]"

definition mixed_scanner :: scanner where
  "mixed_scanner = server_scanner mixed_parser simple_ignores hashId"

section \<open>Node typing\<close>

lemma prefix_drop: "prefix xs ys \<Longrightarrow> ys = xs @ drop (length xs) ys"
  by (auto simp: prefix_def)

lemma suffix_take: "suffix xs ys \<Longrightarrow> ys = take (length ys - length xs) ys @ xs"
  by (auto simp: suffix_def)

lemma mem_segment_starts:
  "i \<in> set (segment_starts p) \<longleftrightarrow> i \<le> length p \<and> (i = 0 \<or> p ! (i - 1) = SLASH)"
proof -
  have "i \<in> set [0..<Suc (length p)] \<longleftrightarrow> i \<le> length p"
    by (simp only: set_upt atLeastLessThan_iff) auto
  then show ?thesis
    by (simp only: segment_starts_def set_filter mem_Collect_eq)
qed

lemma segment_start_take:
  assumes "i \<in> set (segment_starts p)"
  shows "take i p = [] \<or> last (take i p) = SLASH"
proof (cases "i = 0")
  case True then show ?thesis by simp
next
  case False
  with assms have "i \<le> length p" "p ! (i - 1) = SLASH" by (auto simp: mem_segment_starts)
  with False have "take i p \<noteq> []" "length (take i p) = i" by auto
  then have "last (take i p) = take i p ! (i - 1)" by (simp add: last_conv_nth)
  also have "\<dots> = p ! (i - 1)" using False by simp
  finally show ?thesis using \<open>p ! (i - 1) = SLASH\<close> by simp
qed

lemma segment_start_append:
  assumes "d = [] \<or> last d = SLASH"
  shows "length d \<in> set (segment_starts (d @ r))"
proof (cases "d = []")
  case True then show ?thesis by (simp add: mem_segment_starts)
next
  case False
  with assms have "last d = SLASH" by simp
  with False have "(d @ r) ! (length d - 1) = SLASH"
    by (simp add: nth_append last_conv_nth)
  then show ?thesis by (simp add: mem_segment_starts)
qed

lemma ROUTE_REGEX_pages_shape: "ROUTE_REGEX_pages p = pages_file_shape p"
proof
  assume "ROUTE_REGEX_pages p"
  then obtain i ext where i: "i \<in> set (segment_starts p)"
    and pre: "prefix ''pages/'' (drop i p)"
    and ext: "ext \<in> set route_exts"
    and suf: "suffix ext (drop (i + 6) p)"
    and m: "take (length (drop (i + 6) p) - length ext) (drop (i + 6) p) \<noteq> []"
           "no_line_terminator (take (length (drop (i + 6) p) - length ext) (drop (i + 6) p))"
    unfolding ROUTE_REGEX_pages_def startsWith_def endsWith_def Let_def by blast
  let ?r = "drop (i + 6) p"
  let ?m = "take (length ?r - length ext) ?r"
  have "drop i p = ''pages/'' @ drop 6 (drop i p)"
    using prefix_drop [OF pre] by simp
  then have "drop i p = ''pages/'' @ ?r" by (simp add: add.commute)
  moreover have "?r = ?m @ ext" using suffix_take [OF suf] .
  ultimately have "p = take i p @ ''pages/'' @ ?m @ ext"
    by (metis append_take_drop_id)
  with segment_start_take [OF i] m ext show "pages_file_shape p"
    unfolding pages_file_shape_def by blast
next
  assume "pages_file_shape p"
  then obtain d m ext where p: "p = d @ ''pages/'' @ m @ ext"
    and d: "d = [] \<or> last d = SLASH" and m: "m \<noteq> []" "no_line_terminator m"
    and ext: "ext \<in> set route_exts"
    unfolding pages_file_shape_def by blast
  have "length d \<in> set (segment_starts p)"
    unfolding p by (rule segment_start_append [OF d])
  moreover have "startsWith (drop (length d) p) ''pages/''"
    by (simp add: p startsWith_def)
  moreover have "drop (length d + 6) p = m @ ext" by (simp add: p)
  ultimately show "ROUTE_REGEX_pages p"
    unfolding ROUTE_REGEX_pages_def Let_def endsWith_def using m ext
    by (intro bexI [of _ "length d"] conjI bexI [of _ ext]) (auto simp: suffix_def)
qed

lemma ROUTE_REGEX_app_shape: "ROUTE_REGEX_app p = app_route_shape p"
proof
  assume "ROUTE_REGEX_app p"
  then obtain i name ext where i: "i \<in> set (segment_starts p)"
    and pre: "prefix ''app/'' (drop i p)"
    and name: "name \<in> {''page'', ''route''}"
    and ext: "ext \<in> set route_exts"
    and suf: "suffix (name @ ext) (drop (i + 4) p)"
    and m: "take (length (drop (i + 4) p) - length (name @ ext)) (drop (i + 4) p) = [] \<or>
            last (take (length (drop (i + 4) p) - length (name @ ext)) (drop (i + 4) p)) = SLASH \<and>
            no_line_terminator (take (length (drop (i + 4) p) - length (name @ ext)) (drop (i + 4) p))"
    unfolding ROUTE_REGEX_app_def startsWith_def endsWith_def Let_def by fastforce
  let ?r = "drop (i + 4) p"
  let ?m = "take (length ?r - length (name @ ext)) ?r"
  have "drop i p = ''app/'' @ drop 4 (drop i p)"
    using prefix_drop [OF pre] by simp
  then have "drop i p = ''app/'' @ ?r" by (simp add: add.commute)
  moreover have "?r = ?m @ name @ ext" using suffix_take [OF suf] by simp
  ultimately have "p = take i p @ ''app/'' @ ?m @ name @ ext"
    by (metis append_take_drop_id)
  with segment_start_take [OF i] m name ext show "app_route_shape p"
    unfolding app_route_shape_def by blast
next
  assume "app_route_shape p"
  then obtain d sub name ext where p: "p = d @ ''app/'' @ sub @ name @ ext"
    and d: "d = [] \<or> last d = SLASH"
    and sub: "sub = [] \<or> (last sub = SLASH \<and> no_line_terminator sub)"
    and name: "name \<in> {''page'', ''route''}"
    and ext: "ext \<in> set route_exts"
    unfolding app_route_shape_def by blast
  have "length d \<in> set (segment_starts p)"
    unfolding p by (rule segment_start_append [OF d])
  moreover have "startsWith (drop (length d) p) ''app/''"
    by (simp add: p startsWith_def)
  moreover have "drop (length d + 4) p = sub @ name @ ext" by (simp add: p)
  moreover have "suffix (name @ ext) (sub @ name @ ext)" by (simp add: suffix_def)
  ultimately show "ROUTE_REGEX_app p"
    unfolding ROUTE_REGEX_app_def Let_def endsWith_def using sub name ext
    by (intro bexI [of _ "length d"] conjI bexI [of _ ext] bexI [of _ name]) auto
qed


lemma path_basename_last_part:
  assumes "SLASH \<notin> set b" "b \<noteq> []"
  shows "path_basename (q @ ''/'' @ b) = b"
proof -
  from assms have "last b \<in> set b" by simp
  with assms have "last b \<noteq> SLASH" by metis
  with assms have "rev b \<noteq> []" "hd (rev b) \<noteq> SLASH"
    by (simp_all add: hd_rev)
  then have "dropWhile (\<lambda>c. c = SLASH) (rev b @ SLASH # rev q) = rev b @ SLASH # rev q"
    by (cases "rev b") auto
  moreover have "takeWhile (\<lambda>c. c \<noteq> SLASH) (rev b @ SLASH # rev q) = rev b"
    using assms(1) by (subst takeWhile_append2) auto
  ultimately show ?thesis by (simp add: path_basename_def)
qed

lemma app_route_shape_basename:
  assumes "app_route_shape p"
  shows "\<not> startsWith (path_basename p) ''_''"
proof -
  from assms obtain d sub name ext where p: "p = d @ ''app/'' @ sub @ name @ ext"
    and sub: "sub = [] \<or> (last sub = SLASH \<and> no_line_terminator sub)"
    and name: "name \<in> {''page'', ''route''}"
    and ext: "ext \<in> set route_exts"
    unfolding app_route_shape_def by blast
  from name ext have b: "SLASH \<notin> set (name @ ext)" "name @ ext \<noteq> []"
    and u: "\<not> prefix ''_'' (name @ ext)"
    by (auto simp: route_exts_def)
  have "\<exists>q. p = q @ ''/'' @ (name @ ext)"
  proof (cases "sub = []")
    case True
    then have "p = (d @ ''app'') @ ''/'' @ (name @ ext)" by (simp add: p)
    then show ?thesis by blast
  next
    case False
    with sub have "sub = butlast sub @ ''/''"
      by (metis append_butlast_last_id)
    then have "p = (d @ ''app/'' @ butlast sub) @ ''/'' @ (name @ ext)"
      by (simp add: p)
    then show ?thesis by blast
  qed
  then obtain q where "p = q @ ''/'' @ (name @ ext)" by blast
  then have "path_basename p = name @ ext"
    using path_basename_last_part [OF b] by simp
  with u show ?thesis by (simp add: startsWith_def)
qed

lemma pages_file_shape_in_pages:
  assumes "pages_file_shape p"
  shows "str_includes p ''/pages/'' \<or> startsWith p ''pages/''"
proof -
  from assms obtain d m ext where p: "p = d @ ''pages/'' @ m @ ext"
    and d: "d = [] \<or> last d = SLASH"
    unfolding pages_file_shape_def by blast
  show ?thesis
  proof (cases "d = []")
    case True
    then show ?thesis by (simp add: p startsWith_def)
  next
    case False
    with d have "d = butlast d @ ''/''" by (metis append_butlast_last_id)
    then have "p = butlast d @ ''/pages/'' @ (m @ ext)"
      by (simp add: p)
    then have "sublist ''/pages/'' p" unfolding sublist_def by blast
    then show ?thesis by (simp add: str_includes_def)
  qed
qed

lemma shape_not_sentinel:
  assumes "app_route_shape p \<or> pages_file_shape p"
  shows "p \<noteq> ''__external__''"
proof -
  from assms have "SLASH \<in> set p"
    unfolding app_route_shape_def pages_file_shape_def by auto
  then show ?thesis by auto
qed

text \<open>
  Claim C9, as the code has it. A path is typed \<open>route\<close> exactly when it is a \<open>page\<close> or
  \<open>route\<close> file with extension \<open>ts\<close>, \<open>tsx\<close>, \<open>js\<close> or \<open>jsx\<close> at any depth below a
  directory named \<open>app\<close>, or a file with such an extension at any depth below a directory
  named \<open>pages\<close> whose base name does not start with an underscore. An underscore-prefixed
  file below \<open>pages\<close> is typed \<open>module\<close>. A path of neither shape is typed \<open>style\<close>
  exactly when its extension is a style extension; only the path \<open>__external__\<close> is typed
  \<open>external\<close>; no path is typed \<open>symbol\<close>; every other path is typed \<open>module\<close>.
\<close>

theorem nodeTypeFromPath_typing:
  "(nodeTypeFromPath server_paths p = RouteNode \<longleftrightarrow>
      app_route_shape p \<or> (pages_file_shape p \<and> \<not> startsWith (path_basename p) ''_'')) \<and>
   (pages_file_shape p \<and> startsWith (path_basename p) ''_'' \<longrightarrow>
      nodeTypeFromPath server_paths p = ModuleNode) \<and>
   (nodeTypeFromPath server_paths p = StyleNode \<longleftrightarrow>
      p \<noteq> ''__external__'' \<and> \<not> app_route_shape p \<and> \<not> pages_file_shape p \<and>
      path_extname p \<in> set STYLE_EXTENSIONS) \<and>
   (nodeTypeFromPath server_paths p = ExternalNode \<longleftrightarrow> p = ''__external__'') \<and>
   nodeTypeFromPath server_paths p \<noteq> SymbolNode"
  using app_route_shape_basename [of p] pages_file_shape_in_pages [of p] shape_not_sentinel [of p]
  by (auto simp: nodeTypeFromPath_def ROUTE_REGEX_app_shape ROUTE_REGEX_pages_shape server_paths_def)

theorem nodeTypeFromPath_typing_witness:
  "pages_file_shape ''pages/_app.tsx'' \<and> startsWith (path_basename ''pages/_app.tsx'') ''_'' \<and>
   nodeTypeFromPath server_paths ''pages/_app.tsx'' = ModuleNode"
proof -
  have "ROUTE_REGEX_pages ''pages/_app.tsx''" by code_simp
  then have h1: "pages_file_shape ''pages/_app.tsx''" by (simp only: ROUTE_REGEX_pages_shape)
  have h2: "startsWith (path_basename ''pages/_app.tsx'') ''_''" by code_simp
  from nodeTypeFromPath_typing [of "''pages/_app.tsx''"] h1 h2
  have "nodeTypeFromPath server_paths ''pages/_app.tsx'' = ModuleNode" by blast
  with h1 h2 show ?thesis by blast
qed

text \<open>
  Claim C9 as written fails: the underscore-prefixed file \<open>pages/_app.tsx\<close> is not typed
  \<open>route\<close>, while \<open>pages/index.tsx\<close> and a \<open>page\<close> file two directories below \<open>app\<close>
  are.
\<close>

theorem nodeTypeFromPath_underscore_counterexample:
  "nodeTypeFromPath server_paths ''pages/_app.tsx'' \<noteq> RouteNode \<and>
   nodeTypeFromPath server_paths ''pages/index.tsx'' = RouteNode \<and>
   nodeTypeFromPath server_paths ''app/shop/cart/page.tsx'' = RouteNode"
  by code_simp

section \<open>Dependency extraction\<close>

lemma script_not_style: "e \<in> set SCRIPT_EXTENSIONS \<Longrightarrow> e \<notin> set STYLE_EXTENSIONS"
  by (auto simp: SCRIPT_EXTENSIONS_def STYLE_EXTENSIONS_def)

lemma extractDependencies_script:
  assumes "p_extname S f \<in> set SCRIPT_EXTENSIONS" and "s_parse S code = Some ast"
  shows "extractDependencies S f code = concat (map (visit_dependencies code) ast)"
  using assms script_not_style [OF assms(1)] by (simp add: extractDependencies_def)

lemma visit_call:
  assumes "c = Import \<or> c = Identifier ''require''"
  shows "visit_dependencies code (CallExpression c args sp) =
     (case args of
        StringLiteral v # others \<Rightarrow>
          [\<lparr>d_specifier = v, d_type = (if c = Import then DynamicEdge else StaticEdge),
            d_statement = Some (node_text code sp), d_loc = s_loc sp, d_imports = None\<rparr>]
      | _ \<Rightarrow> [])"
proof (cases args)
  case Nil
  with assms show ?thesis by auto
next
  case (Cons a others)
  with assms show ?thesis by (cases a) (auto simp: script_dependency_def)
qed

text \<open>
  Claim C8, as the code has it. In a script file that parses, a dynamic \<open>import()\<close> call or a
  \<open>require()\<close> call adds a dependency record exactly when its first argument is a string
  literal, whatever arguments follow it: the record holds the literal as specifier, type
  \<open>dynamic\<close> for \<open>import()\<close> and \<open>static\<close> for \<open>require()\<close>, and the text of the call. A call with
  no argument, or whose first argument is not a string literal, adds no record.
\<close>

theorem extractDependencies_call:
  assumes "p_extname S f \<in> set SCRIPT_EXTENSIONS"
    and "s_parse S code = Some (pre @ CallExpression c args sp # post)"
    and "c = Import \<or> c = Identifier ''require''"
  shows "extractDependencies S f code =
     concat (map (visit_dependencies code) pre)
     @ (case args of
          StringLiteral v # others \<Rightarrow>
            [\<lparr>d_specifier = v, d_type = (if c = Import then DynamicEdge else StaticEdge),
              d_statement = Some (node_text code sp), d_loc = s_loc sp, d_imports = None\<rparr>]
        | _ \<Rightarrow> [])
     @ concat (map (visit_dependencies code) post)"
proof -
  have "extractDependencies S f code =
      concat (map (visit_dependencies code) (pre @ CallExpression c args sp # post))"
    by (rule extractDependencies_script [OF assms(1,2)])
  also have "\<dots> = concat (map (visit_dependencies code) pre)
      @ visit_dependencies code (CallExpression c args sp)
      @ concat (map (visit_dependencies code) post)"
    by (simp del: visit_dependencies.simps)
  finally show ?thesis by (simp only: visit_call [OF assms(3)])
qed

lemma call_scanner_parse: "s_parse call_scanner call_code = Some call_ast"
  by (simp add: call_scanner_def server_scanner_def table_parser_def)

lemma call_scanner_extname: "p_extname call_scanner ''/r/a.ts'' = ''.ts''"
  by (simp add: call_scanner_def server_scanner_def path_extname_def path_basename_def
      lastIndexOf_def)

theorem extractDependencies_call_witness:
  "p_extname call_scanner ''/r/a.ts'' \<in> set SCRIPT_EXTENSIONS \<and>
   s_parse call_scanner call_code =
     Some ([OtherNode, OtherNode]
           @ CallExpression (Identifier ''require'') [StringLiteral ''a'', OtherExpression]
               \<lparr>s_start = Some 0, s_end = Some 15, s_loc = Some (1, 0)\<rparr>
           # [OtherNode, OtherNode, OtherNode]) \<and>
   extractDependencies call_scanner ''/r/a.ts'' call_code =
     [\<lparr>d_specifier = ''a'', d_type = StaticEdge, d_statement = Some call_code,
       d_loc = Some (1, 0), d_imports = None\<rparr>]"
proof -
  have h1: "p_extname call_scanner ''/r/a.ts'' \<in> set SCRIPT_EXTENSIONS"
    by (simp add: call_scanner_extname SCRIPT_EXTENSIONS_def)
  have h2: "s_parse call_scanner call_code =
     Some ([OtherNode, OtherNode]
           @ CallExpression (Identifier ''require'') [StringLiteral ''a'', OtherExpression]
               \<lparr>s_start = Some 0, s_end = Some 15, s_loc = Some (1, 0)\<rparr>
           # [OtherNode, OtherNode, OtherNode])"
    by (simp add: call_scanner_parse call_ast_def)
  have h3: "node_text call_code \<lparr>s_start = Some 0, s_end = Some 15, s_loc = Some (1, 0)\<rparr> = call_code"
    by (simp add: node_text_def slice_def call_code_def)
  from extractDependencies_call [OF h1 h2] h3
  have "extractDependencies call_scanner ''/r/a.ts'' call_code =
     [\<lparr>d_specifier = ''a'', d_type = StaticEdge, d_statement = Some call_code,
       d_loc = Some (1, 0), d_imports = None\<rparr>]"
    by simp
  with h1 h2 show ?thesis by blast
qed

text \<open>
  Claim C8 as written fails: the call \<open>require('a', b)\<close> has two arguments, and a dependency
  record is made for it.
\<close>

theorem extractDependencies_two_arguments_counterexample:
  "extractDependencies call_scanner ''/r/a.ts'' call_code =
     [\<lparr>d_specifier = ''a'', d_type = StaticEdge, d_statement = Some call_code,
       d_loc = Some (1, 0), d_imports = None\<rparr>]"
proof -
  have "extractDependencies call_scanner ''/r/a.ts'' call_code =
      concat (map (visit_dependencies call_code) call_ast)"
    by (simp add: extractDependencies_def call_scanner_extname call_scanner_parse
        SCRIPT_EXTENSIONS_def STYLE_EXTENSIONS_def)
  also have "\<dots> = [\<lparr>d_specifier = ''a'', d_type = StaticEdge, d_statement = Some call_code,
       d_loc = Some (1, 0), d_imports = None\<rparr>]"
    by (simp add: call_ast_def script_dependency_def node_text_def slice_def call_code_def)
  finally show ?thesis .
qed

section \<open>The capacity limit\<close>

lemma server_walk_entries_count:
  "(if 0 < server_count_files S cwd root dir pats entries
       \<and> maxFiles < int (w_totalFiles st + server_count_files S cwd root dir pats entries)
    then server_walk_entries S cwd root maxFiles dir pats entries st
           = Inl (Error (file_limit_message maxFiles))
    else \<exists>st'. server_walk_entries S cwd root maxFiles dir pats entries st = Inr st'
           \<and> w_totalFiles st' = w_totalFiles st + server_count_files S cwd root dir pats entries)"
proof (induction S cwd root dir pats entries arbitrary: st rule: server_count_files.induct)
  case (1 S cwd root dir combinedPatterns)
  then show ?case by simp
next
  case (2 S cwd root dir combinedPatterns name entry rest)
  let ?fullPath = "path_join [dir, name]"
  let ?relPath = "path_relative cwd root ?fullPath"
  show ?case
  proof (cases "?relPath = [] \<or> s_ignores S combinedPatterns ?relPath")
    case True
    with "2.IH"(1) [OF refl refl True, of "st"]
         "2.IH"(1) [OF refl refl True, of "st\<lparr>w_ignoredCount := w_ignoredCount st + 1,
                 w_ignoredNodes :=
                   (if \<not> isDirectory entry \<and> isSupportedFile S ?fullPath
                    then w_ignoredNodes st @ [ignored_node S ?relPath] else w_ignoredNodes st)\<rparr>"]
    show ?thesis by (auto simp: Let_def)
  next
    case False
    show ?thesis
    proof (cases entry)
      case (File c)
      with False
           "2.IH"(2) [OF refl refl False File, of "st\<lparr>w_totalFiles := w_totalFiles st + 1\<rparr>"]
           "2.IH"(2) [OF refl refl False File, of "st\<lparr>w_totalFiles := w_totalFiles st + 1,
                        w_nodes := AList.update ?relPath (file_node S ?relPath) (w_nodes st),
                        w_filesToParse := w_filesToParse st @ [?fullPath]\<rparr>"]
      show ?thesis by (auto simp: Let_def split: if_splits)
    next
      case (Dir es)
      let ?pats = "combined_patterns S (path_relative cwd root ?fullPath) combinedPatterns es"
      note ih_es = "2.IH"(3) [OF refl refl False Dir, of st]
      show ?thesis
      proof (cases "server_walk_entries S cwd root maxFiles ?fullPath ?pats es st")
        case (Inl e)
        with ih_es False Dir show ?thesis by (auto simp: Let_def split: if_splits)
      next
        case (Inr st1)
        with ih_es False Dir "2.IH"(4) [OF refl refl False Dir, of st1]
        show ?thesis by (auto simp: Let_def split: if_splits)
      qed
    qed
  qed
qed


text \<open>
  Claim C3, as the code has it. When the traversal of the root meets at least one file that is
  not ignored, and the number of such files exceeds \<open>maxFiles\<close>, the scan ends in the error
  whose message holds the configured limit; no graph is returned.
\<close>

theorem scanProject_capacity:
  assumes "0 < scan_file_count S E (o_root options)"
    and "o_maxFiles options < int (scan_file_count S E (o_root options))"
  shows "scanProject S E options = Inl (Error (file_limit_message (o_maxFiles options)))"
proof -
  let ?root = "path_resolve (v_cwd E) [o_root options]"
  from assms(1) obtain entries where dir: "fs_stat E ?root = Some (Dir entries)"
    by (auto simp: scan_file_count_def Let_def split: option.splits fsnode.splits)
  let ?pats = "combined_patterns S (path_relative (v_cwd E) ?root ?root) ALWAYS_IGNORE entries"
  let ?n = "server_count_files S (v_cwd E) ?root ?root ?pats entries"
  from dir have n: "scan_file_count S E (o_root options) = ?n"
    by (simp add: scan_file_count_def Let_def)
  from assms n have "0 < ?n" "o_maxFiles options < int (w_totalFiles start_walk + ?n)"
    by (simp_all add: start_walk_def)
  with server_walk_entries_count [of S "v_cwd E" ?root ?root ?pats entries "o_maxFiles options" start_walk]
  have "server_walk S (v_cwd E) ?root (o_maxFiles options) ?root ALWAYS_IGNORE entries start_walk
      = Inl (Error (file_limit_message (o_maxFiles options)))"
    by (simp add: server_walk_def)
  with dir show ?thesis by (simp add: scanProject_def Let_def)
qed

theorem scanProject_capacity_witness:
  "0 < scan_file_count example_scanner four_files_env ''/repo'' \<and>
   (3::int) < int (scan_file_count example_scanner four_files_env ''/repo'') \<and>
   scanProject example_scanner four_files_env
     \<lparr>o_root = ''/repo'', o_maxFiles = 3, o_includeExternal = False, o_granularity = None\<rparr>
   = Inl (Error ''File limit exceeded (3). Adjust the max files setting to continue.'')"
proof -
  let ?S = "example_scanner"
  let ?options = "\<lparr>o_root = ''/repo'', o_maxFiles = 3, o_includeExternal = False, o_granularity = None\<rparr>"
  have n: "scan_file_count ?S four_files_env ''/repo'' = 4" by code_simp
  have h1: "0 < scan_file_count ?S four_files_env (o_root ?options)" by (simp add: n)
  have h2: "o_maxFiles ?options < int (scan_file_count ?S four_files_env (o_root ?options))"
    by (simp add: n)
  have m: "file_limit_message 3 = ''File limit exceeded (3). Adjust the max files setting to continue.''"
    by code_simp
  from scanProject_capacity [OF h1 h2] m
  have "scanProject ?S four_files_env ?options
      = Inl (Error ''File limit exceeded (3). Adjust the max files setting to continue.'')"
    by simp
  with h1 h2 show ?thesis by simp
qed

text \<open>
  Claim C3 as written fails for a limit below zero on a root without files: the count 0
  exceeds the limit \<open>-1\<close>, and the scan returns the empty graph.
\<close>

theorem scanProject_negative_limit_counterexample:
  "(-1::int) < int (scan_file_count example_scanner empty_root_env ''/repo'') \<and>
   scanProject example_scanner empty_root_env
     \<lparr>o_root = ''/repo'', o_maxFiles = -1, o_includeExternal = False, o_granularity = None\<rparr>
   = Inr \<lparr>g_root = ''/repo'', g_nodes = [], g_edges = [], g_totalFiles = 0, g_ignoredCount = 0,
          g_externalCount = 0\<rparr>"
  by code_simp

section \<open>Node identity\<close>

lemma fold_invariant:
  assumes "\<And>x s. P s \<Longrightarrow> P (f x s)" and "P s"
  shows "P (fold f xs s)"
  using assms(2) by (induction xs arbitrary: s) (auto intro: assms(1))

lemma list_all_update:
  "list_all (\<lambda>(k, n). Q k n) al \<Longrightarrow> Q k v \<Longrightarrow> list_all (\<lambda>(k, n). Q k n) (AList.update k v al)"
  by (induction al) auto

lemma nodes_ok_update: "nodes_ok ns \<Longrightarrow> n_id n = k \<Longrightarrow> nodes_ok (AList.update k n ns)"
  unfolding nodes_ok_def using list_all_update [of "\<lambda>k n. n_id n = k" ns k n]
  by (simp add: distinct_update)

lemma nodes_ok_ids: "nodes_ok ns \<Longrightarrow> map n_id (map snd ns) = map fst ns"
  by (induction ns) (auto simp: nodes_ok_def)

lemma n_id_file_node [simp]: "n_id (file_node S relPath) = relPath"
  by (simp add: file_node_def)

lemma n_id_ignored_node [simp]: "n_id (ignored_node S relPath) = relPath"
  by (simp add: ignored_node_def)

lemma n_id_symbol_node [simp]: "n_id (symbol_node relPath info) = relPath @ ''::'' @ y_name info"
  by (simp add: symbol_node_def)

lemma n_id_external_node [simp]: "n_id external_node = ''__external__''"
  by (simp add: external_node_def)

lemma server_walk_entries_nodes_ok:
  "server_walk_entries S cwd root maxFiles dir pats entries st = Inr st' \<Longrightarrow>
   nodes_ok (w_nodes st) \<Longrightarrow> nodes_ok (w_nodes st')"
proof (induction S cwd root dir pats entries arbitrary: st st' rule: server_count_files.induct)
  case (1 S cwd root dir combinedPatterns)
  then show ?case by simp
next
  case (2 S cwd root dir combinedPatterns name entry rest)
  let ?fullPath = "path_join [dir, name]"
  let ?relPath = "path_relative cwd root ?fullPath"
  show ?case
  proof (cases "?relPath = [] \<or> s_ignores S combinedPatterns ?relPath")
    case True
    with "2.prems" "2.IH"(1) [OF refl refl True] show ?thesis
      by (auto simp: Let_def split: if_splits)
  next
    case False
    show ?thesis
    proof (cases entry)
      case (File c)
      with False "2.prems" "2.IH"(2) [OF refl refl False File] show ?thesis
        by (auto simp: Let_def nodes_ok_update split: if_splits)
    next
      case (Dir es)
      with False "2.prems" "2.IH"(3) [OF refl refl False Dir] "2.IH"(4) [OF refl refl False Dir]
      show ?thesis
        by (auto simp: Let_def split: if_splits sum.splits)
    qed
  qed
qed

lemma push_edge_nodes [simp]: "nodes (push_edge S key src tgt t stmt l st) = nodes st"
  by (simp add: push_edge_def)

lemma set_node_nodes_ok: "nodes_ok (nodes st) \<Longrightarrow> n_id n = k \<Longrightarrow> nodes_ok (nodes (set_node k n st))"
  by (simp add: set_node_def nodes_ok_update)

lemma add_symbol_nodes_ok:
  "nodes_ok (nodes (snd acc)) \<Longrightarrow> nodes_ok (nodes (snd (add_symbol S relPath info acc)))"
  by (cases acc) (auto simp: add_symbol_def Let_def set_node_nodes_ok)

lemma collect_symbols_nodes_ok:
  assumes "nodes_ok (nodes st)"
  shows "nodes_ok (nodes (collect_symbols S file st))"
proof -
  have "nodes_ok (nodes (snd (fold (add_symbol S (f_relPath file)) symbols (Map.empty, st))))"
    for symbols
    by (rule fold_invariant [where P = "\<lambda>acc. nodes_ok (nodes (snd acc))"])
       (simp_all add: add_symbol_nodes_ok assms)
  note inv = this
  show ?thesis
  proof (cases "f_code file")
    case None
    with assms show ?thesis by (simp add: collect_symbols_def)
  next
    case (Some code)
    obtain entry st' where f:
      "fold (add_symbol S (f_relPath file)) (extractSymbols S (f_path file) code) (Map.empty, st)
         = (entry, st')"
      by fastforce
    with inv [of "extractSymbols S (f_path file) code"] have "nodes_ok (nodes st')" by simp
    with Some f assms show ?thesis by (simp add: collect_symbols_def Let_def)
  qed
qed

lemma symbol_edge_nodes [simp]:
  "nodes (fst (symbol_edge S relPath targetRel targetSymbols dep binding acc)) = nodes (fst acc)"
  by (cases acc) (auto simp: symbol_edge_def Let_def split: option.splits)

lemma fold_symbol_edge_nodes [simp]:
  "nodes (fst (fold (symbol_edge S relPath targetRel targetSymbols dep) bs acc)) = nodes (fst acc)"
  by (induction bs arbitrary: acc) auto

lemma file_edge_nodes [simp]: "nodes (file_edge S relPath targetRel dep st) = nodes st"
  by (simp add: file_edge_def Let_def)

lemma external_edge_nodes_ok:
  "nodes_ok (nodes st) \<Longrightarrow> nodes_ok (nodes (external_edge S relPath dep st))"
  by (auto simp: external_edge_def Let_def set_node_nodes_ok)

lemma process_dep_nodes_ok:
  assumes "nodes_ok (nodes st)"
  shows "nodes_ok (nodes (process_dep S incl gran relPath resolved dep st))"
proof (cases resolved)
  case None
  with assms show ?thesis by (simp add: process_dep_def)
next
  case (Some r)
  show ?thesis
  proof (cases r)
    case External
    have "nodes_ok (nodes (st\<lparr>externalCount := externalCount st + 1\<rparr>))"
      using assms by simp
    then have "nodes_ok (nodes (external_edge S relPath dep
                                  (st\<lparr>externalCount := externalCount st + 1\<rparr>)))"
      by (rule external_edge_nodes_ok)
    with Some External assms show ?thesis by (simp add: process_dep_def Let_def)
  next
    case (Resolved targetRel)
    define st1 where
      "st1 = (if \<not> has_node targetRel st then set_node targetRel (file_node S targetRel) st else st)"
    have st1: "nodes_ok (nodes st1)" using assms by (simp add: st1_def set_node_nodes_ok)
    have nodes_eq: "nodes (fst (case symbolMap st1 targetRel of
          None \<Rightarrow> (st1, False)
        | Some targetSymbols \<Rightarrow>
            fold (symbol_edge S relPath targetRel targetSymbols dep) bs0 (st1, False)))
       = nodes st1" for bs0
      by (cases "symbolMap st1 targetRel") simp_all
    show ?thesis
    proof (cases "if gran = SymbolGranularity then d_imports dep else None")
      case None
      with Some Resolved st1 show ?thesis
        by (simp add: process_dep_def Let_def st1_def [symmetric])
    next
      case bs: (Some bs)
      then have imps: "d_imports dep = Some bs" by (simp split: if_splits)
      show ?thesis
      proof (cases bs)
        case Nil
        with bs Some Resolved st1 show ?thesis
          by (simp add: process_dep_def Let_def st1_def [symmetric])
      next
        case (Cons b bs')
        obtain st2 created where r:
          "(case symbolMap st1 targetRel of
              None \<Rightarrow> (st1, False)
            | Some targetSymbols \<Rightarrow>
                fold (symbol_edge S relPath targetRel targetSymbols dep) (b # bs') (st1, False))
           = (st2, created)"
          by fastforce
        with nodes_eq [of "b # bs'"] have "nodes st2 = nodes st1" by simp
        with Cons bs Some Resolved st1 r show ?thesis
          by (simp add: process_dep_def Let_def st1_def [symmetric])
      qed
    qed
  qed
qed

lemma process_file_nodes_ok:
  "nodes_ok (nodes st) \<Longrightarrow> nodes_ok (nodes (process_file S resolve incl gran file st))"
  unfolding process_file_def
  by (auto split: option.splits
      intro!: fold_invariant [where P = "\<lambda>st. nodes_ok (nodes st)"] process_dep_nodes_ok)

lemma assemble_nodes_ok:
  assumes "nodes_ok (w_nodes w)"
  shows "nodes_ok (nodes (assemble S resolve incl gran files w))"
proof -
  have "nodes_ok (fold (\<lambda>ignoredNode. AList.update (n_id ignoredNode) ignoredNode)
                    (w_ignoredNodes w) (w_nodes w))"
    by (rule fold_invariant [where P = nodes_ok]) (simp_all add: nodes_ok_update assms)
  then show ?thesis
    unfolding assemble_def Let_def
    by (auto intro!: fold_invariant [where P = "\<lambda>st. nodes_ok (nodes st)"]
        process_file_nodes_ok collect_symbols_nodes_ok)
qed

lemma distinct_filter_le_one:
  "distinct (map f xs) \<Longrightarrow> length (filter (\<lambda>x. Q x \<and> f x = a) xs) \<le> 1"
proof (induction xs)
  case Nil
  then show ?case by simp
next
  case (Cons x xs)
  then have d: "f x \<notin> f ` set xs" by simp
  have "filter (\<lambda>x. Q x \<and> f x = a) xs = []" if "f x = a"
  proof -
    from d that have "\<forall>y \<in> set xs. f y \<noteq> a" by blast
    then show ?thesis by (simp add: filter_empty_conv)
  qed
  with Cons show ?case by auto
qed

lemma scanProject_nodes_ok:
  assumes "scanProject S E options = Inr g"
  shows "distinct (map n_id (g_nodes g))"
proof -
  let ?root = "path_resolve (v_cwd E) [o_root options]"
  from assms obtain entries w where
    w: "server_walk S (v_cwd E) ?root (o_maxFiles options) ?root ALWAYS_IGNORE entries start_walk = Inr w"
    and g: "g = graph_of ?root w
                  (assemble S (server_resolve E ?root) (o_includeExternal options)
                     (granularity_or_file (o_granularity options))
                     (server_files E ?root (w_filesToParse w)) w)"
    by (auto simp: scanProject_def Let_def split: option.splits fsnode.splits sum.splits)
  have "nodes_ok (w_nodes start_walk)" by (simp add: start_walk_def nodes_ok_def)
  with w have "nodes_ok (w_nodes w)"
    unfolding server_walk_def by (rule server_walk_entries_nodes_ok)
  then have ok: "nodes_ok (nodes (assemble S (server_resolve E ?root) (o_includeExternal options)
                     (granularity_or_file (o_granularity options))
                     (server_files E ?root (w_filesToParse w)) w))"
    by (rule assemble_nodes_ok)
  have "map n_id (g_nodes g) = map fst (nodes (assemble S (server_resolve E ?root)
                     (o_includeExternal options) (granularity_or_file (o_granularity options))
                     (server_files E ?root (w_filesToParse w)) w))"
    unfolding g graph_of_def using nodes_ok_ids [OF ok] by simp
  with ok show ?thesis by (simp add: nodes_ok_def)
qed

lemma server_scenario:
  "scanProject (server_scanner scenario_parser simple_ignores sha1) scenario_env
     (default_options ''/repo'') =
   Inr \<lparr>g_root = ''/repo'',
        g_nodes = [file_node server_paths ''a.ts'', ignored_node server_paths ''b.ts''],
        g_edges = [\<lparr>e_id = sha1 (''a.ts|b.ts|static|'' @ import_b_code), e_source = ''a.ts'',
                    e_target = ''b.ts'', e_type = StaticEdge, e_statement = Some import_b_code,
                    e_loc = Some (1, 0)\<rparr>],
        g_totalFiles = 2, g_ignoredCount = 1, g_externalCount = 0\<rparr>"
  by code_simp

text \<open>
  Claim C2. For every file system, scanner and option setting, \<open>scanProject\<close> either ends in an
  error or returns a graph whose node ids are pairwise distinct and which holds at most one
  external sentinel, the node of type \<open>external\<close> with id \<open>__external__\<close>.
\<close>

theorem scanProject_unique_nodes:
  "(\<exists>e. scanProject S E options = Inl e) \<or>
   (\<exists>g. scanProject S E options = Inr g \<and> distinct (map n_id (g_nodes g)) \<and>
        length (filter is_sentinel (g_nodes g)) \<le> 1)"
proof (cases "scanProject S E options")
  case (Inl e)
  then show ?thesis by simp
next
  case (Inr g)
  from scanProject_nodes_ok [OF Inr]
  have "distinct (map n_id (g_nodes g))" .
  moreover from this have "length (filter (\<lambda>n. n_type n = ExternalNode \<and> n_id n = ''__external__'') (g_nodes g)) \<le> 1"
    by (rule distinct_filter_le_one)
  then have "length (filter is_sentinel (g_nodes g)) \<le> 1"
    by (simp add: is_sentinel_def [abs_def])
  ultimately show ?thesis using Inr by simp
qed
theorem scanProject_unique_nodes_witness:
  "\<exists>g. scanProject example_scanner scenario_env (default_options ''/repo'') = Inr g \<and>
       distinct (map n_id (g_nodes g)) \<and> length (filter is_sentinel (g_nodes g)) \<le> 1"
proof -
  have "\<not> (\<exists>e. scanProject example_scanner scenario_env (default_options ''/repo'') = Inl e)"
    unfolding example_scanner_def by (simp add: server_scenario)
  with scanProject_unique_nodes [of example_scanner scenario_env "default_options ''/repo''"]
  show ?thesis by blast
qed


section \<open>The root boundary\<close>

lemma browser_resolveWithExtensions_scanned:
  assumes "browser_resolveWithExtensions basePath fileSet dirSet = Some r"
  shows "r \<in> set fileSet"
proof -
  have "find (\<lambda>q. q \<in> set fileSet) qs = Some r \<Longrightarrow> r \<in> set fileSet" for qs
    by (auto simp: find_Some_iff)
  with assms show ?thesis
    by (auto simp: browser_resolveWithExtensions_def split: if_splits option.splits)
qed

text \<open>The in-browser resolver keeps to the root: a path it resolves to is one of the scanned
  files, and a specifier that climbs above the root is external.\<close>

lemma browser_resolveImport_in_tree:
  assumes "browser_resolveImport fromFile specifier fileSet dirSet = Some (Resolved r)"
  shows "r \<in> set fileSet"
  using assms browser_resolveWithExtensions_scanned
  by (auto simp: browser_resolveImport_def Let_def split: if_splits option.splits prod.splits)

lemma browser_resolveImport_escape:
  assumes "startsWith specifier ''.''"
    and "snd (normalizePosixPath (posixJoin [posixDirname fromFile,
               split_first (CHR ''#'') (split_first (CHR ''?'') specifier)]))"
  shows "browser_resolveImport fromFile specifier fileSet dirSet = Some External"
proof -
  from assms(1) obtain rest where s: "specifier = CHR ''.'' # rest"
    by (cases specifier) (auto simp: startsWith_def)
  then have "startsWith (split_first (CHR ''#'') (split_first (CHR ''?'') specifier)) ''.''"
    by (simp add: split_first_def startsWith_def)
  moreover have "\<not> startsWith specifier ''http''" "specifier \<noteq> []"
    using s by (simp_all add: startsWith_def)
  moreover have "\<not> startsWith (split_first (CHR ''#'') (split_first (CHR ''?'') specifier)) ''@/''"
    "\<not> startsWith (split_first (CHR ''#'') (split_first (CHR ''?'') specifier)) ''/''"
    using s by (simp_all add: split_first_def startsWith_def)
  ultimately show ?thesis using assms(2)
    by (auto simp: browser_resolveImport_def Let_def split: prod.splits)
qed

text \<open>
  Claim C5 at its failing input. The root is \<open>/work/app\<close>; \<open>import '../app2/x'\<close> in its file \<open>a.ts\<close>
  makes the candidate \<open>/work/app2/x\<close>, outside the root, where \<open>x.ts\<close> exists. The test
  \<open>resolved.startsWith(root)\<close> compares characters, not path parts, so the server-side
  resolver reports the file as in-tree and the scan returns an edge from \<open>a.ts\<close> to
  \<open>../app2/x.ts\<close>.
\<close>

theorem resolveImport_sibling_prefix:
  "resolveImport sibling_env ''/work/app'' ''/work/app/a.ts'' ''../app2/x''
     = Some (Resolved ''/work/app2/x.ts'') \<and>
   scanProject sibling_scanner sibling_env (default_options ''/work/app'') =
     Inr \<lparr>g_root = ''/work/app'',
          g_nodes = [file_node server_paths ''a.ts'', file_node server_paths ''../app2/x.ts''],
          g_edges = [\<lparr>e_id = hashId (''a.ts|../app2/x.ts|static|'' @ sibling_code),
                      e_source = ''a.ts'', e_target = ''../app2/x.ts'', e_type = StaticEdge,
                      e_statement = Some sibling_code, e_loc = Some (1, 0)\<rparr>],
          g_totalFiles = 1, g_ignoredCount = 0, g_externalCount = 0\<rparr>"
proof -
  have "resolveImport sibling_env ''/work/app'' ''/work/app/a.ts'' ''../app2/x''
     = Some (Resolved ''/work/app2/x.ts'')"
    by code_simp
  moreover have "scanProject (server_scanner
         (table_parser [(sibling_code, sibling_ast), (export_x_code, export_x_ast)])
         simple_ignores sha1) sibling_env (default_options ''/work/app'') =
     Inr \<lparr>g_root = ''/work/app'',
          g_nodes = [file_node server_paths ''a.ts'', file_node server_paths ''../app2/x.ts''],
          g_edges = [\<lparr>e_id = sha1 (''a.ts|../app2/x.ts|static|'' @ sibling_code),
                      e_source = ''a.ts'', e_target = ''../app2/x.ts'', e_type = StaticEdge,
                      e_statement = Some sibling_code, e_loc = Some (1, 0)\<rparr>],
          g_totalFiles = 1, g_ignoredCount = 0, g_externalCount = 0\<rparr>" for sha1
    by code_simp
  ultimately show ?thesis unfolding sibling_scanner_def by blast
qed

section \<open>The scenario of an ignored import target\<close>

text \<open>
  Claim C7 at its failing input. The in-browser scanner resolves a specifier against the set
  of the files it queued, which leaves the ignored files out: \<open>import './b'\<close> is counted as an
  external reference and no edge from \<open>a.ts\<close> to \<open>b.ts\<close> is returned. The server-side scanner
  asks the file system and returns the edge (\<open>server_scenario\<close>).
\<close>

theorem browser_scenario_no_edge:
  "scanDirectoryHandle (browser_scanner scenario_parser simple_ignores)
     (default_browser_options ''repo'' scenario_entries) =
   Inr \<lparr>g_root = ''repo'',
        g_nodes = [file_node browser_paths ''a.ts'', ignored_node browser_paths ''b.ts''],
        g_edges = [], g_totalFiles = 2, g_ignoredCount = 1, g_externalCount = 1\<rparr>"
  by code_simp

lemma scenario_node_types:
  "n_type (file_node server_paths ''a.ts'') = ModuleNode"
  "n_type (ignored_node server_paths ''b.ts'') = ModuleNode"
  "n_ignored (ignored_node server_paths ''b.ts'') = Some True"
  "n_ignored (file_node server_paths ''a.ts'') = None"
  by code_simp+

section \<open>Resolution of a relative specifier\<close>

lemma dirname_b: "path_dirname ''/repo/a/b.ts'' = ''/repo/a''"
  by code_simp

lemma resolve_x: "path_resolve cwd [''/repo/a'', ''./x''] = ''/repo/a/x''"
  by (simp add: path_resolve_def isAbsolute_def normalizeString_def)

lemma index_candidates:
  "map (\<lambda>ext. path_join [''/repo/a/x'', ''index'' @ ext]) IMPORT_EXTENSIONS
     = map (\<lambda>ext. ''/repo/a/x/index'' @ ext) IMPORT_EXTENSIONS"
  by code_simp

lemma extname_x: "path_extname ''/repo/a/x'' = []"
  by code_simp

lemma find_map_option: "find P (map f xs) = map_option f (find (\<lambda>x. P (f x)) xs)"
  by (induction xs) auto

lemma resolveWithExtensions_x:
  "resolveWithExtensions E ''/repo/a/x'' =
     (if stat_isFile E ''/repo/a/x'' then Some ''/repo/a/x''
      else case (if stat_isDirectory E ''/repo/a/x''
                 then find (\<lambda>ext. stat_isFile E (''/repo/a/x/index'' @ ext)) IMPORT_EXTENSIONS
                 else None) of
             Some ext \<Rightarrow> Some (''/repo/a/x/index'' @ ext)
           | None \<Rightarrow>
               map_option (\<lambda>ext. ''/repo/a/x'' @ ext)
                 (find (\<lambda>ext. stat_isFile E (''/repo/a/x'' @ ext)) IMPORT_EXTENSIONS))"
  unfolding resolveWithExtensions_def index_candidates extname_x find_map_option
  by (auto split: option.splits)

lemma resolveImport_x:
  "resolveImport E ''/repo'' ''/repo/a/b.ts'' ''./x'' =
     (case resolveWithExtensions E ''/repo/a/x'' of
        None \<Rightarrow> Some External
      | Some resolved \<Rightarrow> if startsWith resolved ''/repo'' then Some (Resolved resolved) else Some External)"
  by (simp add: resolveImport_def startsWith_def split_first_def dirname_b resolve_x Let_def
      split: option.splits)


lemma starts_with_repo: "startsWith (''/repo/a/x'' @ s) ''/repo''"
  by (simp add: startsWith_def)

lemma resolveImport_x_cases:
  "resolveImport E ''/repo'' ''/repo/a/b.ts'' ''./x'' =
     (if stat_isFile E ''/repo/a/x'' then Some (Resolved ''/repo/a/x'')
      else case (if stat_isDirectory E ''/repo/a/x''
                 then find (\<lambda>ext. stat_isFile E (''/repo/a/x/index'' @ ext)) IMPORT_EXTENSIONS
                 else None) of
             Some ext \<Rightarrow> Some (Resolved (''/repo/a/x/index'' @ ext))
           | None \<Rightarrow>
               (case find (\<lambda>ext. stat_isFile E (''/repo/a/x'' @ ext)) IMPORT_EXTENSIONS of
                  Some ext \<Rightarrow> Some (Resolved (''/repo/a/x'' @ ext))
                | None \<Rightarrow> Some External))"
proof -
  have a: "startsWith ''/repo/a/x'' ''/repo''" using starts_with_repo [of "[]"] by simp
  have b: "startsWith (''/repo/a/x/index'' @ ext) ''/repo''" for ext
    using starts_with_repo [of "''/index'' @ ext"] by simp
  show ?thesis
    unfolding resolveImport_x resolveWithExtensions_x
    using a b starts_with_repo by (auto split: option.splits)
qed

text \<open>
  Claim C4, as the code has it. For every file system, the specifier \<open>./x\<close> written in
  \<open>a/b.ts\<close> under the root \<open>/repo\<close> resolves to \<open>a/x\<close> itself when that is a file; otherwise to
  \<open>a/x/index.ts\<close> when \<open>a/x\<close> is a directory holding that file, whether or not \<open>a/x.ts\<close> exists;
  otherwise, when \<open>a/x\<close> is no directory with an index file of a supported extension, to
  \<open>a/x.ts\<close> if that file exists. The reference is external exactly when none of the probes
  finds a file: not \<open>a/x\<close>, no \<open>a/x/index\<close> with an import extension in a directory \<open>a/x\<close>, and
  no \<open>a/x\<close> with an import extension appended.
\<close>

theorem resolveImport_relative:
  "(stat_isFile E ''/repo/a/x'' \<longrightarrow>
      resolveImport E ''/repo'' ''/repo/a/b.ts'' ''./x'' = Some (Resolved ''/repo/a/x'')) \<and>
   (\<not> stat_isFile E ''/repo/a/x'' \<and> stat_isDirectory E ''/repo/a/x'' \<and>
    stat_isFile E ''/repo/a/x/index.ts'' \<longrightarrow>
      resolveImport E ''/repo'' ''/repo/a/b.ts'' ''./x'' = Some (Resolved ''/repo/a/x/index.ts'')) \<and>
   (\<not> stat_isFile E ''/repo/a/x'' \<and>
    \<not> (stat_isDirectory E ''/repo/a/x'' \<and>
       (\<exists>ext \<in> set IMPORT_EXTENSIONS. stat_isFile E (''/repo/a/x/index'' @ ext))) \<and>
    stat_isFile E ''/repo/a/x.ts'' \<longrightarrow>
      resolveImport E ''/repo'' ''/repo/a/b.ts'' ''./x'' = Some (Resolved ''/repo/a/x.ts'')) \<and>
   (resolveImport E ''/repo'' ''/repo/a/b.ts'' ''./x'' = Some External \<longleftrightarrow>
      \<not> stat_isFile E ''/repo/a/x'' \<and>
      \<not> (stat_isDirectory E ''/repo/a/x'' \<and>
         (\<exists>ext \<in> set IMPORT_EXTENSIONS. stat_isFile E (''/repo/a/x/index'' @ ext))) \<and>
      \<not> (\<exists>ext \<in> set IMPORT_EXTENSIONS. stat_isFile E (''/repo/a/x'' @ ext)))"
proof -
  have ts: "find P IMPORT_EXTENSIONS = Some ''.ts''" if "P ''.ts''" for P
    using that by (simp add: IMPORT_EXTENSIONS_def)
  have none: "find P IMPORT_EXTENSIONS = None \<longleftrightarrow> \<not> (\<exists>ext \<in> set IMPORT_EXTENSIONS. P ext)" for P
    by (auto simp: find_None_iff)
  have c1: "stat_isFile E ''/repo/a/x'' \<longrightarrow>
      resolveImport E ''/repo'' ''/repo/a/b.ts'' ''./x'' = Some (Resolved ''/repo/a/x'')"
    by (simp add: resolveImport_x_cases)
  have c2: "\<not> stat_isFile E ''/repo/a/x'' \<and> stat_isDirectory E ''/repo/a/x'' \<and>
    stat_isFile E ''/repo/a/x/index.ts'' \<longrightarrow>
      resolveImport E ''/repo'' ''/repo/a/b.ts'' ''./x'' = Some (Resolved ''/repo/a/x/index.ts'')"
    using ts [of "\<lambda>ext. stat_isFile E (''/repo/a/x/index'' @ ext)"]
    by (simp add: resolveImport_x_cases)
  have c3: "\<not> stat_isFile E ''/repo/a/x'' \<and>
    \<not> (stat_isDirectory E ''/repo/a/x'' \<and>
       (\<exists>ext \<in> set IMPORT_EXTENSIONS. stat_isFile E (''/repo/a/x/index'' @ ext))) \<and>
    stat_isFile E ''/repo/a/x.ts'' \<longrightarrow>
      resolveImport E ''/repo'' ''/repo/a/b.ts'' ''./x'' = Some (Resolved ''/repo/a/x.ts'')"
    using ts [of "\<lambda>ext. stat_isFile E (''/repo/a/x'' @ ext)"]
      none [of "\<lambda>ext. stat_isFile E (''/repo/a/x/index'' @ ext)"]
    by (auto simp: resolveImport_x_cases split: option.splits)
  have c4: "resolveImport E ''/repo'' ''/repo/a/b.ts'' ''./x'' = Some External \<longleftrightarrow>
      \<not> stat_isFile E ''/repo/a/x'' \<and>
      \<not> (stat_isDirectory E ''/repo/a/x'' \<and>
         (\<exists>ext \<in> set IMPORT_EXTENSIONS. stat_isFile E (''/repo/a/x/index'' @ ext))) \<and>
      \<not> (\<exists>ext \<in> set IMPORT_EXTENSIONS. stat_isFile E (''/repo/a/x'' @ ext))"
    using none [of "\<lambda>ext. stat_isFile E (''/repo/a/x/index'' @ ext)"]
      none [of "\<lambda>ext. stat_isFile E (''/repo/a/x'' @ ext)"]
    by (auto simp: resolveImport_x_cases split: option.splits)
  from c1 c2 c3 c4 show ?thesis by blast
qed

lemma index_env_stats:
  "\<not> stat_isFile index_env ''/repo/a/x''"
  "stat_isDirectory index_env ''/repo/a/x''"
  "stat_isFile index_env ''/repo/a/x/index.ts''"
  "stat_isFile index_env ''/repo/a/x.ts''"
  by code_simp+

theorem resolveImport_relative_witness:
  "\<not> stat_isFile index_env ''/repo/a/x'' \<and> stat_isDirectory index_env ''/repo/a/x'' \<and>
   stat_isFile index_env ''/repo/a/x/index.ts'' \<and>
   resolveImport index_env ''/repo'' ''/repo/a/b.ts'' ''./x'' = Some (Resolved ''/repo/a/x/index.ts'')"
  using resolveImport_relative [of index_env] index_env_stats by blast

text \<open>
  Claim C4 as written fails where \<open>a/x.ts\<close> exists beside a directory \<open>a/x\<close> with an
  \<open>index.ts\<close>: the directory is probed first, and \<open>./x\<close> resolves to \<open>a/x/index.ts\<close>.
\<close>

theorem resolveImport_index_first_counterexample:
  "stat_isFile index_env ''/repo/a/x.ts'' \<and>
   resolveImport index_env ''/repo'' ''/repo/a/b.ts'' ''./x'' \<noteq> Some (Resolved ''/repo/a/x.ts'') \<and>
   resolveImport index_env ''/repo'' ''/repo/a/b.ts'' ''./x'' = Some (Resolved ''/repo/a/x/index.ts'')"
  by code_simp

section \<open>Symbol mode\<close>

lemma set_node_fields [simp]:
  "edges (set_node k n st) = edges st"
  "edgeKeys (set_node k n st) = edgeKeys st"
  "symbolMap (set_node k n st) = symbolMap st"
  "externalCount (set_node k n st) = externalCount st"
  by (simp_all add: set_node_def)

lemma push_edge_fields [simp]:
  "edges (push_edge S key src tgt t stmt l st) =
     edges st @ [\<lparr>e_id = s_hashId S key, e_source = src, e_target = tgt, e_type = t,
                  e_statement = stmt, e_loc = l\<rparr>]"
  "edgeKeys (push_edge S key src tgt t stmt l st) = edgeKeys st @ [key]"
  "symbolMap (push_edge S key src tgt t stmt l st) = symbolMap st"
  "externalCount (push_edge S key src tgt t stmt l st) = externalCount st"
  by (simp_all add: push_edge_def)

subsection \<open>The loop body on a state with a given symbol table\<close>


lemma file_edge_edges:
  "edges (file_edge S relPath targetRel dep st) =
     edges st @ (if file_edge_key S relPath targetRel dep \<notin> set (edgeKeys st)
                 then [file_level_edge S relPath targetRel dep] else [])"
  by (simp add: file_edge_def file_edge_key_def file_level_edge_def file_edge_type_def Let_def)



subsection \<open>The symbol table that the symbol pass builds\<close>









text \<open>A file whose program holds \<open>export function foo(){}\<close> exports the symbol \<open>foo\<close>.\<close>

lemma addSymbol_names: "y_name ` set (addSymbol info symbols) = insert (y_name info) (y_name ` set symbols)"
  by (auto simp: addSymbol_def)

lemma exported_declarators_names:
  "y_name ` set symbols \<subseteq> y_name ` set (exported_declarators kind ds symbols)"
  by (induction kind ds symbols rule: exported_declarators.induct)
     (auto simp: addSymbol_names)

lemma exported_specifiers_names:
  "y_name ` set symbols \<subseteq> y_name ` set (exported_specifiers localKinds ss symbols)"
  by (induction localKinds ss symbols rule: exported_specifiers.induct)
     (auto simp: addSymbol_names)

lemma visit_export_names:
  "y_name ` set symbols \<subseteq> y_name ` set (visit_export localKinds node symbols)"
proof (cases node)
  case (ExportNamedDeclaration d specifiers src sp)
  show ?thesis
  proof (cases d)
    case None
    with ExportNamedDeclaration exported_specifiers_names show ?thesis by simp
  next
    case (Some decl)
    with ExportNamedDeclaration exported_declarators_names show ?thesis
      by (cases decl) (auto simp: addSymbol_names split: option.splits)
  qed
next
  case (ExportDefaultDeclaration d)
  then show ?thesis by (cases d) (auto simp: addSymbol_names)
qed simp_all

lemma fold_visit_export_names:
  "y_name ` set symbols \<subseteq> y_name ` set (fold (visit_export localKinds) ast symbols)"
proof (induction ast arbitrary: symbols)
  case Nil
  show ?case by simp
next
  case (Cons node ast)
  from visit_export_names [of symbols localKinds node] Cons [of "visit_export localKinds node symbols"]
  show ?case by auto
qed

lemma fold_visit_export_function:
  assumes "ExportNamedDeclaration (Some (FunctionDeclaration (Some name))) specifiers src sp \<in> set ast"
  shows "name \<in> y_name ` set (fold (visit_export localKinds) ast symbols)"
  using assms
proof (induction ast arbitrary: symbols)
  case Nil
  then show ?case by simp
next
  case (Cons node ast)
  show ?case
  proof (cases "node = ExportNamedDeclaration (Some (FunctionDeclaration (Some name))) specifiers src sp")
    case True
    then have "name \<in> y_name ` set (visit_export localKinds node symbols)"
      by (simp add: addSymbol_names symbol_of_def)
    with fold_visit_export_names [of "visit_export localKinds node symbols" localKinds ast]
    show ?thesis by auto
  next
    case False
    with Cons show ?thesis by simp
  qed
qed

lemma extractSymbols_exported_function:
  assumes "p_extname S filePath \<in> set SCRIPT_EXTENSIONS" and "s_parse S code = Some ast"
    and "ExportNamedDeclaration (Some (FunctionDeclaration (Some name))) specifiers src sp \<in> set ast"
  shows "name \<in> y_name ` set (extractSymbols S filePath code)"
  using assms(1,2) fold_visit_export_function [OF assms(3)]
  by (simp add: extractSymbols_def Let_def)

subsection \<open>The dependency pass keeps the symbol tables\<close>






lemma process_file_steps:
  "process_file S resolve incl gran file st =
     fold (dependency_step S resolve incl gran file) (scanned_dependencies S file) st"
proof -
  have "dependency_step S resolve incl gran file =
      (\<lambda>dep. process_dep S incl gran (f_relPath file) (resolve (f_path file) (d_specifier dep)) dep)"
    by (rule ext)+ (simp add: dependency_step_def)
  then show ?thesis
    by (simp add: process_file_def scanned_dependencies_def split: option.splits)
qed




subsection \<open>The states of the pass are the states of the scan\<close>

lemma fold_split_at:
  assumes "i < length xs"
  shows "fold f xs s = fold f (drop (Suc i) xs) (f (xs ! i) (fold f (take i xs) s))"
proof -
  from assms have "xs = take i xs @ xs ! i # drop (Suc i) xs" by (simp add: id_take_nth_drop)
  then have "fold f xs s = fold f (take i xs @ xs ! i # drop (Suc i) xs) s" by simp
  then show ?thesis by simp
qed

lemma assemble_passes:
  "assemble S resolve incl gran files w =
     fold (process_file S resolve incl gran) files (symbol_pass S gran files w)"
  by (simp add: assemble_def symbol_pass_def start_state_def Let_def)

text \<open>The scan goes through \<open>pass_state \<dots> i j\<close>: it applies the loop body to dependency \<open>j\<close>
  of file \<open>i\<close> there, and goes on with the other dependencies and files.\<close>

lemma assemble_pass_state:
  assumes "i < length files" and "j < length (scanned_dependencies S (files ! i))"
  shows "assemble S resolve incl gran files w =
     fold (process_file S resolve incl gran) (drop (Suc i) files)
       (fold (dependency_step S resolve incl gran (files ! i))
          (drop (Suc j) (scanned_dependencies S (files ! i)))
          (dependency_step S resolve incl gran (files ! i) (scanned_dependencies S (files ! i) ! j)
             (pass_state S resolve incl gran files w i j)))"
  unfolding assemble_passes pass_state_def
  by (subst fold_split_at [OF assms(1)], subst process_file_steps, subst fold_split_at [OF assms(2)])
     (rule refl)

lemma scanProject_pass_state:
  assumes "project_walk S E options = Inr w"
    and "i < length (project_files S E options)"
    and "j < length (scanned_dependencies S (project_files S E options ! i))"
  shows "scanProject S E options =
     Inr (graph_of (path_resolve (v_cwd E) [o_root options]) w
            (fold (process_file S (server_resolve E (path_resolve (v_cwd E) [o_root options]))
                     (o_includeExternal options) (granularity_or_file (o_granularity options)))
               (drop (Suc i) (project_files S E options))
               (fold (project_step S E options (project_files S E options ! i))
                  (drop (Suc j) (scanned_dependencies S (project_files S E options ! i)))
                  (project_step S E options (project_files S E options ! i)
                     (scanned_dependencies S (project_files S E options ! i) ! j)
                     (project_pass_state S E options i j)))))"
proof -
  let ?root = "path_resolve (v_cwd E) [o_root options]"
  have files: "project_files S E options = server_files E ?root (w_filesToParse w)"
    by (simp add: project_files_def assms(1))
  have step: "project_step S E options =
      dependency_step S (server_resolve E ?root) (o_includeExternal options)
        (granularity_or_file (o_granularity options))"
    by (rule ext)+ (simp add: project_step_def)
  have "scanProject S E options =
      Inr (graph_of ?root w
             (assemble S (server_resolve E ?root) (o_includeExternal options)
                (granularity_or_file (o_granularity options))
                (server_files E ?root (w_filesToParse w)) w))"
    using assms(1)
    by (simp add: scanProject_def project_walk_def Let_def split: option.splits fsnode.splits)
  also note assemble_pass_state [OF assms(2,3) [unfolded files]]
  finally show ?thesis
    by (simp add: files step project_pass_state_def assms(1) Let_def)
qed

subsection \<open>The loop body on the states of the scan\<close>



subsection \<open>The edges of a step stay in the graph\<close>

lemma fold_prefix:
  assumes "\<And>x s. prefix (h s) (h (f x s))"
  shows "prefix (h s) (h (fold f xs s))"
proof (induction xs arbitrary: s)
  case Nil
  show ?case by simp
next
  case (Cons x xs)
  from assms [of s x] Cons [of "f x s"] show ?case by (auto intro: prefix_order.trans)
qed

lemma symbol_edge_prefix:
  "prefix (edges (fst acc)) (edges (fst (symbol_edge S relPath targetRel table dep b acc)))"
  by (cases acc) (simp add: symbol_edge_def Let_def split: option.splits)

lemma external_edge_prefix: "prefix (edges st) (edges (external_edge S relPath dep st))"
  by (simp add: external_edge_def Let_def)

lemma process_dep_prefix: "prefix (edges st) (edges (process_dep S incl gran relPath resolved dep st))"
proof (cases resolved)
  case None
  then show ?thesis by (simp add: process_dep_def)
next
  case (Some r)
  show ?thesis
  proof (cases r)
    case External
    from external_edge_prefix [of "st\<lparr>externalCount := externalCount st + 1\<rparr>" S relPath dep]
      Some External
    show ?thesis by (simp add: process_dep_def Let_def)
  next
    case (Resolved targetRel)
    define st1 where
      "st1 = (if \<not> has_node targetRel st then set_node targetRel (file_node S targetRel) st else st)"
    have st1: "edges st1 = edges st" by (simp add: st1_def)
    have fe: "prefix (edges st) (edges (file_edge S relPath targetRel dep st'))"
      if "prefix (edges st) (edges st')" for st'
      using that by (auto simp: file_edge_edges intro: prefix_order.trans)
    show ?thesis
    proof (cases "if gran = SymbolGranularity then d_imports dep else None")
      case None
      with Some Resolved fe [of st1] st1 show ?thesis
        by (simp add: process_dep_def Let_def st1_def [symmetric])
    next
      case bs: (Some bs)
      show ?thesis
      proof (cases bs)
        case Nil
        with bs Some Resolved fe [of st1] st1 show ?thesis
          by (simp add: process_dep_def Let_def st1_def [symmetric])
      next
        case (Cons b bs')
        obtain st2 created where r:
          "(case symbolMap st1 targetRel of
              None \<Rightarrow> (st1, False)
            | Some targetSymbols \<Rightarrow>
                fold (symbol_edge S relPath targetRel targetSymbols dep) (b # bs') (st1, False))
           = (st2, created)"
          by fastforce
        have "prefix (edges st1) (edges st2)"
        proof (cases "symbolMap st1 targetRel")
          case None
          with r show ?thesis by simp
        next
          case (Some table)
          from fold_prefix [where h = "\<lambda>acc. edges (fst acc)"
              and f = "symbol_edge S relPath targetRel table dep" and s = "(st1, False)"
              and xs = "b # bs'", OF symbol_edge_prefix] Some r
          show ?thesis by simp
        qed
        then have p: "prefix (edges st) (edges st2)" by (simp add: st1)
        from Cons bs Some Resolved r p fe [OF p] show ?thesis
          by (simp add: process_dep_def Let_def st1_def [symmetric])
      qed
    qed
  qed
qed

lemma dependency_steps_prefix:
  "prefix (edges st) (edges (fold (dependency_step S resolve incl gran file) deps st))"
  by (rule fold_prefix) (simp add: dependency_step_def process_dep_prefix)

lemma process_files_prefix:
  "prefix (edges st) (edges (fold (process_file S resolve incl gran) files st))"
  by (rule fold_prefix) (simp add: process_file_steps dependency_steps_prefix)

text \<open>The edges that the loop body leaves behind at dependency \<open>j\<close> of file \<open>i\<close> are the first
  edges of the returned graph.\<close>

lemma scanProject_keeps_edges:
  assumes "scanProject S E options = Inr g"
    and "i < length (project_files S E options)"
    and "j < length (scanned_dependencies S (project_files S E options ! i))"
  shows "prefix
     (edges (project_step S E options (project_files S E options ! i)
               (scanned_dependencies S (project_files S E options ! i) ! j)
               (project_pass_state S E options i j)))
     (g_edges g)"
proof -
  from assms(2) obtain w where w: "project_walk S E options = Inr w"
    by (cases "project_walk S E options") (simp_all add: project_files_def)
  have step: "project_step S E options =
      dependency_step S (server_resolve E (path_resolve (v_cwd E) [o_root options]))
        (o_includeExternal options) (granularity_or_file (o_granularity options))"
    by (rule ext)+ (simp add: project_step_def)
  from scanProject_pass_state [OF w assms(2,3)] assms(1)
  show ?thesis
    unfolding step
    by (auto simp: graph_of_def
        intro: prefix_order.trans [OF dependency_steps_prefix process_files_prefix])
qed


text \<open>The symbol scenario, and its scan at the one dependency of \<open>a.ts\<close>.\<close>

lemma symbol_scenario:
  "scanProject (server_scanner symbol_parser simple_ignores sha1) symbol_env symbol_options =
   Inr \<lparr>g_root = ''/repo'',
        g_nodes = [file_node server_paths ''a.ts'', file_node server_paths ''b.ts'',
                   symbol_node ''b.ts'' foo_info],
        g_edges =
          [\<lparr>e_id = sha1 ''b.ts|b.ts::foo|contains'', e_source = ''b.ts'', e_target = ''b.ts::foo'',
            e_type = ContainsEdge, e_statement = None, e_loc = None\<rparr>,
           \<lparr>e_id = sha1 (''a.ts|b.ts::foo|static|'' @ import_foo_code), e_source = ''a.ts'',
            e_target = ''b.ts::foo'', e_type = StaticEdge, e_statement = Some import_foo_code,
            e_loc = Some (1, 0)\<rparr>],
        g_totalFiles = 2, g_ignoredCount = 0, g_externalCount = 0\<rparr>"
  by code_simp









section \<open>Edge identity\<close>

lemma edges_keyed_push:
  assumes "edges_keyed S deps st" and "key \<notin> set (edgeKeys st)"
    and "edge_keyed S deps \<lparr>e_id = s_hashId S key, e_source = src, e_target = tgt, e_type = t,
                             e_statement = stmt, e_loc = l\<rparr> key"
  shows "edges_keyed S deps (push_edge S key src tgt t stmt l st)"
  using assms by (simp add: edges_keyed_def list_all2_appendI)

lemma edges_keyed_set_node [simp]: "edges_keyed S deps (set_node k n st) = edges_keyed S deps st"
  by (simp add: edges_keyed_def)

lemma edges_keyed_count [simp]:
  "edges_keyed S deps (st\<lparr>externalCount := c\<rparr>) = edges_keyed S deps st"
  by (simp add: edges_keyed_def)

lemma edges_keyed_symbolMap [simp]:
  "edges_keyed S deps (st\<lparr>symbolMap := m\<rparr>) = edges_keyed S deps st"
  by (simp add: edges_keyed_def)

lemma add_symbol_keyed:
  "edges_keyed S deps (snd acc) \<Longrightarrow> edges_keyed S deps (snd (add_symbol S relPath info acc))"
  by (cases acc) (auto simp: add_symbol_def Let_def edge_keyed_def intro!: edges_keyed_push)

lemma collect_symbols_keyed:
  assumes "edges_keyed S deps st"
  shows "edges_keyed S deps (collect_symbols S file st)"
proof (cases "f_code file")
  case None
  with assms show ?thesis by (simp add: collect_symbols_def)
next
  case (Some code)
  have inv: "edges_keyed S deps (snd (fold (add_symbol S (f_relPath file)) symbols (Map.empty, st)))"
    for symbols
    by (rule fold_invariant [where P = "\<lambda>acc. edges_keyed S deps (snd acc)"])
       (simp_all add: add_symbol_keyed assms)
  obtain entry st' where f:
    "fold (add_symbol S (f_relPath file)) (extractSymbols S (f_path file) code) (Map.empty, st)
       = (entry, st')"
    by fastforce
  with inv [of "extractSymbols S (f_path file) code"] have "edges_keyed S deps st'" by simp
  with Some f assms show ?thesis by (simp add: collect_symbols_def Let_def)
qed

lemma symbol_edge_keyed:
  assumes "edges_keyed S deps (fst acc)" and "(relPath, dep) \<in> set deps"
  shows "edges_keyed S deps (fst (symbol_edge S relPath targetRel targetSymbols dep binding acc))"
proof -
  obtain st created where acc: "acc = (st, created)" by (cases acc)
  have "edge_keyed S deps
      \<lparr>e_id = s_hashId S (edge_key relPath tgt (d_type dep) (statement_text dep)),
        e_source = relPath, e_target = tgt, e_type = d_type dep,
        e_statement = truncated_statement dep, e_loc = d_loc dep\<rparr>
      (edge_key relPath tgt (d_type dep) (statement_text dep))" for tgt
    using assms(2) by (auto simp: edge_keyed_def)
  with assms(1) show ?thesis
    by (auto simp: acc symbol_edge_def Let_def split: option.splits intro!: edges_keyed_push)
qed

lemma file_edge_keyed:
  assumes "edges_keyed S deps st" and "(relPath, dep) \<in> set deps"
  shows "edges_keyed S deps (file_edge S relPath targetRel dep st)"
proof -
  have "edge_keyed S deps
      \<lparr>e_id = s_hashId S (edge_key relPath targetRel t (statement_text dep)),
        e_source = relPath, e_target = targetRel, e_type = t,
        e_statement = truncated_statement dep, e_loc = d_loc dep\<rparr>
      (edge_key relPath targetRel t (statement_text dep))"
    if "t = d_type dep \<or> t = StyleEdge" for t
    using assms(2) that by (auto simp: edge_keyed_def)
  with assms(1) show ?thesis
    by (auto simp: file_edge_def Let_def intro!: edges_keyed_push)
qed

lemma external_edge_keyed:
  assumes "edges_keyed S deps st" and "(relPath, dep) \<in> set deps"
  shows "edges_keyed S deps (external_edge S relPath dep st)"
proof -
  have "edge_keyed S deps
      \<lparr>e_id = s_hashId S (edge_key relPath ''__external__'' ExternalEdge (d_specifier dep)),
        e_source = relPath, e_target = ''__external__'', e_type = ExternalEdge,
        e_statement = d_statement dep, e_loc = d_loc dep\<rparr>
      (edge_key relPath ''__external__'' ExternalEdge (d_specifier dep))"
    using assms(2) by (auto simp: edge_keyed_def)
  with assms(1) show ?thesis
    by (auto simp: external_edge_def Let_def intro!: edges_keyed_push)
qed

lemma process_dep_keyed:
  assumes "edges_keyed S deps st" and d: "(relPath, dep) \<in> set deps"
  shows "edges_keyed S deps (process_dep S incl gran relPath resolved dep st)"
proof (cases resolved)
  case None
  with assms show ?thesis by (simp add: process_dep_def)
next
  case (Some r)
  show ?thesis
  proof (cases r)
    case External
    have "edges_keyed S deps (external_edge S relPath dep (st\<lparr>externalCount := externalCount st + 1\<rparr>))"
      by (rule external_edge_keyed [OF _ d]) (simp add: assms)
    with Some External assms show ?thesis by (simp add: process_dep_def Let_def)
  next
    case (Resolved targetRel)
    define st1 where
      "st1 = (if \<not> has_node targetRel st then set_node targetRel (file_node S targetRel) st else st)"
    have st1: "edges_keyed S deps st1" using assms by (simp add: st1_def)
    have sym: "edges_keyed S deps (fst (case symbolMap st1 targetRel of
          None \<Rightarrow> (st1, False)
        | Some targetSymbols \<Rightarrow>
            fold (symbol_edge S relPath targetRel targetSymbols dep) bs0 (st1, False)))" for bs0
    proof (cases "symbolMap st1 targetRel")
      case None
      with st1 show ?thesis by simp
    next
      case (Some targetSymbols)
      have "edges_keyed S deps
          (fst (fold (symbol_edge S relPath targetRel targetSymbols dep) bs0 (st1, False)))"
        by (rule fold_invariant [where P = "\<lambda>acc. edges_keyed S deps (fst acc)"])
           (simp_all add: symbol_edge_keyed [OF _ d] st1)
      with Some show ?thesis by simp
    qed
    show ?thesis
    proof (cases "if gran = SymbolGranularity then d_imports dep else None")
      case None
      with Some Resolved st1 show ?thesis
        by (simp add: process_dep_def Let_def st1_def [symmetric] file_edge_keyed [OF _ d])
    next
      case bs: (Some bs)
      show ?thesis
      proof (cases bs)
        case Nil
        with bs Some Resolved st1 show ?thesis
          by (simp add: process_dep_def Let_def st1_def [symmetric] file_edge_keyed [OF _ d])
      next
        case (Cons b bs')
        obtain st2 created where r:
          "(case symbolMap st1 targetRel of
              None \<Rightarrow> (st1, False)
            | Some targetSymbols \<Rightarrow>
                fold (symbol_edge S relPath targetRel targetSymbols dep) (b # bs') (st1, False))
           = (st2, created)"
          by fastforce
        with sym [of "b # bs'"] have "edges_keyed S deps st2" by simp
        with Cons bs Some Resolved r show ?thesis
          by (simp add: process_dep_def Let_def st1_def [symmetric] file_edge_keyed [OF _ d])
      qed
    qed
  qed
qed

lemma fold_invariant_in:
  assumes "\<And>x s. x \<in> set xs \<Longrightarrow> P s \<Longrightarrow> P (f x s)" and "P s"
  shows "P (fold f xs s)"
  using assms by (induction xs arbitrary: s) auto

lemma process_file_keyed:
  assumes "edges_keyed S deps st"
    and "\<forall>dep \<in> set (scanned_dependencies S file). (f_relPath file, dep) \<in> set deps"
  shows "edges_keyed S deps (process_file S resolve incl gran file st)"
  unfolding process_file_steps
  using assms(2)
  by (intro fold_invariant_in [where P = "edges_keyed S deps"] assms(1))
     (simp add: dependency_step_def process_dep_keyed)

lemma scan_dependencies_mem:
  "file \<in> set files \<Longrightarrow> dep \<in> set (scanned_dependencies S file) \<Longrightarrow>
   (f_relPath file, dep) \<in> set (scan_dependencies S files)"
  by (auto simp: scan_dependencies_def)

lemma assemble_keyed:
  "edges_keyed S (scan_dependencies S files) (assemble S resolve incl gran files w)"
proof -
  let ?deps = "scan_dependencies S files"
  have 0: "edges_keyed S ?deps (start_state w)"
    by (simp add: edges_keyed_def start_state_def)
  have "edges_keyed S ?deps (fold (collect_symbols S) files (start_state w))"
    by (rule fold_invariant [where P = "edges_keyed S ?deps"])
       (simp_all add: collect_symbols_keyed 0)
  with 0 have 1: "edges_keyed S ?deps (symbol_pass S gran files w)"
    by (simp add: symbol_pass_def)
  have "edges_keyed S ?deps (fold (process_file S resolve incl gran) files (symbol_pass S gran files w))"
    by (rule fold_invariant_in [where P = "edges_keyed S ?deps", OF _ 1])
       (simp add: process_file_keyed scan_dependencies_mem)
  then show ?thesis by (simp add: assemble_passes)
qed

lemma keyed_ids: "list_all2 (edge_keyed S deps) es ks \<Longrightarrow> map e_id es = map (s_hashId S) ks"
  by (induction rule: list_all2_induct) (auto simp: edge_keyed_def)

lemma scanProject_assembled:
  assumes "scanProject S E options = Inr g"
  shows "\<exists>st. edges_keyed S (scan_dependencies S (project_files S E options)) st \<and>
              g_edges g = edges st"
proof -
  let ?root = "path_resolve (v_cwd E) [o_root options]"
  from assms obtain w where w: "project_walk S E options = Inr w" and
    g: "g = graph_of ?root w
                  (assemble S (server_resolve E ?root) (o_includeExternal options)
                     (granularity_or_file (o_granularity options))
                     (server_files E ?root (w_filesToParse w)) w)"
    by (auto simp: scanProject_def project_walk_def Let_def
        split: option.splits fsnode.splits sum.splits)
  let ?st = "assemble S (server_resolve E ?root) (o_includeExternal options)
                     (granularity_or_file (o_granularity options))
                     (server_files E ?root (w_filesToParse w)) w"
  have "edges_keyed S (scan_dependencies S (project_files S E options)) ?st"
    using assemble_keyed [of S "server_files E ?root (w_filesToParse w)"]
    by (simp add: project_files_def w)
  moreover have "g_edges g = edges ?st" by (simp add: g graph_of_def)
  ultimately show ?thesis by blast
qed

text \<open>Where the hash is injective, the edge ids of a returned graph are pairwise distinct.\<close>

lemma scanProject_edge_ids:
  assumes "scanProject S E options = Inr g" and "inj (s_hashId S)"
  shows "distinct (map e_id (g_edges g))"
proof -
  from scanProject_assembled [OF assms(1)] obtain st where
    st: "edges_keyed S (scan_dependencies S (project_files S E options)) st"
    and e: "g_edges g = edges st"
    by blast
  from st have k: "distinct (edgeKeys st)"
    "list_all2 (edge_keyed S (scan_dependencies S (project_files S E options))) (edges st) (edgeKeys st)"
    by (simp_all add: edges_keyed_def)
  show ?thesis
    unfolding e using keyed_ids [OF k(2)] k(1) assms(2)
    by (auto simp: distinct_map inj_on_def dest: injD)
qed

text \<open>
  Claim C1, as the code has it. For every returned graph there are pairwise distinct keys, one
  for each edge in order, such that the edge's id is the hash of its key. The key of a contains
  edge is \<open>source|target|contains\<close>. Every other edge comes from a dependency that
  \<open>extractDependencies\<close> reads from its source file: the key of an external edge is
  \<open>source|__external__|external|specifier\<close> with the specifier of that dependency, and the key
  of every other edge is \<open>source|target|type|statement\<close> with the whole statement of that
  dependency, of which the edge stores the first 200 characters.
\<close>

theorem scanProject_edge_keys:
  assumes "scanProject S E options = Inr g"
  shows "\<exists>keys. distinct keys \<and>
           list_all2 (edge_keyed S (scan_dependencies S (project_files S E options))) (g_edges g) keys"
  using scanProject_assembled [OF assms] by (auto simp: edges_keyed_def)

lemma long_scenario:
  "scanProject (server_scanner (table_parser [(long_code, long_ast), (export_x_code, export_x_ast)])
       simple_ignores sha1) long_env (default_options ''/repo'') =
   Inr \<lparr>g_root = ''/repo'',
        g_nodes = [file_node server_paths ''a.ts'', file_node server_paths ''b.ts''],
        g_edges =
          [\<lparr>e_id = sha1 (''a.ts|b.ts|static|'' @ long_import 200 @ '';''), e_source = ''a.ts'',
            e_target = ''b.ts'', e_type = StaticEdge,
            e_statement = Some (''import'' @ replicate 194 (CHR '' '')), e_loc = Some (1, 0)\<rparr>,
           \<lparr>e_id = sha1 (''a.ts|b.ts|static|'' @ long_import 201), e_source = ''a.ts'',
            e_target = ''b.ts'', e_type = StaticEdge,
            e_statement = Some (''import'' @ replicate 194 (CHR '' '')), e_loc = Some (1, 212)\<rparr>],
        g_totalFiles = 2, g_ignoredCount = 0, g_externalCount = 0\<rparr>"
  by code_simp

theorem scanProject_edge_keys_witness:
  "scanProject long_scanner long_env (default_options ''/repo'') =
     Inr \<lparr>g_root = ''/repo'',
          g_nodes = [file_node server_paths ''a.ts'', file_node server_paths ''b.ts''],
          g_edges =
            [\<lparr>e_id = hashId (''a.ts|b.ts|static|'' @ long_import 200 @ '';''), e_source = ''a.ts'',
              e_target = ''b.ts'', e_type = StaticEdge,
              e_statement = Some (''import'' @ replicate 194 (CHR '' '')), e_loc = Some (1, 0)\<rparr>,
             \<lparr>e_id = hashId (''a.ts|b.ts|static|'' @ long_import 201), e_source = ''a.ts'',
              e_target = ''b.ts'', e_type = StaticEdge,
              e_statement = Some (''import'' @ replicate 194 (CHR '' '')), e_loc = Some (1, 212)\<rparr>],
          g_totalFiles = 2, g_ignoredCount = 0, g_externalCount = 0\<rparr> \<and>
   (\<exists>keys. distinct keys \<and>
      list_all2 (edge_keyed long_scanner
                   (scan_dependencies long_scanner
                      (project_files long_scanner long_env (default_options ''/repo''))))
        [\<lparr>e_id = hashId (''a.ts|b.ts|static|'' @ long_import 200 @ '';''), e_source = ''a.ts'',
          e_target = ''b.ts'', e_type = StaticEdge,
          e_statement = Some (''import'' @ replicate 194 (CHR '' '')), e_loc = Some (1, 0)\<rparr>,
         \<lparr>e_id = hashId (''a.ts|b.ts|static|'' @ long_import 201), e_source = ''a.ts'',
          e_target = ''b.ts'', e_type = StaticEdge,
          e_statement = Some (''import'' @ replicate 194 (CHR '' '')), e_loc = Some (1, 212)\<rparr>]
        keys)"
proof -
  note h = long_scenario [of hashId, folded long_scanner_def]
  from scanProject_edge_keys [OF h] h show ?thesis by simp
qed

text \<open>
  Claim C1 as written fails: the two imports of the long-statement example have different
  statements and so different keys, but the same first 200 characters. The graph holds two
  edges that agree on source, target, type and statement.
\<close>

theorem scanProject_truncated_statement_counterexample:
  "scanProject long_scanner long_env (default_options ''/repo'') =
     Inr \<lparr>g_root = ''/repo'',
          g_nodes = [file_node server_paths ''a.ts'', file_node server_paths ''b.ts''],
          g_edges =
            [\<lparr>e_id = hashId (''a.ts|b.ts|static|'' @ long_import 200 @ '';''), e_source = ''a.ts'',
              e_target = ''b.ts'', e_type = StaticEdge,
              e_statement = Some (''import'' @ replicate 194 (CHR '' '')), e_loc = Some (1, 0)\<rparr>,
             \<lparr>e_id = hashId (''a.ts|b.ts|static|'' @ long_import 201), e_source = ''a.ts'',
              e_target = ''b.ts'', e_type = StaticEdge,
              e_statement = Some (''import'' @ replicate 194 (CHR '' '')), e_loc = Some (1, 212)\<rparr>],
          g_totalFiles = 2, g_ignoredCount = 0, g_externalCount = 0\<rparr>"
  unfolding long_scanner_def by (rule long_scenario)

section \<open>Keys without a stray separator\<close>

lemma split_at_bar:
  assumes "BAR \<notin> set a" and "BAR \<notin> set a'" and "a @ BAR # r = a' @ BAR # r'"
  shows "a = a' \<and> r = r'"
  using assms
proof (induction a arbitrary: a')
  case Nil
  then show ?case by (cases a') auto
next
  case (Cons x a)
  then show ?case by (cases a') auto
qed

lemma edge_type_name_no_bar [simp]: "BAR \<notin> set (edge_type_name t)"
  by (cases t) auto

lemma edge_type_name_inj: "edge_type_name t = edge_type_name t' \<Longrightarrow> t = t'"
  by (cases t; cases t') auto

lemma edge_key_inj:
  assumes "BAR \<notin> set a" "BAR \<notin> set a'" "BAR \<notin> set b" "BAR \<notin> set b'"
    and "edge_key a b t x = edge_key a' b' t' x'"
  shows "a = a' \<and> b = b' \<and> t = t' \<and> x = x'"
proof -
  from assms(5) have "a @ BAR # (b @ BAR # (edge_type_name t @ BAR # x))
      = a' @ BAR # (b' @ BAR # (edge_type_name t' @ BAR # x'))"
    by (simp add: edge_key_def)
  from split_at_bar [OF assms(1,2) this]
  have a: "a = a'" and 1: "b @ BAR # (edge_type_name t @ BAR # x) = b' @ BAR # (edge_type_name t' @ BAR # x')"
    by simp_all
  from split_at_bar [OF assms(3,4) 1]
  have b: "b = b'" and 2: "edge_type_name t @ BAR # x = edge_type_name t' @ BAR # x'"
    by simp_all
  from split_at_bar [OF _ _ 2] have "edge_type_name t = edge_type_name t'" "x = x'" by simp_all
  with a b show ?thesis by (simp add: edge_type_name_inj)
qed

lemma first_part:
  assumes "BAR \<notin> set a" and "a @ BAR # r = b @ BAR # r'"
  shows "a = takeWhile (\<lambda>c. c \<noteq> BAR) b"
proof -
  have "takeWhile (\<lambda>c. c \<noteq> BAR) (a @ BAR # r) = takeWhile (\<lambda>c. c \<noteq> BAR) a"
    by (rule takeWhile_tail) simp
  also have "\<dots> = a" using assms(1) by (auto simp: takeWhile_eq_all_conv)
  finally have "takeWhile (\<lambda>c. c \<noteq> BAR) (a @ BAR # r) = a" .
  moreover have "takeWhile (\<lambda>c. c \<noteq> BAR) (b @ BAR # r') = takeWhile (\<lambda>c. c \<noteq> BAR) b"
    by (rule takeWhile_tail) simp
  ultimately show ?thesis using assms(2) by simp
qed

text \<open>The key of an edge to a symbol or of a contains edge is no key of an external edge: its
  second part holds \<open>::\<close>. Nor is the key of an edge to a file other than \<open>__external__\<close>.\<close>

lemma symbol_target_not_sentinel:
  assumes "BAR \<notin> set t"
  shows "''__external__'' \<noteq> takeWhile (\<lambda>c. c \<noteq> BAR) (t @ ''::'' @ name)"
proof -
  from assms have "takeWhile (\<lambda>c. c \<noteq> BAR) (t @ ''::'' @ name)
      = t @ takeWhile (\<lambda>c. c \<noteq> BAR) (''::'' @ name)"
    by (subst takeWhile_append2) auto
  then have "CHR '':'' \<in> set (takeWhile (\<lambda>c. c \<noteq> BAR) (t @ ''::'' @ name))" by simp
  moreover have "CHR '':'' \<notin> set ''__external__''" by simp
  ultimately show ?thesis by metis
qed

lemma symbol_key_not_external:
  assumes "BAR \<notin> set rel" and "\<forall>r \<in> rels. BAR \<notin> set r" and "BAR \<notin> set t"
  shows "edge_key rel (t @ ''::'' @ name) ty text \<notin> external_keys rels"
proof
  assume "edge_key rel (t @ ''::'' @ name) ty text \<in> external_keys rels"
  then obtain rel' spec where rel': "rel' \<in> rels"
    and k: "edge_key rel (t @ ''::'' @ name) ty text = edge_key rel' ''__external__'' ExternalEdge spec"
    by (auto simp: external_keys_def)
  from k have "rel @ BAR # ((t @ ''::'' @ name) @ BAR # (edge_type_name ty @ BAR # text))
      = rel' @ BAR # (''__external__'' @ BAR # (''external'' @ BAR # spec))"
    by (simp add: edge_key_def)
  moreover from rel' assms(2) have "BAR \<notin> set rel'" by blast
  ultimately have "(t @ ''::'' @ name) @ BAR # (edge_type_name ty @ BAR # text)
      = ''__external__'' @ BAR # (''external'' @ BAR # spec)"
    using split_at_bar [OF assms(1)] by blast
  from first_part [OF _ this [symmetric]]
  have "''__external__'' = takeWhile (\<lambda>c. c \<noteq> BAR) (t @ ''::'' @ name)" by simp
  with symbol_target_not_sentinel [OF assms(3)] show False by blast
qed

lemma contains_key_not_external:
  assumes "BAR \<notin> set rel" and "\<forall>r \<in> rels. BAR \<notin> set r"
  shows "rel @ ''|'' @ (rel @ ''::'' @ name) @ ''|contains'' \<notin> external_keys rels"
proof
  assume "rel @ ''|'' @ (rel @ ''::'' @ name) @ ''|contains'' \<in> external_keys rels"
  then obtain rel' spec where rel': "rel' \<in> rels"
    and k: "rel @ ''|'' @ (rel @ ''::'' @ name) @ ''|contains''
            = edge_key rel' ''__external__'' ExternalEdge spec"
    by (auto simp: external_keys_def)
  from k have "rel @ BAR # ((rel @ ''::'' @ name) @ BAR # ''contains'')
      = rel' @ BAR # (''__external__'' @ BAR # (''external'' @ BAR # spec))"
    by (simp add: edge_key_def)
  moreover from rel' assms(2) have "BAR \<notin> set rel'" by blast
  ultimately have "(rel @ ''::'' @ name) @ BAR # ''contains''
      = ''__external__'' @ BAR # (''external'' @ BAR # spec)"
    using split_at_bar [OF assms(1)] by blast
  from first_part [OF _ this [symmetric]]
  have "''__external__'' = takeWhile (\<lambda>c. c \<noteq> BAR) (rel @ ''::'' @ name)" by simp
  with symbol_target_not_sentinel [OF assms(1)] show False by blast
qed

lemma file_key_not_external:
  assumes "BAR \<notin> set rel" and "\<forall>r \<in> rels. BAR \<notin> set r" and "BAR \<notin> set t"
    and "t \<noteq> ''__external__''"
  shows "edge_key rel t ty text \<notin> external_keys rels"
proof
  assume "edge_key rel t ty text \<in> external_keys rels"
  then obtain rel' spec where rel': "rel' \<in> rels"
    and k: "edge_key rel t ty text = edge_key rel' ''__external__'' ExternalEdge spec"
    by (auto simp: external_keys_def)
  from rel' assms(2) have "BAR \<notin> set rel'" by blast
  from edge_key_inj [OF assms(1) this assms(3) _ k] assms(4) show False by simp
qed

section \<open>The run that shows external references and the run that hides them\<close>

lemma map_of_filter_other:
  "t \<noteq> x \<Longrightarrow> map_of (filter (\<lambda>(k, n). k \<noteq> x) ns) t = map_of ns t"
  by (induction ns) auto

lemma filter_update_other:
  "t \<noteq> x \<Longrightarrow> filter (\<lambda>(k, n). k \<noteq> x) (AList.update t v ns)
     = AList.update t v (filter (\<lambda>(k, n). k \<noteq> x) ns)"
  by (induction ns) auto

lemma filter_update_same:
  "filter (\<lambda>(k, n). k \<noteq> x) (AList.update x v ns) = filter (\<lambda>(k, n). k \<noteq> x) ns"
  by (induction ns) auto

lemma shown_hidden_has_node:
  "shown_hidden rels shown hidden \<Longrightarrow> t \<noteq> ''__external__'' \<Longrightarrow>
   has_node t hidden = has_node t shown"
  by (simp add: shown_hidden_def has_node_def map_of_filter_other)

lemma shown_hidden_key:
  "shown_hidden rels shown hidden \<Longrightarrow> k \<notin> external_keys rels \<Longrightarrow>
   k \<in> set (edgeKeys hidden) \<longleftrightarrow> k \<in> set (edgeKeys shown)"
  by (simp add: shown_hidden_def)

lemma shown_hidden_set_node:
  "shown_hidden rels shown hidden \<Longrightarrow> t \<noteq> ''__external__'' \<Longrightarrow>
   shown_hidden rels (set_node t n shown) (set_node t n hidden)"
  by (simp add: shown_hidden_def set_node_def filter_update_other)

lemma shown_hidden_push:
  "shown_hidden rels shown hidden \<Longrightarrow> k \<notin> external_keys rels \<Longrightarrow> t \<noteq> ExternalEdge \<Longrightarrow>
   shown_hidden rels (push_edge S k src tgt t stmt l shown) (push_edge S k src tgt t stmt l hidden)"
  by (simp add: shown_hidden_def push_edge_def)

lemma shown_hidden_external_edge:
  assumes "shown_hidden rels shown hidden" and "rel \<in> rels"
  shows "shown_hidden rels (external_edge S rel dep shown) hidden"
proof -
  have k: "edge_key rel ''__external__'' ExternalEdge (d_specifier dep) \<in> external_keys rels"
    using assms(2) by (auto simp: external_keys_def)
  with assms(1) show ?thesis
    by (simp add: external_edge_def Let_def shown_hidden_def set_node_def push_edge_def
        filter_update_same)
qed

lemma shown_hidden_symbol_edge:
  assumes "shown_hidden rels shown hidden" and "rel \<in> rels" and "\<forall>r \<in> rels. BAR \<notin> set r"
    and "BAR \<notin> set t" and "d_type dep \<noteq> ExternalEdge"
  shows "shown_hidden rels (fst (symbol_edge S rel t table dep binding (shown, c)))
                           (fst (symbol_edge S rel t table dep binding (hidden, c))) \<and>
         snd (symbol_edge S rel t table dep binding (shown, c))
           = snd (symbol_edge S rel t table dep binding (hidden, c))"
proof -
  have k: "edge_key rel (t @ ''::'' @ name) (d_type dep) (statement_text dep) \<notin> external_keys rels"
    for name
    using assms(2,3,4) by (intro symbol_key_not_external) auto
  show ?thesis
    using assms(1,5) k shown_hidden_key [OF assms(1) k]
    by (auto simp: symbol_edge_def Let_def shown_hidden_push split: option.splits)
qed

lemma shown_hidden_symbol_edges:
  assumes "shown_hidden rels shown hidden" and "rel \<in> rels" and "\<forall>r \<in> rels. BAR \<notin> set r"
    and "BAR \<notin> set t" and "d_type dep \<noteq> ExternalEdge"
  shows "shown_hidden rels (fst (fold (symbol_edge S rel t table dep) bs (shown, c)))
                           (fst (fold (symbol_edge S rel t table dep) bs (hidden, c))) \<and>
         snd (fold (symbol_edge S rel t table dep) bs (shown, c))
           = snd (fold (symbol_edge S rel t table dep) bs (hidden, c))"
  using assms(1)
proof (induction bs arbitrary: shown hidden c)
  case Nil
  then show ?case by simp
next
  case (Cons b bs)
  obtain s1 c1 where s: "symbol_edge S rel t table dep b (shown, c) = (s1, c1)" by fastforce
  obtain h1 c2 where h: "symbol_edge S rel t table dep b (hidden, c) = (h1, c2)" by fastforce
  from shown_hidden_symbol_edge [OF Cons.prems assms(2-5), of S table b c] s h
  have "shown_hidden rels s1 h1" "c1 = c2" by simp_all
  with Cons.IH [of s1 h1 c1] s h show ?case by simp
qed

lemma shown_hidden_file_edge:
  assumes "shown_hidden rels shown hidden" and "rel \<in> rels" and "\<forall>r \<in> rels. BAR \<notin> set r"
    and "BAR \<notin> set t" and "t \<noteq> ''__external__''" and "d_type dep \<noteq> ExternalEdge"
  shows "shown_hidden rels (file_edge S rel t dep shown) (file_edge S rel t dep hidden)"
proof -
  have k: "edge_key rel t ty (statement_text dep) \<notin> external_keys rels" for ty
    using assms(2,3,4,5) by (intro file_key_not_external) auto
  show ?thesis
    using assms(1,6) k shown_hidden_key [OF assms(1) k]
    by (auto simp: file_edge_def Let_def shown_hidden_push)
qed

lemma shown_hidden_process_dep:
  assumes "shown_hidden rels shown hidden" and "rel \<in> rels" and "\<forall>r \<in> rels. BAR \<notin> set r"
    and "d_type dep \<noteq> ExternalEdge"
    and "\<And>t. resolved = Some (Resolved t) \<Longrightarrow> t \<noteq> ''__external__'' \<and> BAR \<notin> set t"
  shows "shown_hidden rels (process_dep S True gran rel resolved dep shown)
                           (process_dep S False gran rel resolved dep hidden)"
proof (cases resolved)
  case None
  with assms(1) show ?thesis by (simp add: process_dep_def)
next
  case (Some r)
  show ?thesis
  proof (cases r)
    case External
    from assms(1) have "shown_hidden rels (shown\<lparr>externalCount := externalCount shown + 1\<rparr>)
                                          (hidden\<lparr>externalCount := externalCount hidden + 1\<rparr>)"
      by (simp add: shown_hidden_def)
    from shown_hidden_external_edge [OF this assms(2)] Some External show ?thesis
      by (simp add: process_dep_def Let_def)
  next
    case (Resolved t)
    with Some assms(5) have t: "t \<noteq> ''__external__''" "BAR \<notin> set t" by simp_all
    define s1 where "s1 = (if \<not> has_node t shown then set_node t (file_node S t) shown else shown)"
    define h1 where "h1 = (if \<not> has_node t hidden then set_node t (file_node S t) hidden else hidden)"
    have r1: "shown_hidden rels s1 h1"
      using assms(1) t(1) shown_hidden_has_node [OF assms(1) t(1)]
      by (simp add: s1_def h1_def shown_hidden_set_node)
    then have m: "symbolMap h1 = symbolMap s1" by (simp add: shown_hidden_def)
    note fe = shown_hidden_file_edge [where S = S, OF _ assms(2,3) t(2,1) assms(4)]
    show ?thesis
    proof (cases "if gran = SymbolGranularity then d_imports dep else None")
      case None
      with Some Resolved fe [OF r1] show ?thesis
        by (simp add: process_dep_def Let_def s1_def [symmetric] h1_def [symmetric])
    next
      case bs: (Some bs)
      show ?thesis
      proof (cases bs)
        case Nil
        with bs Some Resolved fe [OF r1] show ?thesis
          by (simp add: process_dep_def Let_def s1_def [symmetric] h1_def [symmetric])
      next
        case (Cons b bs')
        show ?thesis
        proof (cases "symbolMap s1 t")
          case None
          with m Cons bs Some Resolved fe [OF r1] show ?thesis
            by (simp add: process_dep_def Let_def s1_def [symmetric] h1_def [symmetric])
        next
          case table: (Some table)
          obtain s2 c where s: "fold (symbol_edge S rel t table dep) (b # bs') (s1, False) = (s2, c)"
            by fastforce
          obtain h2 c' where h: "fold (symbol_edge S rel t table dep) (b # bs') (h1, False) = (h2, c')"
            by fastforce
          from shown_hidden_symbol_edges [OF r1 assms(2,3) t(2) assms(4), of S table "b # bs'" False] s h
          have r2: "shown_hidden rels s2 h2" and c: "c = c'" by simp_all
          from table m Cons bs Some Resolved s h c r2 fe [OF r2] show ?thesis
            by (simp add: process_dep_def Let_def s1_def [symmetric] h1_def [symmetric]
                del: fold_simps)
        qed
      qed
    qed
  qed
qed

lemma visit_dependencies_types:
  assumes "dep \<in> set (visit_dependencies code node)"
  shows "d_type dep \<noteq> ExternalEdge"
proof (cases node)
  case (CallExpression c arguments sp)
  show ?thesis
  proof (cases arguments)
    case Nil
    with CallExpression assms show ?thesis
      by (cases "c = Import"; cases "c = Identifier ''require''") simp_all
  next
    case (Cons a others)
    with CallExpression assms show ?thesis
      by (cases a; cases "c = Import"; cases "c = Identifier ''require''")
         (simp_all add: script_dependency_def)
  qed
next
  case (ImportDeclaration v specifiers sp)
  with assms show ?thesis by (auto simp: script_dependency_def)
next
  case (ExportAllDeclaration src sp)
  with assms show ?thesis by (auto simp: script_dependency_def split: option.splits)
next
  case (ExportNamedDeclaration decl specifiers src sp)
  with assms show ?thesis by (auto simp: script_dependency_def split: option.splits)
next
  case (ExportDefaultDeclaration d)
  with assms show ?thesis by simp
next
  case (Declaration d top)
  with assms show ?thesis by simp
next
  case OtherNode
  with assms show ?thesis by simp
qed

lemma style_dependencies_types:
  "dep \<in> set (style_dependencies code) \<Longrightarrow> d_type dep \<noteq> ExternalEdge"
  by (induction code rule: style_dependencies.induct) (auto split: option.splits)

lemma extractDependencies_types:
  "dep \<in> set (extractDependencies S filePath code) \<Longrightarrow> d_type dep \<noteq> ExternalEdge"
  by (auto simp: extractDependencies_def split: if_splits option.splits
      dest: visit_dependencies_types style_dependencies_types)

lemma fold_related:
  assumes "\<And>x s t. x \<in> set xs \<Longrightarrow> R s t \<Longrightarrow> R (f x s) (g x t)" and "R s t"
  shows "R (fold f xs s) (fold g xs t)"
  using assms by (induction xs arbitrary: s t) auto

lemma scanned_dependencies_types:
  "dep \<in> set (scanned_dependencies S file) \<Longrightarrow> d_type dep \<noteq> ExternalEdge"
  by (auto simp: scanned_dependencies_def split: option.splits if_splits
      dest: extractDependencies_types)

lemma shown_hidden_process_file:
  assumes "shown_hidden rels shown hidden" and "f_relPath file \<in> rels"
    and "\<forall>r \<in> rels. BAR \<notin> set r"
    and "\<And>dep t. dep \<in> set (scanned_dependencies S file) \<Longrightarrow>
           resolve (f_path file) (d_specifier dep) = Some (Resolved t) \<Longrightarrow>
           t \<noteq> ''__external__'' \<and> BAR \<notin> set t"
  shows "shown_hidden rels (process_file S resolve True gran file shown)
                           (process_file S resolve False gran file hidden)"
  unfolding process_file_steps
proof (rule fold_related [where R = "shown_hidden rels", OF _ assms(1)])
  fix dep s t
  assume dep: "dep \<in> set (scanned_dependencies S file)" and r: "shown_hidden rels s t"
  from assms(4) [OF dep]
  show "shown_hidden rels (dependency_step S resolve True gran file dep s)
                          (dependency_step S resolve False gran file dep t)"
    unfolding dependency_step_def
    by (intro shown_hidden_process_dep [OF r assms(2,3) scanned_dependencies_types [OF dep]]) blast
qed

lemma shown_hidden_self:
  "shown_hidden rels st st \<longleftrightarrow>
     ''__external__'' \<notin> fst ` set (nodes st) \<and>
     (\<forall>e \<in> set (edges st). e_type e \<noteq> ExternalEdge) \<and>
     (\<forall>k \<in> set (edgeKeys st). k \<notin> external_keys rels)"
proof -
  have "(nodes st = filter (\<lambda>(k, n). k \<noteq> ''__external__'') (nodes st))
      \<longleftrightarrow> ''__external__'' \<notin> fst ` set (nodes st)"
    by (subst eq_commute, subst filter_id_conv) force
  moreover have "(edges st = filter (\<lambda>e. e_type e \<noteq> ExternalEdge) (edges st))
      \<longleftrightarrow> (\<forall>e \<in> set (edges st). e_type e \<noteq> ExternalEdge)"
    by (subst eq_commute, subst filter_id_conv) simp
  moreover have "(edgeKeys st = filter (\<lambda>k. k \<notin> external_keys rels) (edgeKeys st))
      \<longleftrightarrow> (\<forall>k \<in> set (edgeKeys st). k \<notin> external_keys rels)"
    by (subst eq_commute, subst filter_id_conv) simp
  ultimately show ?thesis by (simp add: shown_hidden_def)
qed

lemma symbol_id_not_sentinel: "rel @ ''::'' @ name \<noteq> ''__external__''"
proof
  assume "rel @ ''::'' @ name = ''__external__''"
  then have "CHR '':'' \<in> set ''__external__''" by (metis in_set_conv_decomp append_Cons)
  then show False by simp
qed

lemma add_symbol_self:
  assumes "shown_hidden rels (snd acc) (snd acc)" and "rel \<in> rels" and "\<forall>r \<in> rels. BAR \<notin> set r"
  shows "shown_hidden rels (snd (add_symbol S rel info acc)) (snd (add_symbol S rel info acc))"
proof -
  obtain entry st where acc: "acc = (entry, st)" by (cases acc)
  from assms(2,3) have bar: "BAR \<notin> set rel" by blast
  define st1 where "st1 = (if \<not> has_node (rel @ ''::'' @ y_name info) st
      then set_node (rel @ ''::'' @ y_name info) (symbol_node rel info) st else st)"
  have 1: "shown_hidden rels st1 st1"
    using assms(1) acc symbol_id_not_sentinel [of rel "y_name info"]
    by (simp add: st1_def shown_hidden_set_node)
  have 2: "shown_hidden rels
      (push_edge S (rel @ ''|'' @ (rel @ ''::'' @ y_name info) @ ''|contains'') rel
         (rel @ ''::'' @ y_name info) ContainsEdge None None st1)
      (push_edge S (rel @ ''|'' @ (rel @ ''::'' @ y_name info) @ ''|contains'') rel
         (rel @ ''::'' @ y_name info) ContainsEdge None None st1)"
    by (rule shown_hidden_push [OF 1 contains_key_not_external [OF bar assms(3)]]) simp
  have "snd (add_symbol S rel info acc) =
      (if rel @ ''|'' @ (rel @ ''::'' @ y_name info) @ ''|contains'' \<notin> set (edgeKeys st1)
       then push_edge S (rel @ ''|'' @ (rel @ ''::'' @ y_name info) @ ''|contains'') rel
              (rel @ ''::'' @ y_name info) ContainsEdge None None st1
       else st1)"
    by (simp add: acc add_symbol_def Let_def st1_def)
  with 1 2 show ?thesis
    by (cases "rel @ ''|'' @ (rel @ ''::'' @ y_name info) @ ''|contains'' \<in> set (edgeKeys st1)")
       (simp_all only: if_True if_False not_True_eq_False not_False_eq_True)
qed

lemma collect_symbols_self:
  assumes "shown_hidden rels st st" and "f_relPath file \<in> rels" and "\<forall>r \<in> rels. BAR \<notin> set r"
  shows "shown_hidden rels (collect_symbols S file st) (collect_symbols S file st)"
proof (cases "f_code file")
  case None
  with assms(1) show ?thesis by (simp add: collect_symbols_def)
next
  case (Some code)
  have inv: "shown_hidden rels
      (snd (fold (add_symbol S (f_relPath file)) symbols (Map.empty, st)))
      (snd (fold (add_symbol S (f_relPath file)) symbols (Map.empty, st)))" for symbols
    by (rule fold_invariant [where P = "\<lambda>acc. shown_hidden rels (snd acc) (snd acc)"])
       (simp_all add: add_symbol_self assms)
  obtain entry st' where f:
    "fold (add_symbol S (f_relPath file)) (extractSymbols S (f_path file) code) (Map.empty, st)
       = (entry, st')"
    by fastforce
  with inv [of "extractSymbols S (f_path file) code"] have "shown_hidden rels st' st'" by simp
  then have "shown_hidden rels (st'\<lparr>symbolMap := m\<rparr>) (st'\<lparr>symbolMap := m\<rparr>)" for m
    by (simp add: shown_hidden_def)
  with Some f assms(1) show ?thesis by (simp add: collect_symbols_def Let_def)
qed

lemma ignored_nodes_keys:
  "fst ` set (fold (\<lambda>ignoredNode. AList.update (n_id ignoredNode) ignoredNode) ns al)
     = fst ` set al \<union> n_id ` set ns"
  by (induction ns arbitrary: al) (auto simp: dom_update)

lemma shown_hidden_assemble:
  assumes "names_apart S resolve files"
    and "''__external__'' \<notin> fst ` set (w_nodes w)"
    and "''__external__'' \<notin> n_id ` set (w_ignoredNodes w)"
  shows "shown_hidden (f_relPath ` set files)
           (assemble S resolve True gran files w) (assemble S resolve False gran files w)"
proof -
  let ?rels = "f_relPath ` set files"
  let ?st0 = "\<lparr>nodes = fold (\<lambda>ignoredNode. AList.update (n_id ignoredNode) ignoredNode)
                            (w_ignoredNodes w) (w_nodes w),
                 edges = [], edgeKeys = [], symbolMap = Map.empty, externalCount = 0\<rparr>"
  let ?st1 = "if gran = SymbolGranularity then fold (collect_symbols S) files ?st0 else ?st0"
  from assms(1) have bars: "\<forall>r \<in> ?rels. BAR \<notin> set r" by (auto simp: names_apart_def)
  have 0: "shown_hidden ?rels ?st0 ?st0"
    using assms(2,3) by (simp add: shown_hidden_self ignored_nodes_keys)
  have "shown_hidden ?rels (fold (collect_symbols S) files ?st0) (fold (collect_symbols S) files ?st0)"
    by (rule fold_related [where R = "\<lambda>s t. shown_hidden ?rels s s \<and> t = s", THEN conjunct1])
       (auto intro!: collect_symbols_self bars 0)
  with 0 have 1: "shown_hidden ?rels ?st1 ?st1" by simp
  have "shown_hidden ?rels (fold (process_file S resolve True gran) files ?st1)
                            (fold (process_file S resolve False gran) files ?st1)"
  proof (rule fold_related [where R = "shown_hidden ?rels", OF _ 1])
    fix src s t
    assume src: "src \<in> set files" and r: "shown_hidden ?rels s t"
    have "t' \<noteq> ''__external__'' \<and> BAR \<notin> set t'"
      if "dep \<in> set (scanned_dependencies S src)"
        and "resolve (f_path src) (d_specifier dep) = Some (Resolved t')" for dep t'
    proof -
      from assms(1) src that(1) have
        "case resolve (f_path src) (d_specifier dep) of
           Some (Resolved targetRel) \<Rightarrow> targetRel \<noteq> ''__external__'' \<and> BAR \<notin> set targetRel
         | _ \<Rightarrow> True"
        unfolding names_apart_def by blast
      with that(2) show ?thesis by simp
    qed
    with src r bars show "shown_hidden ?rels (process_file S resolve True gran src s)
                                              (process_file S resolve False gran src t)"
      by (intro shown_hidden_process_file) auto
  qed
  then show ?thesis by (simp add: assemble_def Let_def)
qed

lemma filter_node_ids:
  "list_all (\<lambda>(k, n). n_id n = k) ns \<Longrightarrow>
   map snd (filter (\<lambda>(k, n). k \<noteq> x) ns) = filter (\<lambda>n. n_id n \<noteq> x) (map snd ns)"
  by (induction ns) auto

lemma scanProject_walk:
  "scanProject S E options =
     (case project_walk S E options of
        Inl e \<Rightarrow> Inl e
      | Inr w \<Rightarrow>
          Inr (graph_of (path_resolve (v_cwd E) [o_root options]) w
                 (assemble S (server_resolve E (path_resolve (v_cwd E) [o_root options]))
                    (o_includeExternal options) (granularity_or_file (o_granularity options))
                    (server_files E (path_resolve (v_cwd E) [o_root options]) (w_filesToParse w)) w)))"
  by (simp add: scanProject_def project_walk_def Let_def split: option.splits fsnode.splits)

lemma project_walk_includeExternal [simp]:
  "project_walk S E (options\<lparr>o_includeExternal := b\<rparr>) = project_walk S E options"
  by (simp add: project_walk_def cong: option.case_cong fsnode.case_cong)

lemma project_walk_nodes_ok:
  assumes "project_walk S E options = Inr w"
  shows "nodes_ok (w_nodes w)"
proof -
  have "nodes_ok (w_nodes start_walk)" by (simp add: start_walk_def nodes_ok_def)
  with assms show ?thesis
    by (auto simp: project_walk_def server_walk_def Let_def
        split: option.splits fsnode.splits intro: server_walk_entries_nodes_ok)
qed

text \<open>
  Where the names of the scan are kept apart (no scanned path holds the separator \<open>|\<close>, no
  dependency resolves to a path that holds it or that is \<open>__external__\<close>, and the walk
  entered no node under that id) the run that hides external references returns the root,
  the counts, the nodes and the edges of the run that shows them, less the sentinel node and
  the edges of type \<open>external\<close>. When the walk fails, both runs fail with its error.
\<close>

lemma scanProject_shown_hidden:
  assumes "kept_apart S E options"
  shows "\<exists>shown hidden.
     scanProject S E (options\<lparr>o_includeExternal := True\<rparr>) = Inr shown \<and>
     scanProject S E (options\<lparr>o_includeExternal := False\<rparr>) = Inr hidden \<and>
     g_root hidden = g_root shown \<and> g_totalFiles hidden = g_totalFiles shown \<and>
     g_ignoredCount hidden = g_ignoredCount shown \<and>
     g_externalCount hidden = g_externalCount shown \<and>
     g_nodes hidden = filter (\<lambda>n. n_id n \<noteq> ''__external__'') (g_nodes shown) \<and>
     g_edges hidden = filter (\<lambda>e. e_type e \<noteq> ExternalEdge) (g_edges shown)"
proof -
  let ?root = "path_resolve (v_cwd E) [o_root options]"
  from assms obtain w where w: "project_walk S E options = Inr w"
    and apart: "names_apart S (server_resolve E ?root) (server_files E ?root (w_filesToParse w))"
    and free: "''__external__'' \<notin> fst ` set (w_nodes w)"
      "''__external__'' \<notin> n_id ` set (w_ignoredNodes w)"
    by (cases "project_walk S E options") (simp_all add: kept_apart_def Let_def)
  let ?files = "server_files E ?root (w_filesToParse w)"
  let ?gran = "granularity_or_file (o_granularity options)"
  let ?shown = "assemble S (server_resolve E ?root) True ?gran ?files w"
  let ?hidden = "assemble S (server_resolve E ?root) False ?gran ?files w"
  have r: "shown_hidden (f_relPath ` set ?files) ?shown ?hidden"
    by (rule shown_hidden_assemble [OF apart free])
  have "nodes_ok (nodes ?shown)"
    by (rule assemble_nodes_ok [OF project_walk_nodes_ok [OF w]])
  then have "list_all (\<lambda>(k, n). n_id n = k) (nodes ?shown)" by (simp add: nodes_ok_def)
  from filter_node_ids [OF this] r
  have n: "map snd (nodes ?hidden) = filter (\<lambda>n. n_id n \<noteq> ''__external__'') (map snd (nodes ?shown))"
    by (simp add: shown_hidden_def)
  have "scanProject S E (options\<lparr>o_includeExternal := True\<rparr>) = Inr (graph_of ?root w ?shown)"
    "scanProject S E (options\<lparr>o_includeExternal := False\<rparr>) = Inr (graph_of ?root w ?hidden)"
    using w by (simp_all add: scanProject_walk)
  with n r show ?thesis by (simp add: graph_of_def shown_hidden_def)
qed

text \<open>The lemma at work: a root with \<open>a.ts\<close> holding \<open>import 'react';import './b'\<close> and \<open>b.ts\<close>
  keeps its names apart, and its two runs differ by the sentinel node and the external edge;
  the root that holds a file called \<open>__external__\<close> does not keep them apart.\<close>

lemma kept_apart_mixed:
  "kept_apart (server_scanner mixed_parser simple_ignores sha1) mixed_env (default_options ''/repo'')"
  by code_simp

lemma not_kept_apart_sentinel:
  "\<not> kept_apart (server_scanner (table_parser [(sentinel_code, sentinel_ast)]) simple_ignores sha1)
       sentinel_env (default_options ''/repo'')"
  by code_simp

lemma mixed_scenario:
  "scanProject (server_scanner mixed_parser simple_ignores sha1) mixed_env
     ((default_options ''/repo'')\<lparr>o_includeExternal := True\<rparr>) =
   Inr \<lparr>g_root = ''/repo'',
        g_nodes = [file_node server_paths ''a.ts'', file_node server_paths ''b.ts'', external_node],
        g_edges =
          [\<lparr>e_id = sha1 ''a.ts|__external__|external|react'',
            e_source = ''a.ts'', e_target = ''__external__'', e_type = ExternalEdge,
            e_statement = Some (''import '' @ [CHR 0x27] @ ''react'' @ [CHR 0x27] @ '';''),
            e_loc = Some (1, 0)\<rparr>,
           \<lparr>e_id = sha1 (''a.ts|b.ts|static|'' @ import_b_code), e_source = ''a.ts'',
            e_target = ''b.ts'', e_type = StaticEdge, e_statement = Some import_b_code,
            e_loc = Some (1, 15)\<rparr>],
        g_totalFiles = 2, g_ignoredCount = 0, g_externalCount = 1\<rparr>"
  "scanProject (server_scanner mixed_parser simple_ignores sha1) mixed_env
     ((default_options ''/repo'')\<lparr>o_includeExternal := False\<rparr>) =
   Inr \<lparr>g_root = ''/repo'',
        g_nodes = [file_node server_paths ''a.ts'', file_node server_paths ''b.ts''],
        g_edges =
          [\<lparr>e_id = sha1 (''a.ts|b.ts|static|'' @ import_b_code), e_source = ''a.ts'',
            e_target = ''b.ts'', e_type = StaticEdge, e_statement = Some import_b_code,
            e_loc = Some (1, 15)\<rparr>],
        g_totalFiles = 2, g_ignoredCount = 0, g_externalCount = 1\<rparr>"
  by code_simp+

lemma mixed_shown_hidden:
  "\<exists>shown hidden.
     scanProject mixed_scanner mixed_env ((default_options ''/repo'')\<lparr>o_includeExternal := True\<rparr>)
       = Inr shown \<and>
     scanProject mixed_scanner mixed_env ((default_options ''/repo'')\<lparr>o_includeExternal := False\<rparr>)
       = Inr hidden \<and>
     g_root hidden = g_root shown \<and> g_totalFiles hidden = g_totalFiles shown \<and>
     g_ignoredCount hidden = g_ignoredCount shown \<and>
     g_externalCount hidden = g_externalCount shown \<and>
     g_nodes hidden = filter (\<lambda>n. n_id n \<noteq> ''__external__'') (g_nodes shown) \<and>
     g_edges hidden = filter (\<lambda>e. e_type e \<noteq> ExternalEdge) (g_edges shown)"
  unfolding mixed_scanner_def
  by (rule scanProject_shown_hidden [OF kept_apart_mixed])

lemma scanProject_walk_error:
  assumes "project_walk S E options = Inl e"
  shows "scanProject S E (options\<lparr>o_includeExternal := b\<rparr>) = Inl e"
  using assms by (simp add: scanProject_walk)


section \<open>A file with the sentinel's id\<close>

lemma sentinel_scenario:
  "scanProject (server_scanner (table_parser [(sentinel_code, sentinel_ast)]) simple_ignores sha1)
     sentinel_env
     \<lparr>o_root = ''/repo'', o_maxFiles = 5000, o_includeExternal = False, o_granularity = None\<rparr> =
   Inr \<lparr>g_root = ''/repo'',
        g_nodes = [file_node server_paths ''a.ts'', file_node server_paths ''__external__''],
        g_edges =
          [\<lparr>e_id = sha1 (''a.ts|__external__|static|import '' @ [CHR 0x27] @ ''./__external__'' @ [CHR 0x27]),
            e_source = ''a.ts'', e_target = ''__external__'', e_type = StaticEdge,
            e_statement = Some (''import '' @ [CHR 0x27] @ ''./__external__'' @ [CHR 0x27]),
            e_loc = Some (1, 15)\<rparr>],
        g_totalFiles = 2, g_ignoredCount = 0, g_externalCount = 1\<rparr> \<and>
   scanProject (server_scanner (table_parser [(sentinel_code, sentinel_ast)]) simple_ignores sha1)
     sentinel_env
     \<lparr>o_root = ''/repo'', o_maxFiles = 5000, o_includeExternal = True, o_granularity = None\<rparr> =
   Inr \<lparr>g_root = ''/repo'',
        g_nodes = [file_node server_paths ''a.ts'', external_node],
        g_edges =
          [\<lparr>e_id = sha1 ''a.ts|__external__|external|react'',
            e_source = ''a.ts'', e_target = ''__external__'', e_type = ExternalEdge,
            e_statement = Some (''import '' @ [CHR 0x27] @ ''react'' @ [CHR 0x27] @ '';''),
            e_loc = Some (1, 0)\<rparr>,
           \<lparr>e_id = sha1 (''a.ts|__external__|static|import '' @ [CHR 0x27] @ ''./__external__'' @ [CHR 0x27]),
            e_source = ''a.ts'', e_target = ''__external__'', e_type = StaticEdge,
            e_statement = Some (''import '' @ [CHR 0x27] @ ''./__external__'' @ [CHR 0x27]),
            e_loc = Some (1, 15)\<rparr>],
        g_totalFiles = 2, g_ignoredCount = 0, g_externalCount = 1\<rparr>"
  by code_simp

lemma sentinel_nodes:
  "is_sentinel (file_node server_paths ''__external__'')"
  "n_label (file_node server_paths ''__external__'') = ''__external__''"
  "is_sentinel external_node"
  "n_label external_node = ''External''"
  by code_simp+

text \<open>
  Claim C10 at its failing input. The root holds a file called \<open>__external__\<close> that \<open>a.ts\<close>
  imports. Without external references shown, the graph holds a node with the sentinel's id
  and type, the node of that file; with external references shown, the sentinel made for
  \<open>react\<close> takes its place, so the two runs differ in a node that is in neither run an
  addition of the other.
\<close>

theorem scanProject_sentinel_file:
  "scanProject sentinel_scanner sentinel_env
     \<lparr>o_root = ''/repo'', o_maxFiles = 5000, o_includeExternal = False, o_granularity = None\<rparr> =
   Inr \<lparr>g_root = ''/repo'',
        g_nodes = [file_node server_paths ''a.ts'', file_node server_paths ''__external__''],
        g_edges =
          [\<lparr>e_id = hashId (''a.ts|__external__|static|import '' @ [CHR 0x27] @ ''./__external__'' @ [CHR 0x27]),
            e_source = ''a.ts'', e_target = ''__external__'', e_type = StaticEdge,
            e_statement = Some (''import '' @ [CHR 0x27] @ ''./__external__'' @ [CHR 0x27]),
            e_loc = Some (1, 15)\<rparr>],
        g_totalFiles = 2, g_ignoredCount = 0, g_externalCount = 1\<rparr> \<and>
   scanProject sentinel_scanner sentinel_env
     \<lparr>o_root = ''/repo'', o_maxFiles = 5000, o_includeExternal = True, o_granularity = None\<rparr> =
   Inr \<lparr>g_root = ''/repo'',
        g_nodes = [file_node server_paths ''a.ts'', external_node],
        g_edges =
          [\<lparr>e_id = hashId ''a.ts|__external__|external|react'',
            e_source = ''a.ts'', e_target = ''__external__'', e_type = ExternalEdge,
            e_statement = Some (''import '' @ [CHR 0x27] @ ''react'' @ [CHR 0x27] @ '';''),
            e_loc = Some (1, 0)\<rparr>,
           \<lparr>e_id = hashId (''a.ts|__external__|static|import '' @ [CHR 0x27] @ ''./__external__'' @ [CHR 0x27]),
            e_source = ''a.ts'', e_target = ''__external__'', e_type = StaticEdge,
            e_statement = Some (''import '' @ [CHR 0x27] @ ''./__external__'' @ [CHR 0x27]),
            e_loc = Some (1, 15)\<rparr>],
        g_totalFiles = 2, g_ignoredCount = 0, g_externalCount = 1\<rparr> \<and>
   is_sentinel (file_node server_paths ''__external__'') \<and>
   file_node server_paths ''__external__'' \<noteq> external_node"
proof -
  have "file_node server_paths ''__external__'' \<noteq> external_node"
    using sentinel_nodes(2,4) by auto
  with sentinel_scenario [of hashId, folded sentinel_scanner_def] sentinel_nodes(1)
  show ?thesis by blast
qed

end
